(* ===== verification/Go_Prelude.thy ===== *)
theory Go_Prelude
  imports Main "HOL-Library.AList" "HOL-Library.Multiset" "HOL-Library.Word"
begin

text \<open>
  What the components share.  Go strings are byte sequences, so they are modelled by
  \<^typ>\<open>string\<close> and every length is a number of bytes.  The first part holds the functions
  of Go's \<^verbatim>\<open>strings\<close>, \<^verbatim>\<open>strconv\<close> and \<^verbatim>\<open>encoding/hex\<close> packages that the program calls, with
  the laws the components use.  The second part is Go's built-in map: an association list
  with distinct keys, written with \<^const>\<open>AList.update\<close> and \<^const>\<open>AList.delete\<close>, whose
  iteration order is left open (a \<^verbatim>\<open>range\<close> loop visits some permutation of the entries).
  The third part is a buffered channel.  Time is an integer number of nanoseconds; an
  error is its text, and a fallible function returns \<open>Inl\<close> of that text.
\<close>

type_synonym error = string
type_synonym 'a res = "error + 'a"
type_synonym 'v gomap = "(string \<times> 'v) list"

named_theorems gomap_simps "lookup laws of Go maps"
named_theorems string_simps "laws of the string functions"

section \<open>Strings\<close>

definition HasPrefix :: "string \<Rightarrow> string \<Rightarrow> bool" where
  "HasPrefix s p = (take (length p) s = p)"

fun Contains :: "string \<Rightarrow> string \<Rightarrow> bool" where
  "Contains [] sub = (sub = [])"
| "Contains (c # s) sub = (HasPrefix (c # s) sub \<or> Contains s sub)"

text \<open>\<^verbatim>\<open>strings.Split\<close> and \<^verbatim>\<open>strings.SplitN\<close> for a separator of one byte.\<close>

fun Split :: "char \<Rightarrow> string \<Rightarrow> string list" where
  "Split c [] = [[]]"
| "Split c (x # xs) =
     (if x = c then [] # Split c xs
      else (case Split c xs of [] \<Rightarrow> [[x]] | p # ps \<Rightarrow> (x # p) # ps))"

fun SplitN :: "char \<Rightarrow> string \<Rightarrow> nat \<Rightarrow> string list" where
  "SplitN c s 0 = []"
| "SplitN c s (Suc 0) = [s]"
| "SplitN c s (Suc (Suc n)) =
     (case dropWhile (\<lambda>x. x \<noteq> c) s of
        [] \<Rightarrow> [s]
      | _ # r \<Rightarrow> takeWhile (\<lambda>x. x \<noteq> c) s # SplitN c r (Suc n))"

fun join_with :: "char \<Rightarrow> string list \<Rightarrow> string" where
  "join_with c [] = []"
| "join_with c [p] = p"
| "join_with c (p # q # ps) = p @ c # join_with c (q # ps)"

text \<open>
  \<^verbatim>\<open>strings.TrimSpace\<close> cuts white space as \<^verbatim>\<open>unicode.IsSpace\<close> defines it.  The list holds the
  UTF-8 encodings of those code points; no encoding is a prefix of another, so removing
  leading or trailing encodings is what decoding rune by rune does.
\<close>

definition ws_encs :: "string list" where
  "ws_encs =
     [[CHR 0x09], [CHR 0x0A], [CHR 0x0B], [CHR 0x0C], [CHR 0x0D], [CHR 0x20],
      [CHR 0xC2, CHR 0x85], [CHR 0xC2, CHR 0xA0],
      [CHR 0xE1, CHR 0x9A, CHR 0x80],
      [CHR 0xE2, CHR 0x80, CHR 0x80], [CHR 0xE2, CHR 0x80, CHR 0x81],
      [CHR 0xE2, CHR 0x80, CHR 0x82], [CHR 0xE2, CHR 0x80, CHR 0x83],
      [CHR 0xE2, CHR 0x80, CHR 0x84], [CHR 0xE2, CHR 0x80, CHR 0x85],
      [CHR 0xE2, CHR 0x80, CHR 0x86], [CHR 0xE2, CHR 0x80, CHR 0x87],
      [CHR 0xE2, CHR 0x80, CHR 0x88], [CHR 0xE2, CHR 0x80, CHR 0x89],
      [CHR 0xE2, CHR 0x80, CHR 0x8A],
      [CHR 0xE2, CHR 0x80, CHR 0xA8], [CHR 0xE2, CHR 0x80, CHR 0xA9],
      [CHR 0xE2, CHR 0x80, CHR 0xAF], [CHR 0xE2, CHR 0x81, CHR 0x9F],
      [CHR 0xE3, CHR 0x80, CHR 0x80]]"

definition drop_enc :: "string list \<Rightarrow> string \<Rightarrow> string option" where
  "drop_enc encs s =
     (case find (\<lambda>e. e \<noteq> [] \<and> HasPrefix s e) encs of
        None \<Rightarrow> None
      | Some e \<Rightarrow> Some (drop (length e) s))"

lemma drop_enc_shorter: "drop_enc encs s = Some r \<Longrightarrow> length r < length s"
proof -
  assume "drop_enc encs s = Some r"
  then obtain e where "e \<noteq> []" "take (length e) s = e" "r = drop (length e) s"
    by (auto simp: drop_enc_def HasPrefix_def find_Some_iff split: option.splits)
  then show ?thesis
    by (cases s; cases e) auto
qed

function trim_left :: "string list \<Rightarrow> string \<Rightarrow> string" where
  "trim_left encs s = (case drop_enc encs s of None \<Rightarrow> s | Some r \<Rightarrow> trim_left encs r)"
  by pat_completeness auto
termination
  by (relation "measure (\<lambda>(encs, s). length s)") (auto dest: drop_enc_shorter)

declare trim_left.simps [simp del]

definition trim_right :: "string list \<Rightarrow> string \<Rightarrow> string" where
  "trim_right encs s = rev (trim_left (map rev encs) (rev s))"

definition TrimSpace :: "string \<Rightarrow> string" where
  "TrimSpace s = trim_right ws_encs (trim_left ws_encs s)"

text \<open>\<^verbatim>\<open>strings.TrimRight(s, "\n")\<close>.\<close>

definition TrimRightNL :: "string \<Rightarrow> string" where
  "TrimRightNL s = rev (dropWhile (\<lambda>c. c = CHR 0x0A) (rev s))"

text \<open>
  \<^verbatim>\<open>strings.ToLower\<close> and \<^verbatim>\<open>strings.EqualFold\<close> on ASCII.  The program compares the result with
  the words \<open>who\<close>, \<open>rename\<close>, \<open>to\<close>, \<open>group\<close>, \<open>bearer\<close>, \<open>true\<close>, \<open>yes\<close>, \<open>on\<close> and similar, and the
  only non-ASCII runes that fold to ASCII letters fold to k, i and s; the folding of other
  bytes is therefore not observable through those comparisons.
\<close>

definition ascii_lower :: "char \<Rightarrow> char" where
  "ascii_lower c =
     (if 65 \<le> (of_char c :: nat) \<and> (of_char c :: nat) \<le> 90
      then char_of ((of_char c :: nat) + 32) else c)"

definition ToLower :: "string \<Rightarrow> string" where
  "ToLower s = map ascii_lower s"

text \<open>\<^verbatim>\<open>strconv.Atoi\<close>: an optional sign and decimal digits, within the 64-bit \<^verbatim>\<open>int\<close>.\<close>

definition is_digit :: "char \<Rightarrow> bool" where
  "is_digit c = (48 \<le> (of_char c :: nat) \<and> (of_char c :: nat) \<le> 57)"

definition digits_val :: "string \<Rightarrow> int" where
  "digits_val ds = foldl (\<lambda>n c. n * 10 + (int (of_char c) - 48)) 0 ds"

definition Atoi :: "string \<Rightarrow> int option" where
  "Atoi s =
     (let neg = HasPrefix s ''-'';
          ds = (if HasPrefix s ''-'' \<or> HasPrefix s ''+'' then drop 1 s else s);
          v = (if neg then - digits_val ds else digits_val ds)
      in if ds = [] \<or> \<not> list_all is_digit ds then None
         else if v < - (2 ^ 63) \<or> v \<ge> 2 ^ 63 then None
         else Some v)"

text \<open>\<^verbatim>\<open>fmt.Sprintf("%d", n)\<close>.\<close>

fun nat_digits :: "nat \<Rightarrow> string" where
  "nat_digits n =
     (if n < 10 then [char_of (48 + n)] else nat_digits (n div 10) @ [char_of (48 + n mod 10)])"

declare nat_digits.simps [simp del]

definition Itoa :: "int \<Rightarrow> string" where
  "Itoa n = (if n < 0 then CHR ''-'' # nat_digits (nat (- n)) else nat_digits (nat n))"

text \<open>\<^verbatim>\<open>hex.EncodeToString\<close>.\<close>

definition hex_digit :: "nat \<Rightarrow> char" where
  "hex_digit n = ''0123456789abcdef'' ! n"

definition hex_byte :: "8 word \<Rightarrow> string" where
  "hex_byte b = [hex_digit (unat b div 16), hex_digit (unat b mod 16)]"

definition EncodeToString :: "8 word list \<Rightarrow> string" where
  "EncodeToString bs = concat (map hex_byte bs)"

subsection \<open>Laws of the string functions\<close>

lemma HasPrefix_append [simp, string_simps]: "HasPrefix (p @ s) p"
  by (simp add: HasPrefix_def)

lemma HasPrefix_iff: "HasPrefix s p \<longleftrightarrow> (\<exists>r. s = p @ r)"
  by (metis HasPrefix_def append_eq_conv_conj append_take_drop_id)

lemma HasPrefix_Nil [simp]: "HasPrefix s []"
  by (simp add: HasPrefix_def)

lemma HasPrefix_Cons [simp]: "HasPrefix (a # s) (b # p) \<longleftrightarrow> a = b \<and> HasPrefix s p"
  by (auto simp: HasPrefix_def)

lemma HasPrefix_Nil_Cons [simp]: "\<not> HasPrefix [] (b # p)"
  by (simp add: HasPrefix_def)

lemma Split_nonempty [simp]: "Split c s \<noteq> []"
  by (induction s) (auto split: list.splits)

lemma join_with_Cons: "ps \<noteq> [] \<Longrightarrow> join_with c (p # ps) = p @ c # join_with c ps"
  by (cases ps) auto

lemma join_Split [string_simps]: "join_with c (Split c s) = s"
proof (induction s)
  case Nil
  then show ?case by simp
next
  case (Cons x s)
  obtain p ps where "Split c s = p # ps"
    by (meson Split_nonempty neq_Nil_conv)
  with Cons show ?case by (cases ps) auto
qed

lemma Split_pieces: "p \<in> set (Split c s) \<Longrightarrow> c \<notin> set p"
  by (induction s arbitrary: p) (auto split: list.splits if_splits)

lemma Split_no_sep: "c \<notin> set s \<Longrightarrow> Split c s = [s]"
  by (induction s) auto

lemma Split_append: "c \<notin> set p \<Longrightarrow> Split c (p @ c # s) = p # Split c s"
  by (induction p) auto

lemma SplitN_nonempty [simp]: "SplitN c s (Suc n) \<noteq> []"
  by (cases n) (auto split: list.splits)

lemma join_SplitN [string_simps]: "join_with c (SplitN c s (Suc n)) = s"
proof (induction n arbitrary: s)
  case 0
  then show ?case by simp
next
  case (Suc n)
  show ?case
  proof (cases "dropWhile (\<lambda>x. x \<noteq> c) s")
    case Nil
    show ?thesis unfolding SplitN.simps Nil by simp
  next
    case (Cons d r)
    then have "d = c"
      by (metis (mono_tags, lifting) hd_dropWhile list.discI list.sel(1))
    moreover have "takeWhile (\<lambda>x. x \<noteq> c) s @ d # r = s"
      using Cons by (metis takeWhile_dropWhile_id)
    ultimately show ?thesis
      using Suc.IH [of r] unfolding SplitN.simps Cons by (simp add: join_with_Cons)
  qed
qed

lemma SplitN_length: "length (SplitN c s n) \<le> n"
  by (induction c s n rule: SplitN.induct) (auto split: list.splits)

lemma SplitN_sep:
  "c \<notin> set p \<Longrightarrow> SplitN c (p @ c # s) (Suc (Suc n)) = p # SplitN c s (Suc n)"
proof -
  assume "c \<notin> set p"
  then have "dropWhile (\<lambda>x. x \<noteq> c) (p @ c # s) = c # s"
    and "takeWhile (\<lambda>x. x \<noteq> c) (p @ c # s) = p"
    by (induction p) auto
  then show ?thesis by simp
qed

lemma trim_left_length: "length (trim_left encs s) \<le> length s"
proof (induction encs s rule: trim_left.induct)
  case (1 encs s)
  then show ?case
    by (subst trim_left.simps) (fastforce split: option.splits dest: drop_enc_shorter)
qed

lemma trim_left_suffix: "\<exists>p. s = p @ trim_left encs s"
proof (induction encs s rule: trim_left.induct)
  case (1 encs s)
  show ?case
  proof (cases "drop_enc encs s")
    case None
    then show ?thesis by (subst trim_left.simps) simp
  next
    case (Some r)
    then obtain e where "s = e @ r"
      by (auto simp: drop_enc_def HasPrefix_iff find_Some_iff split: option.splits)
    moreover obtain p where "r = p @ trim_left encs r"
      using 1 [OF Some] by blast
    moreover have "trim_left encs s = trim_left encs r"
      using Some by (subst trim_left.simps) simp
    ultimately show ?thesis
      by (metis append.assoc)
  qed
qed

lemma trim_right_length: "length (trim_right encs s) \<le> length s"
  by (metis length_rev trim_left_length trim_right_def)

lemma trim_right_prefix: "\<exists>q. s = trim_right encs s @ q"
proof -
  obtain p where "rev s = p @ trim_left (map rev encs) (rev s)"
    using trim_left_suffix by blast
  then have "s = rev (trim_left (map rev encs) (rev s)) @ rev p"
    by (metis rev_append rev_swap)
  then show ?thesis by (auto simp: trim_right_def)
qed

lemma TrimSpace_length: "length (TrimSpace s) \<le> length s"
  unfolding TrimSpace_def
  by (meson trim_left_length trim_right_length le_trans)

lemma TrimSpace_infix: "\<exists>p q. s = p @ TrimSpace s @ q"
proof -
  obtain p where p: "s = p @ trim_left ws_encs s" using trim_left_suffix by blast
  obtain q where "trim_left ws_encs s = TrimSpace s @ q"
    using trim_right_prefix unfolding TrimSpace_def by blast
  with p have "s = p @ TrimSpace s @ q" by simp
  then show ?thesis by blast
qed

lemma TrimSpace_subset: "set (TrimSpace s) \<subseteq> set s"
proof -
  obtain p q where "s = p @ TrimSpace s @ q"
    using TrimSpace_infix by blast
  then have "set s = set p \<union> set (TrimSpace s) \<union> set q"
    by (metis Un_assoc set_append)
  then show ?thesis by blast
qed

lemma hex_byte_length [simp]: "length (hex_byte b) = 2"
  by (simp add: hex_byte_def)

lemma EncodeToString_length [string_simps]: "length (EncodeToString bs) = 2 * length bs"
  by (induction bs) (auto simp: EncodeToString_def)

lemma EncodeToString_nth:
  "i < length bs \<Longrightarrow> EncodeToString bs ! (2 * i) = hex_digit (unat (bs ! i) div 16)
     \<and> EncodeToString bs ! Suc (2 * i) = hex_digit (unat (bs ! i) mod 16)"
proof (induction bs arbitrary: i)
  case (Cons b bs)
  then show ?case by (cases i) (auto simp: EncodeToString_def hex_byte_def)
qed simp

lemma hex_digit_inj: "m < 16 \<Longrightarrow> n < 16 \<Longrightarrow> hex_digit m = hex_digit n \<Longrightarrow> m = n"
proof -
  assume "m < 16" "n < 16" "hex_digit m = hex_digit n"
  moreover have "distinct ''0123456789abcdef''" by simp
  ultimately show ?thesis
    unfolding hex_digit_def by (subst (asm) nth_eq_iff_index_eq) auto
qed

lemma hex_byte_inj: "hex_byte a = hex_byte b \<Longrightarrow> a = b"
proof -
  assume eq: "hex_byte a = hex_byte b"
  have lt: "unat a < 256" "unat b < 256"
    using unsigned_less [of a] unsigned_less [of b] by auto
  then have "unat a div 16 < 16" "unat b div 16 < 16"
    by (auto simp: less_mult_imp_div_less)
  with eq have "unat a div 16 = unat b div 16" "unat a mod 16 = unat b mod 16"
    using hex_digit_inj [of "unat a mod 16" "unat b mod 16"]
    by (auto simp: hex_byte_def dest: hex_digit_inj)
  then have "unat a = unat b"
    by (metis div_mult_mod_eq)
  then show ?thesis by (simp add: word_unat_eq_iff)
qed

lemma EncodeToString_inj: "EncodeToString as = EncodeToString bs \<Longrightarrow> as = bs"
proof (induction as arbitrary: bs)
  case Nil
  then have "length (EncodeToString bs) = 0"
    by (simp add: EncodeToString_def)
  then show ?case by (simp add: EncodeToString_length)
next
  case (Cons a as)
  from Cons.prems have "length (EncodeToString (a # as)) = length (EncodeToString bs)" by simp
  then obtain b bs' where bs: "bs = b # bs'"
    by (cases bs) (auto simp: EncodeToString_length)
  with Cons.prems have "hex_byte a = hex_byte b" "EncodeToString as = EncodeToString bs'"
    by (auto simp: EncodeToString_def)
  with Cons.IH bs show ?case by (auto dest: hex_byte_inj)
qed

section \<open>Association lists as Go maps\<close>

text \<open>
  The interface of a keyed store: what a lookup returns after a write or a deletion, and
  what keeps the store well formed.  The client lemmas (moving an entry to another key,
  deleting every entry that satisfies a condition) are proved once from these laws and are
  used by the rate limiter, the session store and the connection tables.
\<close>

definition map_ok :: "'v gomap \<Rightarrow> bool" where
  "map_ok m = distinct (map fst m)"

definition move_key :: "string \<Rightarrow> string \<Rightarrow> 'v \<Rightarrow> 'v gomap \<Rightarrow> 'v gomap" where
  "move_key old new v m = AList.update new v (AList.delete old m)"

definition delete_where :: "(string \<Rightarrow> 'v \<Rightarrow> bool) \<Rightarrow> 'v gomap \<Rightarrow> 'v gomap" where
  "delete_where P m = filter (\<lambda>(k, v). \<not> P k v) m"

locale keyed_store =
  fixes lookup :: "'m \<Rightarrow> string \<Rightarrow> 'v option"
    and put :: "string \<Rightarrow> 'v \<Rightarrow> 'm \<Rightarrow> 'm"
    and remove :: "string \<Rightarrow> 'm \<Rightarrow> 'm"
    and purge :: "(string \<Rightarrow> 'v \<Rightarrow> bool) \<Rightarrow> 'm \<Rightarrow> 'm"
    and ok :: "'m \<Rightarrow> bool"
  assumes lookup_put: "lookup (put k v m) k' = (if k' = k then Some v else lookup m k')"
    and lookup_remove: "lookup (remove k m) k' = (if k' = k then None else lookup m k')"
    and lookup_purge: "ok m \<Longrightarrow> lookup (purge P m) k =
          (case lookup m k of None \<Rightarrow> None | Some v \<Rightarrow> if P k v then None else Some v)"
    and ok_put: "ok m \<Longrightarrow> ok (put k v m)"
    and ok_remove: "ok m \<Longrightarrow> ok (remove k m)"
    and ok_purge: "ok m \<Longrightarrow> ok (purge P m)"
begin

lemma lookup_move:
  "lookup (put new v (remove old m)) k =
     (if k = new then Some v else if k = old then None else lookup m k)"
  by (simp add: lookup_put lookup_remove)

lemma ok_move: "ok m \<Longrightarrow> ok (put new v (remove old m))"
  by (simp add: ok_put ok_remove)

lemma lookup_purge_put:
  "ok m \<Longrightarrow> lookup (put k v (purge P m)) k' =
     (if k' = k then Some v
      else (case lookup m k' of None \<Rightarrow> None | Some w \<Rightarrow> if P k' w then None else Some w))"
  by (simp add: lookup_put lookup_purge)

lemma put_remove_same: "lookup (remove k (put k v m)) = lookup (remove k m)"
  by (auto simp: fun_eq_iff lookup_put lookup_remove)

end

lemma map_of_delete_where:
  "map_ok m \<Longrightarrow> map_of (delete_where P m) k =
     (case map_of m k of None \<Rightarrow> None | Some v \<Rightarrow> if P k v then None else Some v)"
proof (induction m)
  case Nil
  then show ?case by (simp add: delete_where_def)
next
  case (Cons kv m)
  obtain a v where kv: "kv = (a, v)" by (cases kv)
  have "map_of m a = None"
    using Cons.prems kv by (simp add: map_ok_def map_of_eq_None_iff)
  then show ?case
    using Cons kv by (auto simp: delete_where_def map_ok_def)
qed

lemma map_ok_delete_where: "map_ok m \<Longrightarrow> map_ok (delete_where P m)"
  by (auto simp: map_ok_def delete_where_def distinct_map inj_on_def)

interpretation gm: keyed_store map_of AList.update AList.delete delete_where map_ok
proof unfold_locales
  fix m :: "'v gomap" and k k' v
  show "map_of (AList.update k v m) k' = (if k' = k then Some v else map_of m k')"
    by (simp add: update_conv')
  show "map_of (AList.delete k m) k' = (if k' = k then None else map_of m k')"
    by (simp add: delete_conv')
  show "map_ok m \<Longrightarrow> map_ok (AList.update k v m)"
    by (simp add: map_ok_def distinct_update)
  show "map_ok m \<Longrightarrow> map_ok (AList.delete k m)"
    by (simp add: map_ok_def distinct_delete)
next
  fix m :: "'v gomap" and P k
  assume "map_ok m"
  then show "map_of (delete_where P m) k =
      (case map_of m k of None \<Rightarrow> None | Some v \<Rightarrow> if P k v then None else Some v)"
    and "map_ok (delete_where P m)"
    by (rule map_of_delete_where, rule map_ok_delete_where)
qed

lemmas gomap_laws [gomap_simps] =
  gm.lookup_put gm.lookup_remove gm.lookup_purge gm.lookup_purge_put
  gm.ok_put gm.ok_remove gm.ok_purge gm.ok_move

lemma map_of_move_key [gomap_simps]:
  "map_of (move_key old new v m) k =
     (if k = new then Some v else if k = old then None else map_of m k)"
  unfolding move_key_def by (rule gm.lookup_move)

lemma map_ok_move_key [gomap_simps]: "map_ok m \<Longrightarrow> map_ok (move_key old new v m)"
  unfolding move_key_def by (rule gm.ok_move)

lemma map_ok_Nil [simp]: "map_ok []"
  by (simp add: map_ok_def)

lemma map_ok_in_set: "map_ok m \<Longrightarrow> (k, v) \<in> set m \<longleftrightarrow> map_of m k = Some v"
  by (simp add: map_ok_def)

text \<open>
  A \<^verbatim>\<open>range\<close> loop over a map visits its entries in an unspecified order: a permutation.
\<close>

definition any_order :: "('a list \<Rightarrow> 'a list) \<Rightarrow> bool" where
  "any_order f = (\<forall>xs. mset (f xs) = mset xs)"

lemma any_order_id: "any_order (\<lambda>xs. xs)"
  by (simp add: any_order_def)

lemma any_order_set [simp]: "any_order f \<Longrightarrow> set (f xs) = set xs"
  by (metis any_order_def mset_eq_setD)

lemma any_order_length: "any_order f \<Longrightarrow> length (f xs) = length xs"
  by (metis any_order_def size_mset)

text \<open>
  A loop whose bodies commute ends in the same state whatever the order of the visit.
\<close>

lemma fold_any_order:
  assumes "\<And>x y s. f x (f y s) = f y (f x s)" and "mset xs = mset ys"
  shows "fold f xs s = fold f ys s"
proof -
  have "fold f xs = fold f ys"
    using assms by (intro fold_multiset_equiv) (auto simp: fun_eq_iff)
  then show ?thesis by simp
qed

section \<open>Rows of a join\<close>

text \<open>A join whose inner table has at most one matching row, and the filter it amounts to.\<close>

lemma concat_unique:
  assumes "\<And>x y. x \<in> set xs \<Longrightarrow> y \<in> set xs \<Longrightarrow> P x \<Longrightarrow> P y \<Longrightarrow> x = y" "distinct xs"
  shows "concat (map (\<lambda>x. if P x then [c] else []) xs) = (if \<exists>x \<in> set xs. P x then [c] else [])"
  using assms
proof (induction xs)
  case Nil
  then show ?case by simp
next
  case (Cons a xs)
  have "concat (map (\<lambda>x. if P x then [c] else []) xs) = (if \<exists>x \<in> set xs. P x then [c] else [])"
    using Cons by (intro Cons.IH) auto
  moreover have "\<not> (\<exists>x \<in> set xs. P x)" if "P a"
    using Cons.prems that by fastforce
  ultimately show ?case by auto
qed

lemma in_join:
  "x \<in> set (concat (map f xs)) \<longleftrightarrow> (\<exists>a \<in> set xs. x \<in> set (f a))"
  "x \<in> set (if c then ys else []) \<longleftrightarrow> c \<and> x \<in> set ys"
  "x \<in> set [y] \<longleftrightarrow> x = y"
  by auto

lemma nested_if: "(if a then if b then x else y else y) = (if a \<and> b then x else y)"
  by simp

lemma concat_if_filter: "concat (map (\<lambda>x. if P x then [f x] else []) xs) = map f (filter P xs)"
  by (induction xs) auto

section \<open>Buffered channels\<close>

record 'a chan =
  ch_buf :: "'a list"
  ch_cap :: nat
  ch_closed :: bool

definition make_chan :: "nat \<Rightarrow> 'a chan" where
  "make_chan n = \<lparr>ch_buf = [], ch_cap = n, ch_closed = False\<rparr>"

text \<open>
  \<^verbatim>\<open>select { case c <- x: default: }\<close>: the value is queued if there is room and dropped
  otherwise; a send on a closed channel panics (\<^const>\<open>None\<close>).
\<close>

definition try_send :: "'a \<Rightarrow> 'a chan \<Rightarrow> 'a chan option" where
  "try_send x c =
     (if ch_closed c then None
      else if length (ch_buf c) < ch_cap c then Some (c\<lparr>ch_buf := ch_buf c @ [x]\<rparr>)
      else Some c)"

definition chan_ok :: "'a chan \<Rightarrow> bool" where
  "chan_ok c = (length (ch_buf c) \<le> ch_cap c)"

lemma chan_ok_make [simp]: "chan_ok (make_chan n)"
  by (simp add: chan_ok_def make_chan_def)

lemma try_send_ok: "try_send x c = Some c' \<Longrightarrow> chan_ok c \<Longrightarrow> chan_ok c'"
  by (auto simp: try_send_def chan_ok_def split: if_splits)

lemma try_send_open: "\<not> ch_closed c \<Longrightarrow> \<exists>c'. try_send x c = Some c' \<and> \<not> ch_closed c'"
  by (auto simp: try_send_def)

lemma try_send_prefix:
  "try_send x c = Some c' \<Longrightarrow> ch_buf c' = ch_buf c \<or> ch_buf c' = ch_buf c @ [x]"
  by (auto simp: try_send_def split: if_splits)

lemma try_send_cap: "try_send x c = Some c' \<Longrightarrow> ch_cap c' = ch_cap c"
  by (auto simp: try_send_def split: if_splits)

end
