(* ===== verification/Lchat_Model.thy ===== *)
theory Lchat_Model
  imports Go_Prelude
begin

text \<open>
  The data of \<^verbatim>\<open>internal/model/model.go\<close>, one record per struct with the fields in the
  source's order, and the expiry test of a session.  Field names carry a prefix because
  the structs share names.  Times are integers.
\<close>

record DBUser =
  du_ID :: int
  du_Username :: string
  du_Password :: string
  du_Avatar :: string
  du_Gender :: string
  du_Signature :: string
  du_CreatedAt :: int

record UserPublic =
  up_ID :: int
  up_Username :: string
  up_Avatar :: string
  up_Gender :: string
  up_Signature :: string
  up_CreatedAt :: int

record DBGroup =
  dg_ID :: int
  dg_Name :: string
  dg_CreatorID :: int
  dg_Description :: string
  dg_CreatedAt :: int

record DBMessage =
  dm_ID :: int
  dm_FromID :: int
  dm_ToID :: "int option"
  dm_GroupID :: "int option"
  dm_Content :: string
  dm_Type :: string
  dm_CreatedAt :: int

record DBMessageExt =
  mx_ID :: int
  mx_From :: string
  mx_Avatar :: string
  mx_Signature :: string
  mx_To :: string
  mx_Group :: string
  mx_Content :: string
  mx_Type :: string
  mx_CreatedAt :: int

record Session =
  se_Username :: string
  se_CreatedAt :: int
  se_ExpiresAt :: int

definition IsExpired :: "int \<Rightarrow> Session \<Rightarrow> bool" where
  "IsExpired now s = (now > se_ExpiresAt s)"

lemma IsExpired_mono: "IsExpired now s \<Longrightarrow> now \<le> now' \<Longrightarrow> IsExpired now' s"
  by (simp add: IsExpired_def)

end
