(* ===== verification/Lchat_Texts.thy ===== *)
theory Lchat_Texts
  imports Main
begin

text \<open>
  The string literals of the program that are not ASCII, as the bytes the Go compiler puts
  into the binary (UTF-8).  The comment before each gives its meaning.
\<close>

definition sysOnline :: string where
  \<comment> \<open>is online\<close>
  "sysOnline =
     [CHR 0xE5, CHR 0xB7, CHR 0xB2, CHR 0xE4, CHR 0xB8, CHR 0x8A, CHR 0xE7, CHR 0xBA,
     CHR 0xBF]"

definition sysOffline :: string where
  \<comment> \<open>is offline\<close>
  "sysOffline =
     [CHR 0xE5, CHR 0xB7, CHR 0xB2, CHR 0xE4, CHR 0xB8, CHR 0x8B, CHR 0xE7, CHR 0xBA,
     CHR 0xBF]"

definition txt_kicked :: string where
  \<comment> \<open>you were kicked out\<close>
  "txt_kicked =
     [CHR 0xE4, CHR 0xBD, CHR 0xA0, CHR 0xE5, CHR 0xB7, CHR 0xB2, CHR 0xE8, CHR 0xA2,
     CHR 0xAB, CHR 0xE8, CHR 0xB8, CHR 0xA2, CHR 0xE5, CHR 0x87, CHR 0xBA]"

definition txt_group_open :: string where
  \<comment> \<open>[group chat\<close>
  "txt_group_open =
     ''['' @ [CHR 0xE7, CHR 0xBE, CHR 0xA4, CHR 0xE8, CHR 0x81, CHR 0x8A] @ '' ''"

definition txt_private :: string where
  \<comment> \<open>[private]\<close>
  "txt_private =
     ''['' @ [CHR 0xE7, CHR 0xA7, CHR 0x81, CHR 0xE8, CHR 0x81, CHR 0x8A] @ ''] ''"

definition txt_sender_missing :: string where
  \<comment> \<open>sender does not exist\<close>
  "txt_sender_missing =
     [CHR 0xE5, CHR 0x8F, CHR 0x91, CHR 0xE9, CHR 0x80, CHR 0x81, CHR 0xE8, CHR 0x80,
     CHR 0x85, CHR 0xE4, CHR 0xB8, CHR 0x8D, CHR 0xE5, CHR 0xAD, CHR 0x98, CHR 0xE5,
     CHR 0x9C, CHR 0xA8] @ '': ''"

definition txt_members_failed :: string where
  \<comment> \<open>reading the members failed\<close>
  "txt_members_failed =
     [CHR 0xE8, CHR 0x8E, CHR 0xB7, CHR 0xE5, CHR 0x8F, CHR 0x96, CHR 0xE7, CHR 0xBE,
     CHR 0xA4, CHR 0xE7, CHR 0xBB, CHR 0x84, CHR 0xE6, CHR 0x88, CHR 0x90, CHR 0xE5,
     CHR 0x91, CHR 0x98, CHR 0xE5, CHR 0xA4, CHR 0xB1, CHR 0xE8, CHR 0xB4, CHR 0xA5] @ '': ''"

definition txt_group_empty :: string where
  \<comment> \<open>no such group or no members\<close>
  "txt_group_empty =
     [CHR 0xE7, CHR 0xBE, CHR 0xA4, CHR 0xE7, CHR 0xBB, CHR 0x84, CHR 0xE4, CHR 0xB8,
     CHR 0x8D, CHR 0xE5, CHR 0xAD, CHR 0x98, CHR 0xE5, CHR 0x9C, CHR 0xA8, CHR 0xE6,
     CHR 0x88, CHR 0x96, CHR 0xE6, CHR 0xB2, CHR 0xA1, CHR 0xE6, CHR 0x9C, CHR 0x89,
     CHR 0xE6, CHR 0x88, CHR 0x90, CHR 0xE5, CHR 0x91, CHR 0x98]"

definition txt_group_id_failed :: string where
  \<comment> \<open>reading the group id failed\<close>
  "txt_group_id_failed =
     [CHR 0xE8, CHR 0x8E, CHR 0xB7, CHR 0xE5, CHR 0x8F, CHR 0x96, CHR 0xE7, CHR 0xBE,
     CHR 0xA4, CHR 0xE7, CHR 0xBB, CHR 0x84] @ ''ID'' @ [CHR 0xE5, CHR 0xA4, CHR 0xB1,
     CHR 0xE8, CHR 0xB4, CHR 0xA5] @ '': ''"

definition txt_receiver_missing :: string where
  \<comment> \<open>receiver does not exist\<close>
  "txt_receiver_missing =
     [CHR 0xE6, CHR 0x8E, CHR 0xA5, CHR 0xE6, CHR 0x94, CHR 0xB6, CHR 0xE8, CHR 0x80,
     CHR 0x85, CHR 0xE4, CHR 0xB8, CHR 0x8D, CHR 0xE5, CHR 0xAD, CHR 0x98, CHR 0xE5,
     CHR 0x9C, CHR 0xA8] @ '': ''"

definition txt_name_taken :: string where
  \<comment> \<open>name is taken\<close>
  "txt_name_taken =
     [CHR 0xE7, CHR 0x94, CHR 0xA8, CHR 0xE6, CHR 0x88, CHR 0xB7, CHR 0xE5, CHR 0x90,
     CHR 0x8D, CHR 0xE5, CHR 0xB7, CHR 0xB2, CHR 0xE8, CHR 0xA2, CHR 0xAB, CHR 0xE5,
     CHR 0x8D, CHR 0xA0, CHR 0xE7, CHR 0x94, CHR 0xA8]"

definition txt_old_name_missing :: string where
  \<comment> \<open>old name does not exist\<close>
  "txt_old_name_missing =
     [CHR 0xE6, CHR 0x97, CHR 0xA7, CHR 0xE7, CHR 0x94, CHR 0xA8, CHR 0xE6, CHR 0x88,
     CHR 0xB7, CHR 0xE5, CHR 0x90, CHR 0x8D, CHR 0xE4, CHR 0xB8, CHR 0x8D, CHR 0xE5,
     CHR 0xAD, CHR 0x98, CHR 0xE5, CHR 0x9C, CHR 0xA8]"

definition txt_user_missing :: string where
  \<comment> \<open>user does not exist\<close>
  "txt_user_missing =
     [CHR 0xE7, CHR 0x94, CHR 0xA8, CHR 0xE6, CHR 0x88, CHR 0xB7, CHR 0xE4, CHR 0xB8,
     CHR 0x8D, CHR 0xE5, CHR 0xAD, CHR 0x98, CHR 0xE5, CHR 0x9C, CHR 0xA8] @ '': ''"

definition txt_login_limited :: string where
  \<comment> \<open>too many logins\<close>
  "txt_login_limited =
     [CHR 0xE7, CHR 0x99, CHR 0xBB, CHR 0xE5, CHR 0xBD, CHR 0x95, CHR 0xE8, CHR 0xBF,
     CHR 0x87, CHR 0xE4, CHR 0xBA, CHR 0x8E, CHR 0xE9, CHR 0xA2, CHR 0x91, CHR 0xE7,
     CHR 0xB9, CHR 0x81] @ '','' @ [CHR 0xE8, CHR 0xAF, CHR 0xB7, CHR 0xE7, CHR 0xA8,
     CHR 0x8D, CHR 0xE5, CHR 0x90, CHR 0x8E, CHR 0xE5, CHR 0x86, CHR 0x8D, CHR 0xE8,
     CHR 0xAF, CHR 0x95, CHR 0x0A]"

definition txt_login_format :: string where
  \<comment> \<open>bad login format\<close>
  "txt_login_format =
     [CHR 0xE7, CHR 0x99, CHR 0xBB, CHR 0xE5, CHR 0xBD, CHR 0x95, CHR 0xE6, CHR 0xA0,
     CHR 0xBC, CHR 0xE5, CHR 0xBC, CHR 0x8F, CHR 0xE9, CHR 0x94, CHR 0x99, CHR 0xE8,
     CHR 0xAF, CHR 0xAF] @ '','' @ [CHR 0xE7, CHR 0xA4, CHR 0xBA, CHR 0xE4, CHR 0xBE,
     CHR 0x8B] @ '':login|username|password'' @ [CHR 0x0A]"

definition txt_bad_name :: string where
  \<comment> \<open>letters, digits, Chinese and underscore only\<close>
  "txt_bad_name =
     [CHR 0xE7, CHR 0x94, CHR 0xA8, CHR 0xE6, CHR 0x88, CHR 0xB7, CHR 0xE5, CHR 0x90,
     CHR 0x8D, CHR 0xE5, CHR 0x8F, CHR 0xAA, CHR 0xE8, CHR 0x83, CHR 0xBD, CHR 0xE5,
     CHR 0x8C, CHR 0x85, CHR 0xE5, CHR 0x90, CHR 0xAB, CHR 0xE5, CHR 0xAD, CHR 0x97,
     CHR 0xE6, CHR 0xAF, CHR 0x8D, CHR 0xE3, CHR 0x80, CHR 0x81, CHR 0xE6, CHR 0x95,
     CHR 0xB0, CHR 0xE5, CHR 0xAD, CHR 0x97, CHR 0xE3, CHR 0x80, CHR 0x81, CHR 0xE4,
     CHR 0xB8, CHR 0xAD, CHR 0xE6, CHR 0x96, CHR 0x87, CHR 0xE5, CHR 0x92, CHR 0x8C,
     CHR 0xE4, CHR 0xB8, CHR 0x8B, CHR 0xE5, CHR 0x88, CHR 0x92, CHR 0xE7, CHR 0xBA,
     CHR 0xBF, CHR 0x0A]"

definition txt_login_taken :: string where
  \<comment> \<open>login failed: name is taken\<close>
  "txt_login_taken =
     [CHR 0xE7, CHR 0x99, CHR 0xBB, CHR 0xE5, CHR 0xBD, CHR 0x95, CHR 0xE5, CHR 0xA4,
     CHR 0xB1, CHR 0xE8, CHR 0xB4, CHR 0xA5, CHR 0xEF, CHR 0xBC, CHR 0x9A, CHR 0xE7,
     CHR 0x94, CHR 0xA8, CHR 0xE6, CHR 0x88, CHR 0xB7, CHR 0xE5, CHR 0x90, CHR 0x8D,
     CHR 0xE5, CHR 0xB7, CHR 0xB2, CHR 0xE8, CHR 0xA2, CHR 0xAB, CHR 0xE5, CHR 0x8D,
     CHR 0xA0, CHR 0xE7, CHR 0x94, CHR 0xA8, CHR 0x0A]"

definition txt_login_ok :: string where
  \<comment> \<open>logged in\<close>
  "txt_login_ok =
     [CHR 0xE7, CHR 0x99, CHR 0xBB, CHR 0xE5, CHR 0xBD, CHR 0x95, CHR 0xE6, CHR 0x88,
     CHR 0x90, CHR 0xE5, CHR 0x8A, CHR 0x9F, CHR 0x0A]"

definition txt_login_wrong :: string where
  \<comment> \<open>wrong name or password\<close>
  "txt_login_wrong =
     [CHR 0xE7, CHR 0x94, CHR 0xA8, CHR 0xE6, CHR 0x88, CHR 0xB7, CHR 0xE5, CHR 0x90,
     CHR 0x8D, CHR 0xE6, CHR 0x88, CHR 0x96, CHR 0xE5, CHR 0xAF, CHR 0x86, CHR 0xE7,
     CHR 0xA0, CHR 0x81, CHR 0xE9, CHR 0x94, CHR 0x99, CHR 0xE8, CHR 0xAF, CHR 0xAF,
     CHR 0x0A]"

definition txt_register_limited :: string where
  \<comment> \<open>too many registrations\<close>
  "txt_register_limited =
     [CHR 0xE6, CHR 0xB3, CHR 0xA8, CHR 0xE5, CHR 0x86, CHR 0x8C, CHR 0xE8, CHR 0xBF,
     CHR 0x87, CHR 0xE4, CHR 0xBA, CHR 0x8E, CHR 0xE9, CHR 0xA2, CHR 0x91, CHR 0xE7,
     CHR 0xB9, CHR 0x81] @ '','' @ [CHR 0xE8, CHR 0xAF, CHR 0xB7, CHR 0xE7, CHR 0xA8,
     CHR 0x8D, CHR 0xE5, CHR 0x90, CHR 0x8E, CHR 0xE5, CHR 0x86, CHR 0x8D, CHR 0xE8,
     CHR 0xAF, CHR 0x95, CHR 0x0A]"

definition txt_register_format :: string where
  \<comment> \<open>bad register format\<close>
  "txt_register_format =
     [CHR 0xE6, CHR 0xB3, CHR 0xA8, CHR 0xE5, CHR 0x86, CHR 0x8C, CHR 0xE6, CHR 0xA0,
     CHR 0xBC, CHR 0xE5, CHR 0xBC, CHR 0x8F, CHR 0xE9, CHR 0x94, CHR 0x99, CHR 0xE8,
     CHR 0xAF, CHR 0xAF] @ '','' @ [CHR 0xE7, CHR 0xA4, CHR 0xBA, CHR 0xE4, CHR 0xBE,
     CHR 0x8B] @ '':register|username|password'' @ [CHR 0x0A]"

definition txt_default_avatar :: string where
  \<comment> \<open>default avatar\<close>
  "txt_default_avatar =
     [CHR 0xF0, CHR 0x9F, CHR 0x91, CHR 0xA4]"

definition txt_register_failed :: string where
  \<comment> \<open>registration failed\<close>
  "txt_register_failed =
     [CHR 0xE6, CHR 0xB3, CHR 0xA8, CHR 0xE5, CHR 0x86, CHR 0x8C, CHR 0xE5, CHR 0xA4,
     CHR 0xB1, CHR 0xE8, CHR 0xB4, CHR 0xA5] @ '': ''"

definition txt_register_ok :: string where
  \<comment> \<open>registered, please log in\<close>
  "txt_register_ok =
     [CHR 0xE6, CHR 0xB3, CHR 0xA8, CHR 0xE5, CHR 0x86, CHR 0x8C, CHR 0xE6, CHR 0x88,
     CHR 0x90, CHR 0xE5, CHR 0x8A, CHR 0x9F, CHR 0xEF, CHR 0xBC, CHR 0x8C, CHR 0xE8,
     CHR 0xAF, CHR 0xB7, CHR 0xE4, CHR 0xBD, CHR 0xBF, CHR 0xE7, CHR 0x94, CHR 0xA8]
     @ '' login|username|password '' @ [CHR 0xE7, CHR 0x99, CHR 0xBB, CHR 0xE5, CHR 0xBD,
     CHR 0x95, CHR 0x0A]"

definition txt_please_login :: string where
  \<comment> \<open>log in or register first\<close>
  "txt_please_login =
     [CHR 0xE8, CHR 0xAF, CHR 0xB7, CHR 0xE5, CHR 0x85, CHR 0x88, CHR 0xE7, CHR 0x99,
     CHR 0xBB, CHR 0xE5, CHR 0xBD, CHR 0x95, CHR 0xE6, CHR 0x88, CHR 0x96, CHR 0xE6,
     CHR 0xB3, CHR 0xA8, CHR 0xE5, CHR 0x86, CHR 0x8C] @ '','' @ [CHR 0xE6, CHR 0xA0,
     CHR 0xBC, CHR 0xE5, CHR 0xBC, CHR 0x8F] @ '':login|username|password '' @ [CHR 0xE6,
     CHR 0x88, CHR 0x96] @ '' register|username|password'' @ [CHR 0x0A]"

definition txt_online_line :: string where
  \<comment> \<open>online\<close>
  "txt_online_line =
     [CHR 0xE5, CHR 0x9C, CHR 0xA8, CHR 0xE7, CHR 0xBA, CHR 0xBF] @ ''...'' @ [CHR 0x0A]"

definition txt_rename_format :: string where
  \<comment> \<open>bad rename format\<close>
  "txt_rename_format =
     ''rename '' @ [CHR 0xE5, CHR 0x91, CHR 0xBD, CHR 0xE4, CHR 0xBB, CHR 0xA4, CHR 0xE6,
     CHR 0xA0, CHR 0xBC, CHR 0xE5, CHR 0xBC, CHR 0x8F, CHR 0xE9, CHR 0x94, CHR 0x99,
     CHR 0xE8, CHR 0xAF, CHR 0xAF] @ '','' @ [CHR 0xE7, CHR 0xA4, CHR 0xBA, CHR 0xE4,
     CHR 0xBE, CHR 0x8B] @ '':rename|newname'' @ [CHR 0x0A]"

definition txt_renamed :: string where
  \<comment> \<open>your name is now\<close>
  "txt_renamed =
     [CHR 0xE6, CHR 0x82, CHR 0xA8, CHR 0xE5, CHR 0xB7, CHR 0xB2, CHR 0xE6, CHR 0x88,
     CHR 0x90, CHR 0xE5, CHR 0x8A, CHR 0x9F, CHR 0xE6, CHR 0x9B, CHR 0xB4, CHR 0xE6,
     CHR 0x96, CHR 0xB0, CHR 0xE7, CHR 0x94, CHR 0xA8, CHR 0xE6, CHR 0x88, CHR 0xB7,
     CHR 0xE5, CHR 0x90, CHR 0x8D] @ '':''"

definition txt_rename_taken :: string where
  \<comment> \<open>name is in use\<close>
  "txt_rename_taken =
     [CHR 0xE5, CHR 0xBD, CHR 0x93, CHR 0xE5, CHR 0x89, CHR 0x8D, CHR 0xE7, CHR 0x94,
     CHR 0xA8, CHR 0xE6, CHR 0x88, CHR 0xB7, CHR 0xE5, CHR 0x90, CHR 0x8D, CHR 0xE5,
     CHR 0xB7, CHR 0xB2, CHR 0xE8, CHR 0xA2, CHR 0xAB, CHR 0xE4, CHR 0xBD, CHR 0xBF,
     CHR 0xE7, CHR 0x94, CHR 0xA8, CHR 0x0A]"

definition txt_to_format :: string where
  \<comment> \<open>bad private message format\<close>
  "txt_to_format =
     [CHR 0xE7, CHR 0xA7, CHR 0x81, CHR 0xE8, CHR 0x81, CHR 0x8A, CHR 0xE5, CHR 0x91,
     CHR 0xBD, CHR 0xE4, CHR 0xBB, CHR 0xA4, CHR 0xE6, CHR 0xA0, CHR 0xBC, CHR 0xE5,
     CHR 0xBC, CHR 0x8F, CHR 0xE9, CHR 0x94, CHR 0x99, CHR 0xE8, CHR 0xAF, CHR 0xAF] @ '',''
     @ [CHR 0xE7, CHR 0xA4, CHR 0xBA, CHR 0xE4, CHR 0xBE, CHR 0x8B] @ '':to|username|hello''
     @ [CHR 0x0A]"

definition txt_sent :: string where
  \<comment> \<open>[sent]\<close>
  "txt_sent =
     ''['' @ [CHR 0xE5, CHR 0xB7, CHR 0xB2, CHR 0xE5, CHR 0x8F, CHR 0x91, CHR 0xE9, CHR 0x80,
     CHR 0x81] @ ''] ''"

definition txt_group_format :: string where
  \<comment> \<open>bad group command format\<close>
  "txt_group_format =
     [CHR 0xE7, CHR 0xBE, CHR 0xA4, CHR 0xE8, CHR 0x81, CHR 0x8A, CHR 0xE5, CHR 0x91,
     CHR 0xBD, CHR 0xE4, CHR 0xBB, CHR 0xA4, CHR 0xE6, CHR 0xA0, CHR 0xBC, CHR 0xE5,
     CHR 0xBC, CHR 0x8F, CHR 0xE9, CHR 0x94, CHR 0x99, CHR 0xE8, CHR 0xAF, CHR 0xAF] @ '',''
     @ [CHR 0xE7, CHR 0xA4, CHR 0xBA, CHR 0xE4, CHR 0xBE, CHR 0x8B] @ '':group|create|''
     @ [CHR 0xE7, CHR 0xBE, CHR 0xA4, CHR 0xE5, CHR 0x90, CHR 0x8D] @ '' '' @ [CHR 0xE6,
     CHR 0x88, CHR 0x96] @ '' group|join|'' @ [CHR 0xE7, CHR 0xBE, CHR 0xA4, CHR 0xE5,
     CHR 0x90, CHR 0x8D] @ '' '' @ [CHR 0xE6, CHR 0x88, CHR 0x96] @ '' group|leave|''
     @ [CHR 0xE7, CHR 0xBE, CHR 0xA4, CHR 0xE5, CHR 0x90, CHR 0x8D] @ '' '' @ [CHR 0xE6,
     CHR 0x88, CHR 0x96] @ '' group|send|'' @ [CHR 0xE7, CHR 0xBE, CHR 0xA4, CHR 0xE5,
     CHR 0x90, CHR 0x8D] @ ''|'' @ [CHR 0xE6, CHR 0xB6, CHR 0x88, CHR 0xE6, CHR 0x81,
     CHR 0xAF, CHR 0x0A]"

definition txt_create_format :: string where
  \<comment> \<open>format of group create\<close>
  "txt_create_format =
     [CHR 0xE5, CHR 0x88, CHR 0x9B, CHR 0xE5, CHR 0xBB, CHR 0xBA, CHR 0xE7, CHR 0xBE,
     CHR 0xA4, CHR 0xE6, CHR 0xA0, CHR 0xBC, CHR 0xE5, CHR 0xBC, CHR 0x8F]
     @ '':group|create|'' @ [CHR 0xE7, CHR 0xBE, CHR 0xA4, CHR 0xE5, CHR 0x90, CHR 0x8D,
     CHR 0x0A]"

definition txt_group_word :: string where
  \<comment> \<open>group\<close>
  "txt_group_word =
     [CHR 0xE7, CHR 0xBE, CHR 0xA4, CHR 0xE7, CHR 0xBB, CHR 0x84] @ '' ''"

definition txt_created :: string where
  \<comment> \<open>created\<close>
  "txt_created =
     '' '' @ [CHR 0xE5, CHR 0x88, CHR 0x9B, CHR 0xE5, CHR 0xBB, CHR 0xBA, CHR 0xE6, CHR 0x88,
     CHR 0x90, CHR 0xE5, CHR 0x8A, CHR 0x9F, CHR 0x0A]"

definition txt_join_format :: string where
  \<comment> \<open>format of group join\<close>
  "txt_join_format =
     [CHR 0xE5, CHR 0x8A, CHR 0xA0, CHR 0xE5, CHR 0x85, CHR 0xA5, CHR 0xE7, CHR 0xBE,
     CHR 0xA4, CHR 0xE6, CHR 0xA0, CHR 0xBC, CHR 0xE5, CHR 0xBC, CHR 0x8F] @ '':group|join|''
     @ [CHR 0xE7, CHR 0xBE, CHR 0xA4, CHR 0xE5, CHR 0x90, CHR 0x8D, CHR 0x0A]"

definition txt_joined :: string where
  \<comment> \<open>joined group\<close>
  "txt_joined =
     [CHR 0xE5, CHR 0xB7, CHR 0xB2, CHR 0xE5, CHR 0x8A, CHR 0xA0, CHR 0xE5, CHR 0x85,
     CHR 0xA5, CHR 0xE7, CHR 0xBE, CHR 0xA4, CHR 0xE7, CHR 0xBB, CHR 0x84] @ '' ''"

definition txt_leave_format :: string where
  \<comment> \<open>format of group leave\<close>
  "txt_leave_format =
     [CHR 0xE7, CHR 0xA6, CHR 0xBB, CHR 0xE5, CHR 0xBC, CHR 0x80, CHR 0xE7, CHR 0xBE,
     CHR 0xA4, CHR 0xE6, CHR 0xA0, CHR 0xBC, CHR 0xE5, CHR 0xBC, CHR 0x8F]
     @ '':group|leave|'' @ [CHR 0xE7, CHR 0xBE, CHR 0xA4, CHR 0xE5, CHR 0x90, CHR 0x8D,
     CHR 0x0A]"

definition txt_left :: string where
  \<comment> \<open>left group\<close>
  "txt_left =
     [CHR 0xE5, CHR 0xB7, CHR 0xB2, CHR 0xE7, CHR 0xA6, CHR 0xBB, CHR 0xE5, CHR 0xBC,
     CHR 0x80, CHR 0xE7, CHR 0xBE, CHR 0xA4, CHR 0xE7, CHR 0xBB, CHR 0x84] @ '' ''"

definition txt_send_format :: string where
  \<comment> \<open>format of group send\<close>
  "txt_send_format =
     [CHR 0xE7, CHR 0xBE, CHR 0xA4, CHR 0xE8, CHR 0x81, CHR 0x8A, CHR 0xE5, CHR 0x8F,
     CHR 0x91, CHR 0xE9, CHR 0x80, CHR 0x81, CHR 0xE6, CHR 0xA0, CHR 0xBC, CHR 0xE5,
     CHR 0xBC, CHR 0x8F] @ '':group|send|'' @ [CHR 0xE7, CHR 0xBE, CHR 0xA4, CHR 0xE5,
     CHR 0x90, CHR 0x8D] @ ''|'' @ [CHR 0xE6, CHR 0xB6, CHR 0x88, CHR 0xE6, CHR 0x81,
     CHR 0xAF, CHR 0x0A]"

definition txt_group_unknown :: string where
  \<comment> \<open>unknown group command\<close>
  "txt_group_unknown =
     [CHR 0xE6, CHR 0x9C, CHR 0xAA, CHR 0xE7, CHR 0x9F, CHR 0xA5, CHR 0xE7, CHR 0xBE,
     CHR 0xA4, CHR 0xE8, CHR 0x81, CHR 0x8A, CHR 0xE5, CHR 0x91, CHR 0xBD, CHR 0xE4,
     CHR 0xBB, CHR 0xA4, CHR 0x0A]"

definition txt_alice_avatar :: string where
  \<comment> \<open>avatar of alice\<close>
  "txt_alice_avatar =
     [CHR 0xF0, CHR 0x9F, CHR 0x91, CHR 0xA8, CHR 0xE2, CHR 0x80, CHR 0x8D, CHR 0xF0,
     CHR 0x9F, CHR 0x92, CHR 0xBC]"

definition txt_alice_sig :: string where
  \<comment> \<open>signature of alice\<close>
  "txt_alice_sig =
     [CHR 0xE4, CHR 0xBF, CHR 0x9D, CHR 0xE6, CHR 0x8C, CHR 0x81, CHR 0xE5, CHR 0xBE,
     CHR 0xAE, CHR 0xE7, CHR 0xAC, CHR 0x91, CHR 0xEF, CHR 0xBC, CHR 0x8C, CHR 0xE4,
     CHR 0xB8, CHR 0x96, CHR 0xE7, CHR 0x95, CHR 0x8C, CHR 0xE6, CHR 0xB8, CHR 0xA9,
     CHR 0xE6, CHR 0x9F, CHR 0x94, CHR 0xE3, CHR 0x80, CHR 0x82]"

definition txt_bob_avatar :: string where
  \<comment> \<open>avatar of bob\<close>
  "txt_bob_avatar =
     [CHR 0xF0, CHR 0x9F, CHR 0x91, CHR 0xA9, CHR 0xE2, CHR 0x80, CHR 0x8D, CHR 0xF0,
     CHR 0x9F, CHR 0x92, CHR 0xBC]"

definition txt_bob_sig :: string where
  \<comment> \<open>signature of bob\<close>
  "txt_bob_sig =
     [CHR 0xE4, CHR 0xBB, CHR 0xA3, CHR 0xE7, CHR 0xA0, CHR 0x81, CHR 0xE5, CHR 0x8D,
     CHR 0xB3, CHR 0xE8, CHR 0xAF, CHR 0x97, CHR 0xE3, CHR 0x80, CHR 0x82]"

definition txt_charlie_avatar :: string where
  \<comment> \<open>avatar of charlie\<close>
  "txt_charlie_avatar =
     [CHR 0xF0, CHR 0x9F, CHR 0x91, CHR 0xA8, CHR 0xE2, CHR 0x80, CHR 0x8D, CHR 0xF0,
     CHR 0x9F, CHR 0x92, CHR 0xBB]"

definition txt_charlie_sig :: string where
  \<comment> \<open>signature of charlie\<close>
  "txt_charlie_sig =
     [CHR 0xE6, CHR 0xB0, CHR 0xB8, CHR 0xE8, CHR 0xBF, CHR 0x9C, CHR 0xE5, CHR 0x9C,
     CHR 0xA8, CHR 0xE7, CHR 0xBB, CHR 0x88, CHR 0xE7, CHR 0xAB, CHR 0xAF, CHR 0xE9,
     CHR 0x87, CHR 0x8C, CHR 0xE5, CHR 0x8E, CHR 0x86, CHR 0xE9, CHR 0x99, CHR 0xA9,
     CHR 0xE3, CHR 0x80, CHR 0x82]"

definition txt_ws_limited :: string where
  \<comment> \<open>too many messages\<close>
  "txt_ws_limited =
     [CHR 0xE6, CHR 0xB6, CHR 0x88, CHR 0xE6, CHR 0x81, CHR 0xAF, CHR 0xE5, CHR 0x8F,
     CHR 0x91, CHR 0xE9, CHR 0x80, CHR 0x81, CHR 0xE8, CHR 0xBF, CHR 0x87, CHR 0xE4,
     CHR 0xBA, CHR 0x8E, CHR 0xE9, CHR 0xA2, CHR 0x91, CHR 0xE7, CHR 0xB9, CHR 0x81,
     CHR 0xEF, CHR 0xBC, CHR 0x8C, CHR 0xE8, CHR 0xAF, CHR 0xB7, CHR 0xE7, CHR 0xA8,
     CHR 0x8D, CHR 0xE5, CHR 0x90, CHR 0x8E, CHR 0xE5, CHR 0x86, CHR 0x8D, CHR 0xE8,
     CHR 0xAF, CHR 0x95]"

definition txt_no_token :: string where
  \<comment> \<open>missing login token\<close>
  "txt_no_token =
     [CHR 0xE7, CHR 0xBC, CHR 0xBA, CHR 0xE5, CHR 0xB0, CHR 0x91, CHR 0xE7, CHR 0x99,
     CHR 0xBB, CHR 0xE5, CHR 0xBD, CHR 0x95] @ '' token''"

definition txt_auth_failed :: string where
  \<comment> \<open>authentication failed\<close>
  "txt_auth_failed =
     [CHR 0xE8, CHR 0xAE, CHR 0xA4, CHR 0xE8, CHR 0xAF, CHR 0x81, CHR 0xE5, CHR 0xA4,
     CHR 0xB1, CHR 0xE8, CHR 0xB4, CHR 0xA5]"

definition txt_only :: string where
  \<comment> \<open>only ... is supported\<close>
  "txt_only =
     [CHR 0xE5, CHR 0x8F, CHR 0xAA, CHR 0xE6, CHR 0x94, CHR 0xAF, CHR 0xE6, CHR 0x8C,
     CHR 0x81] @ '' ''"

definition txt_limited :: string where
  \<comment> \<open>too many requests\<close>
  "txt_limited =
     [CHR 0xE8, CHR 0xAF, CHR 0xB7, CHR 0xE6, CHR 0xB1, CHR 0x82, CHR 0xE8, CHR 0xBF,
     CHR 0x87, CHR 0xE4, CHR 0xBA, CHR 0x8E, CHR 0xE9, CHR 0xA2, CHR 0x91, CHR 0xE7,
     CHR 0xB9, CHR 0x81, CHR 0xEF, CHR 0xBC, CHR 0x8C, CHR 0xE8, CHR 0xAF, CHR 0xB7,
     CHR 0xE7, CHR 0xA8, CHR 0x8D, CHR 0xE5, CHR 0x90, CHR 0x8E, CHR 0xE5, CHR 0x86,
     CHR 0x8D, CHR 0xE8, CHR 0xAF, CHR 0x95]"

definition txt_bad_body :: string where
  \<comment> \<open>cannot parse the body\<close>
  "txt_bad_body =
     [CHR 0xE8, CHR 0xAF, CHR 0xB7, CHR 0xE6, CHR 0xB1, CHR 0x82, CHR 0xE4, CHR 0xBD,
     CHR 0x93, CHR 0xE8, CHR 0xA7, CHR 0xA3, CHR 0xE6, CHR 0x9E, CHR 0x90, CHR 0xE5,
     CHR 0xA4, CHR 0xB1, CHR 0xE8, CHR 0xB4, CHR 0xA5]"

definition txt_name_pw_empty :: string where
  \<comment> \<open>name and password must not be empty\<close>
  "txt_name_pw_empty =
     [CHR 0xE7, CHR 0x94, CHR 0xA8, CHR 0xE6, CHR 0x88, CHR 0xB7, CHR 0xE5, CHR 0x90,
     CHR 0x8D, CHR 0xE5, CHR 0x92, CHR 0x8C, CHR 0xE5, CHR 0xAF, CHR 0x86, CHR 0xE7,
     CHR 0xA0, CHR 0x81, CHR 0xE4, CHR 0xB8, CHR 0x8D, CHR 0xE8, CHR 0x83, CHR 0xBD,
     CHR 0xE4, CHR 0xB8, CHR 0xBA, CHR 0xE7, CHR 0xA9, CHR 0xBA]"

definition txt_bad_name_web :: string where
  \<comment> \<open>letters, digits, Chinese and underscore only, 2 to 20\<close>
  "txt_bad_name_web =
     [CHR 0xE7, CHR 0x94, CHR 0xA8, CHR 0xE6, CHR 0x88, CHR 0xB7, CHR 0xE5, CHR 0x90,
     CHR 0x8D, CHR 0xE5, CHR 0x8F, CHR 0xAA, CHR 0xE8, CHR 0x83, CHR 0xBD, CHR 0xE5,
     CHR 0x8C, CHR 0x85, CHR 0xE5, CHR 0x90, CHR 0xAB, CHR 0xE5, CHR 0xAD, CHR 0x97,
     CHR 0xE6, CHR 0xAF, CHR 0x8D, CHR 0xE3, CHR 0x80, CHR 0x81, CHR 0xE6, CHR 0x95,
     CHR 0xB0, CHR 0xE5, CHR 0xAD, CHR 0x97, CHR 0xE3, CHR 0x80, CHR 0x81, CHR 0xE4,
     CHR 0xB8, CHR 0xAD, CHR 0xE6, CHR 0x96, CHR 0x87, CHR 0xE5, CHR 0x92, CHR 0x8C,
     CHR 0xE4, CHR 0xB8, CHR 0x8B, CHR 0xE5, CHR 0x88, CHR 0x92, CHR 0xE7, CHR 0xBA,
     CHR 0xBF] @ ''(2-20'' @ [CHR 0xE4, CHR 0xBD, CHR 0x8D] @ '')''"

definition txt_session_failed :: string where
  \<comment> \<open>creating the session failed\<close>
  "txt_session_failed =
     [CHR 0xE7, CHR 0x94, CHR 0x9F, CHR 0xE6, CHR 0x88, CHR 0x90, CHR 0xE4, CHR 0xBC,
     CHR 0x9A, CHR 0xE8, CHR 0xAF, CHR 0x9D, CHR 0xE5, CHR 0xA4, CHR 0xB1, CHR 0xE8,
     CHR 0xB4, CHR 0xA5]"

definition txt_token_empty :: string where
  \<comment> \<open>token must not be empty\<close>
  "txt_token_empty =
     ''token '' @ [CHR 0xE4, CHR 0xB8, CHR 0x8D, CHR 0xE8, CHR 0x83, CHR 0xBD, CHR 0xE4,
     CHR 0xB8, CHR 0xBA, CHR 0xE7, CHR 0xA9, CHR 0xBA]"

definition txt_token_msg_empty :: string where
  \<comment> \<open>token and message must not be empty\<close>
  "txt_token_msg_empty =
     ''token '' @ [CHR 0xE5, CHR 0x92, CHR 0x8C] @ '' message '' @ [CHR 0xE4, CHR 0xB8,
     CHR 0x8D, CHR 0xE8, CHR 0x83, CHR 0xBD, CHR 0xE4, CHR 0xB8, CHR 0xBA, CHR 0xE7,
     CHR 0xA9, CHR 0xBA]"

definition txt_private_to :: string where
  \<comment> \<open>private needs to\<close>
  "txt_private_to =
     [CHR 0xE7, CHR 0xA7, CHR 0x81, CHR 0xE8, CHR 0x81, CHR 0x8A, CHR 0xE5, CHR 0xBF,
     CHR 0x85, CHR 0xE9, CHR 0xA1, CHR 0xBB, CHR 0xE6, CHR 0x8C, CHR 0x87, CHR 0xE5,
     CHR 0xAE, CHR 0x9A] @ '' to''"

definition txt_group_to :: string where
  \<comment> \<open>group needs to\<close>
  "txt_group_to =
     [CHR 0xE7, CHR 0xBE, CHR 0xA4, CHR 0xE8, CHR 0x81, CHR 0x8A, CHR 0xE5, CHR 0xBF,
     CHR 0x85, CHR 0xE9, CHR 0xA1, CHR 0xBB, CHR 0xE6, CHR 0x8C, CHR 0x87, CHR 0xE5,
     CHR 0xAE, CHR 0x9A] @ '' to ('' @ [CHR 0xE7, CHR 0xBE, CHR 0xA4, CHR 0xE5, CHR 0x90,
     CHR 0x8D] @ '')''"

definition txt_only_get_post :: string where
  \<comment> \<open>only GET or POST\<close>
  "txt_only_get_post =
     [CHR 0xE5, CHR 0x8F, CHR 0xAA, CHR 0xE6, CHR 0x94, CHR 0xAF, CHR 0xE6, CHR 0x8C,
     CHR 0x81] @ '' GET '' @ [CHR 0xE6, CHR 0x88, CHR 0x96] @ '' POST''"

definition txt_profile_failed :: string where
  \<comment> \<open>cannot read the user\<close>
  "txt_profile_failed =
     [CHR 0xE7, CHR 0x94, CHR 0xA8, CHR 0xE6, CHR 0x88, CHR 0xB7, CHR 0xE4, CHR 0xBF,
     CHR 0xA1, CHR 0xE6, CHR 0x81, CHR 0xAF, CHR 0xE8, CHR 0xAF, CHR 0xBB, CHR 0xE5,
     CHR 0x8F, CHR 0x96, CHR 0xE5, CHR 0xA4, CHR 0xB1, CHR 0xE8, CHR 0xB4, CHR 0xA5]"

definition txt_token_avatar_empty :: string where
  \<comment> \<open>token and avatar must not be empty\<close>
  "txt_token_avatar_empty =
     ''token '' @ [CHR 0xE5, CHR 0x92, CHR 0x8C] @ '' avatar '' @ [CHR 0xE4, CHR 0xB8,
     CHR 0x8D, CHR 0xE8, CHR 0x83, CHR 0xBD, CHR 0xE4, CHR 0xB8, CHR 0xBA, CHR 0xE7,
     CHR 0xA9, CHR 0xBA]"

definition txt_no_query :: string where
  \<comment> \<open>missing search word\<close>
  "txt_no_query =
     [CHR 0xE7, CHR 0xBC, CHR 0xBA, CHR 0xE5, CHR 0xB0, CHR 0x91, CHR 0xE6, CHR 0x90,
     CHR 0x9C, CHR 0xE7, CHR 0xB4, CHR 0xA2, CHR 0xE5, CHR 0x85, CHR 0xB3, CHR 0xE9,
     CHR 0x94, CHR 0xAE, CHR 0xE8, CHR 0xAF, CHR 0x8D]"

definition txt_no_group :: string where
  \<comment> \<open>missing group\<close>
  "txt_no_group =
     [CHR 0xE7, CHR 0xBC, CHR 0xBA, CHR 0xE5, CHR 0xB0, CHR 0x91] @ '' group '' @ [CHR 0xE5,
     CHR 0x8F, CHR 0x82, CHR 0xE6, CHR 0x95, CHR 0xB0]"

definition txt_no_peer :: string where
  \<comment> \<open>missing peer\<close>
  "txt_no_peer =
     [CHR 0xE7, CHR 0xBC, CHR 0xBA, CHR 0xE5, CHR 0xB0, CHR 0x91] @ '' peer '' @ [CHR 0xE5,
     CHR 0x8F, CHR 0x82, CHR 0xE6, CHR 0x95, CHR 0xB0]"

definition txt_token_new_empty :: string where
  \<comment> \<open>token and new must not be empty\<close>
  "txt_token_new_empty =
     ''token/new '' @ [CHR 0xE4, CHR 0xB8, CHR 0x8D, CHR 0xE8, CHR 0x83, CHR 0xBD, CHR 0xE4,
     CHR 0xB8, CHR 0xBA, CHR 0xE7, CHR 0xA9, CHR 0xBA]"

definition txt_pw_short :: string where
  \<comment> \<open>password needs 6 characters\<close>
  "txt_pw_short =
     [CHR 0xE5, CHR 0xAF, CHR 0x86, CHR 0xE7, CHR 0xA0, CHR 0x81, CHR 0xE8, CHR 0x87,
     CHR 0xB3, CHR 0xE5, CHR 0xB0, CHR 0x91] @ ''6'' @ [CHR 0xE4, CHR 0xBD, CHR 0x8D]"

definition txt_group_args_empty :: string where
  \<comment> \<open>token, action and groupName must not be empty\<close>
  "txt_group_args_empty =
     ''token'' @ [CHR 0xE3, CHR 0x80, CHR 0x81] @ ''action '' @ [CHR 0xE5, CHR 0x92,
     CHR 0x8C] @ '' groupName '' @ [CHR 0xE4, CHR 0xB8, CHR 0x8D, CHR 0xE8, CHR 0x83,
     CHR 0xBD, CHR 0xE4, CHR 0xB8, CHR 0xBA, CHR 0xE7, CHR 0xA9, CHR 0xBA]"

definition txt_member_empty :: string where
  \<comment> \<open>memberName must not be empty\<close>
  "txt_member_empty =
     ''memberName '' @ [CHR 0xE4, CHR 0xB8, CHR 0x8D, CHR 0xE8, CHR 0x83, CHR 0xBD, CHR 0xE4,
     CHR 0xB8, CHR 0xBA, CHR 0xE7, CHR 0xA9, CHR 0xBA]"

definition txt_target_missing :: string where
  \<comment> \<open>target does not exist\<close>
  "txt_target_missing =
     [CHR 0xE7, CHR 0x9B, CHR 0xAE, CHR 0xE6, CHR 0xA0, CHR 0x87, CHR 0xE7, CHR 0x94,
     CHR 0xA8, CHR 0xE6, CHR 0x88, CHR 0xB7, CHR 0xE4, CHR 0xB8, CHR 0x8D, CHR 0xE5,
     CHR 0xAD, CHR 0x98, CHR 0xE5, CHR 0x9C, CHR 0xA8]"

definition txt_owner_only :: string where
  \<comment> \<open>only the owner can kick\<close>
  "txt_owner_only =
     [CHR 0xE5, CHR 0x8F, CHR 0xAA, CHR 0xE6, CHR 0x9C, CHR 0x89, CHR 0xE7, CHR 0xBE,
     CHR 0xA4, CHR 0xE4, CHR 0xB8, CHR 0xBB, CHR 0xE5, CHR 0x8F, CHR 0xAF, CHR 0xE4,
     CHR 0xBB, CHR 0xA5, CHR 0xE8, CHR 0xB8, CHR 0xA2, CHR 0xE4, CHR 0xBA, CHR 0xBA]"

definition txt_unknown_action :: string where
  \<comment> \<open>unknown action\<close>
  "txt_unknown_action =
     [CHR 0xE6, CHR 0x9C, CHR 0xAA, CHR 0xE7, CHR 0x9F, CHR 0xA5] @ '' action''"

definition txt_bad_request :: string where
  \<comment> \<open>invalid request\<close>
  "txt_bad_request =
     [CHR 0xE6, CHR 0x97, CHR 0xA0, CHR 0xE6, CHR 0x95, CHR 0x88, CHR 0xE7, CHR 0x9A,
     CHR 0x84, CHR 0xE8, CHR 0xAF, CHR 0xB7, CHR 0xE6, CHR 0xB1, CHR 0x82, CHR 0xE6,
     CHR 0xA0, CHR 0xBC, CHR 0xE5, CHR 0xBC, CHR 0x8F]"

definition txt_user_gone :: string where
  \<comment> \<open>user does not exist\<close>
  "txt_user_gone =
     [CHR 0xE7, CHR 0x94, CHR 0xA8, CHR 0xE6, CHR 0x88, CHR 0xB7, CHR 0xE4, CHR 0xB8,
     CHR 0x8D, CHR 0xE5, CHR 0xAD, CHR 0x98, CHR 0xE5, CHR 0x9C, CHR 0xA8]"

definition txt_friend_empty :: string where
  \<comment> \<open>friend must not be empty\<close>
  "txt_friend_empty =
     ''friend '' @ [CHR 0xE4, CHR 0xB8, CHR 0x8D, CHR 0xE8, CHR 0x83, CHR 0xBD, CHR 0xE4,
     CHR 0xB8, CHR 0xBA, CHR 0xE7, CHR 0xA9, CHR 0xBA]"

definition txt_friend_missing :: string where
  \<comment> \<open>friend does not exist\<close>
  "txt_friend_missing =
     [CHR 0xE5, CHR 0xA5, CHR 0xBD, CHR 0xE5, CHR 0x8F, CHR 0x8B, CHR 0xE7, CHR 0x94,
     CHR 0xA8, CHR 0xE6, CHR 0x88, CHR 0xB7, CHR 0xE4, CHR 0xB8, CHR 0x8D, CHR 0xE5,
     CHR 0xAD, CHR 0x98, CHR 0xE5, CHR 0x9C, CHR 0xA8]"

definition txt_args_missing :: string where
  \<comment> \<open>missing argument\<close>
  "txt_args_missing =
     [CHR 0xE7, CHR 0xBC, CHR 0xBA, CHR 0xE5, CHR 0xB0, CHR 0x91, CHR 0xE5, CHR 0xBF,
     CHR 0x85, CHR 0xE8, CHR 0xA6, CHR 0x81, CHR 0xE5, CHR 0x8F, CHR 0x82, CHR 0xE6,
     CHR 0x95, CHR 0xB0]"

definition txt_pack_name :: string where
  \<comment> \<open>starlight daily\<close>
  "txt_pack_name =
     [CHR 0xE6, CHR 0x98, CHR 0x9F, CHR 0xE5, CHR 0x85, CHR 0x89, CHR 0xE6, CHR 0x97,
     CHR 0xA5, CHR 0xE5, CHR 0xB8, CHR 0xB8]"

definition txt_pack_desc :: string where
  \<comment> \<open>Lchat stickers for greetings, confirmations and small talk\<close>
  "txt_pack_desc =
     [CHR 0xE9, CHR 0x80, CHR 0x82, CHR 0xE5, CHR 0x90, CHR 0x88, CHR 0xE9, CHR 0x97,
     CHR 0xAE, CHR 0xE5, CHR 0x80, CHR 0x99, CHR 0xE3, CHR 0x80, CHR 0x81, CHR 0xE7,
     CHR 0xA1, CHR 0xAE, CHR 0xE8, CHR 0xAE, CHR 0xA4, CHR 0xE3, CHR 0x80, CHR 0x81,
     CHR 0xE8, CHR 0xBD, CHR 0xBB, CHR 0xE6, CHR 0x9D, CHR 0xBE, CHR 0xE8, CHR 0x81,
     CHR 0x8A, CHR 0xE5, CHR 0xA4, CHR 0xA9, CHR 0xE7, CHR 0x9A, CHR 0x84] @ '' Lchat ''
     @ [CHR 0xE5, CHR 0x8E, CHR 0x9F, CHR 0xE7, CHR 0x94, CHR 0x9F, CHR 0xE8, CHR 0xB4,
     CHR 0xB4, CHR 0xE5, CHR 0x9B, CHR 0xBE, CHR 0xE3, CHR 0x80, CHR 0x82]"

definition txt_moon_note :: string where
  \<comment> \<open>moonlight note\<close>
  "txt_moon_note =
     [CHR 0xE6, CHR 0x9C, CHR 0x88, CHR 0xE8, CHR 0x89, CHR 0xB2, CHR 0xE4, CHR 0xBE,
     CHR 0xBF, CHR 0xE7, CHR 0xAD, CHR 0xBE]"

definition txt_ribbon_heart :: string where
  \<comment> \<open>ribbon heart\<close>
  "txt_ribbon_heart =
     [CHR 0xE4, CHR 0xB8, CHR 0x9D, CHR 0xE5, CHR 0xB8, CHR 0xA6, CHR 0xE5, CHR 0xBF,
     CHR 0x83, CHR 0xE6, CHR 0x84, CHR 0x8F]"

definition txt_tea_break :: string where
  \<comment> \<open>tea break\<close>
  "txt_tea_break =
     [CHR 0xE8, CHR 0x8C, CHR 0xB6, CHR 0xE6, CHR 0xAD, CHR 0x87, CHR 0xE4, CHR 0xB8,
     CHR 0x80, CHR 0xE4, CHR 0xB8, CHR 0x8B]"

definition txt_stellar_letter :: string where
  \<comment> \<open>letter from the stars\<close>
  "txt_stellar_letter =
     [CHR 0xE6, CHR 0x98, CHR 0x9F, CHR 0xE5, CHR 0x85, CHR 0x89, CHR 0xE6, CHR 0x9D,
     CHR 0xA5, CHR 0xE4, CHR 0xBF, CHR 0xA1]"

definition txt_spark_call :: string where
  \<comment> \<open>sparkling reply\<close>
  "txt_spark_call =
     [CHR 0xE9, CHR 0x97, CHR 0xAA, CHR 0xE5, CHR 0x85, CHR 0x89, CHR 0xE5, CHR 0x9B,
     CHR 0x9E, CHR 0xE8, CHR 0xAF, CHR 0x9D]"

definition txt_lucky_ticket :: string where
  \<comment> \<open>lucky ticket\<close>
  "txt_lucky_ticket =
     [CHR 0xE5, CHR 0xB9, CHR 0xB8, CHR 0xE8, CHR 0xBF, CHR 0x90, CHR 0xE7, CHR 0xA5,
     CHR 0xA8, CHR 0xE6, CHR 0xA0, CHR 0xB9]"

definition txt_rain_window :: string where
  \<comment> \<open>slow chat at the window\<close>
  "txt_rain_window =
     [CHR 0xE9, CHR 0x9B, CHR 0xA8, CHR 0xE7, CHR 0xAA, CHR 0x97, CHR 0xE6, CHR 0x85,
     CHR 0xA2, CHR 0xE8, CHR 0x81, CHR 0x8A]"

definition txt_neon_badge :: string where
  \<comment> \<open>highlight badge\<close>
  "txt_neon_badge =
     [CHR 0xE9, CHR 0xAB, CHR 0x98, CHR 0xE5, CHR 0x85, CHR 0x89, CHR 0xE5, CHR 0xBE,
     CHR 0xBD, CHR 0xE7, CHR 0xAB, CHR 0xA0]"

definition txt_soft_check :: string where
  \<comment> \<open>soft confirmation\<close>
  "txt_soft_check =
     [CHR 0xE8, CHR 0xBD, CHR 0xBB, CHR 0xE8, CHR 0xBD, CHR 0xBB, CHR 0xE7, CHR 0xA1,
     CHR 0xAE, CHR 0xE8, CHR 0xAE, CHR 0xA4]"

definition txt_tagline :: string where
  \<comment> \<open>connecting every shining moment\<close>
  "txt_tagline =
     [CHR 0xE8, CHR 0xBF, CHR 0x9E, CHR 0xE6, CHR 0x8E, CHR 0xA5, CHR 0xE6, CHR 0xAF,
     CHR 0x8F, CHR 0xE4, CHR 0xB8, CHR 0x80, CHR 0xE4, CHR 0xB8, CHR 0xAA, CHR 0xE9,
     CHR 0x97, CHR 0xAA, CHR 0xE9, CHR 0x97, CHR 0xAA, CHR 0xE5, CHR 0x8F, CHR 0x91,
     CHR 0xE5, CHR 0x85, CHR 0x89, CHR 0xE7, CHR 0x9A, CHR 0x84, CHR 0xE7, CHR 0x9E,
     CHR 0xAC, CHR 0xE9, CHR 0x97, CHR 0xB4]"

definition txt_style :: string where
  \<comment> \<open>anime style chat, game UI, modern desktop IM\<close>
  "txt_style =
     [CHR 0xE4, CHR 0xBA, CHR 0x8C, CHR 0xE6, CHR 0xAC, CHR 0xA1, CHR 0xE5, CHR 0x85,
     CHR 0x83, CHR 0xE6, CHR 0x97, CHR 0xA5, CHR 0xE7, CHR 0xB3, CHR 0xBB, CHR 0xE8,
     CHR 0x81, CHR 0x8A, CHR 0xE5, CHR 0xA4, CHR 0xA9, CHR 0xE8, CHR 0xBD, CHR 0xAF,
     CHR 0xE4, CHR 0xBB, CHR 0xB6] @ '' / '' @ [CHR 0xE6, CHR 0x97, CHR 0xA5, CHR 0xE7,
     CHR 0xB3, CHR 0xBB, CHR 0xE6, CHR 0xB8, CHR 0xB8, CHR 0xE6, CHR 0x88, CHR 0x8F]
     @ '' UI / '' @ [CHR 0xE7, CHR 0x8E, CHR 0xB0, CHR 0xE4, CHR 0xBB, CHR 0xA3, CHR 0xE6,
     CHR 0xA1, CHR 0x8C, CHR 0xE9, CHR 0x9D, CHR 0xA2] @ '' IM''"

definition txt_cl_login_ok :: string where
  \<comment> \<open>logged in, as the client looks for it\<close>
  "txt_cl_login_ok =
     [CHR 0xE7, CHR 0x99, CHR 0xBB, CHR 0xE5, CHR 0xBD, CHR 0x95, CHR 0xE6, CHR 0x88,
     CHR 0x90, CHR 0xE5, CHR 0x8A, CHR 0x9F]"

definition txt_cl_register_ok :: string where
  \<comment> \<open>registered, as the client looks for it\<close>
  "txt_cl_register_ok =
     [CHR 0xE6, CHR 0xB3, CHR 0xA8, CHR 0xE5, CHR 0x86, CHR 0x8C, CHR 0xE6, CHR 0x88,
     CHR 0x90, CHR 0xE5, CHR 0x8A, CHR 0x9F]"

lemmas text_defs =
  sysOnline_def sysOffline_def txt_kicked_def txt_group_open_def txt_private_def
  txt_sender_missing_def txt_members_failed_def txt_group_empty_def
  txt_group_id_failed_def txt_receiver_missing_def txt_name_taken_def
  txt_old_name_missing_def txt_user_missing_def txt_login_limited_def txt_login_format_def
  txt_bad_name_def txt_login_taken_def txt_login_ok_def txt_login_wrong_def
  txt_register_limited_def txt_register_format_def txt_default_avatar_def
  txt_register_failed_def txt_register_ok_def txt_please_login_def txt_online_line_def
  txt_rename_format_def txt_renamed_def txt_rename_taken_def txt_to_format_def
  txt_sent_def txt_group_format_def txt_create_format_def txt_group_word_def
  txt_created_def txt_join_format_def txt_joined_def txt_leave_format_def txt_left_def
  txt_send_format_def txt_group_unknown_def txt_alice_avatar_def txt_alice_sig_def
  txt_bob_avatar_def txt_bob_sig_def txt_charlie_avatar_def txt_charlie_sig_def
  txt_ws_limited_def txt_no_token_def txt_auth_failed_def txt_only_def txt_limited_def
  txt_bad_body_def txt_name_pw_empty_def txt_bad_name_web_def txt_session_failed_def
  txt_token_empty_def txt_token_msg_empty_def txt_private_to_def txt_group_to_def
  txt_only_get_post_def txt_profile_failed_def txt_token_avatar_empty_def txt_no_query_def
  txt_no_group_def txt_no_peer_def txt_token_new_empty_def txt_pw_short_def
  txt_group_args_empty_def txt_member_empty_def txt_target_missing_def txt_owner_only_def
  txt_unknown_action_def txt_bad_request_def txt_user_gone_def txt_friend_empty_def
  txt_friend_missing_def txt_args_missing_def txt_pack_name_def txt_pack_desc_def
  txt_moon_note_def txt_ribbon_heart_def txt_tea_break_def txt_stellar_letter_def
  txt_spark_call_def txt_lucky_ticket_def txt_rain_window_def txt_neon_badge_def
  txt_soft_check_def txt_tagline_def txt_style_def txt_cl_login_ok_def
  txt_cl_register_ok_def

end
