(* ===== verification/Db_Schema.thy ===== *)
theory Db_Schema
  imports Lchat_Model Lchat_Texts
begin

text \<open>
  The tables of \<^verbatim>\<open>internal/db/db.go\<close> and the SQL statements that write them.  A table is the
  list of its rows; the statements are written out from the SQL text in the source and from
  the constraints of \<^verbatim>\<open>createTables\<close> (UNIQUE, CHECK, FOREIGN KEY, AUTOINCREMENT).

  SQLite, its Go driver and bcrypt are not part of the program.  What they decide is an
  argument of the model, the record \<open>driver\<close>: whether a statement fails and with which text,
  whether scanning a row fails, whether foreign keys are checked on the connection a
  statement runs on (the PRAGMA reaches one connection of the pool), in which order rows
  are delivered, how much larger than the last one a new AUTOINCREMENT id is, which
  contents match a LIKE pattern, the clocks, and the two bcrypt functions.  Statements are
  named by the datatype \<open>sql_stmt\<close>, with their arguments.
\<close>

section \<open>Outside the program\<close>

datatype sql_stmt =
    SelAuth string
  | InsUser string
  | SelUser string
  | SelUserId int
  | UpdAvatar string
  | UpdProfile string
  | InsGroup string
  | LastGroupId string
  | InsMember int int
  | SelGroupId string
  | DelMember int int
  | AffMember int int
  | SelMembers string
  | SelGroup string
  | SelUserGroups string
  | SelPublic
  | SelGroupMessages string
  | SelPrivate string string
  | InsMessage int "int option" "int option" string
  | LastMessageId
  | SelSearch string
  | BeginTx
  | InsFriend int int
  | CommitTx
  | DelFriend int int
  | AffFriend int int
  | SelFriends int
  | SelIsFriend int int
  | OpenDb
  | PingDb
  | CreateTable string

datatype sql_err = SqlDriver string | SqlUnique string | SqlCheck string | SqlForeignKey

record driver =
  stmt_fault :: "sql_stmt \<Rightarrow> string option"
  scan_fault :: "sql_stmt \<Rightarrow> string option"
  fk_on :: "sql_stmt \<Rightarrow> bool"
  sql_text :: "sql_err \<Rightarrow> string"
  id_gap :: "sql_stmt \<Rightarrow> nat"
  rows_user :: "sql_stmt \<Rightarrow> UserPublic list \<Rightarrow> UserPublic list"
  rows_name :: "sql_stmt \<Rightarrow> string list \<Rightarrow> string list"
  rows_msg :: "sql_stmt \<Rightarrow> DBMessageExt list \<Rightarrow> DBMessageExt list"
  sql_like :: "string \<Rightarrow> string \<Rightarrow> bool"
  db_time :: int
  wall_time :: int
  bc_gen :: "string \<Rightarrow> string res"
  bc_cmp :: "string \<Rightarrow> string \<Rightarrow> string option"

text \<open>
  The documented behaviour the properties name when they need it: row delivery is a
  permutation of the selected rows; foreign keys are checked; a hash made from a password accepts that password and no other
  (among passwords that bcrypt tells apart: at most 72 bytes, none of them zero).
\<close>

definition delivers_all :: "driver \<Rightarrow> bool" where
  "delivers_all drv =
     ((\<forall>st. any_order (rows_user drv st)) \<and> (\<forall>st. any_order (rows_name drv st))
      \<and> (\<forall>st. any_order (rows_msg drv st)))"

definition fk_enforced :: "driver \<Rightarrow> bool" where
  "fk_enforced drv = (\<forall>st. fk_on drv st)"

definition bcrypt_sound :: "driver \<Rightarrow> bool" where
  "bcrypt_sound drv =
     (\<forall>pw h. bc_gen drv pw = Inr h \<longrightarrow>
        bc_cmp drv h pw = None
        \<and> (\<forall>pw'. pw' \<noteq> pw \<and> length pw' \<le> 72 \<and> CHR 0x00 \<notin> set (pw @ pw') \<longrightarrow> bc_cmp drv h pw' \<noteq> None))"

text \<open>A driver with no faults, for concrete runs; \<open>t\<close> is the time of both clocks.\<close>

definition plain_driver :: "int \<Rightarrow> driver" where
  "plain_driver t =
     \<lparr>stmt_fault = (\<lambda>_. None), scan_fault = (\<lambda>_. None), fk_on = (\<lambda>_. True),
      sql_text = (\<lambda>_. ''constraint failed''), id_gap = (\<lambda>_. 0),
      rows_user = (\<lambda>_ xs. xs), rows_name = (\<lambda>_ xs. xs),
      rows_msg = (\<lambda>_ xs. xs),
      sql_like = (\<lambda>pat c. Contains c (butlast (drop 1 pat))),
      db_time = t, wall_time = t, bc_gen = (\<lambda>pw. Inr (''h:'' @ pw)),
      bc_cmp = (\<lambda>h pw. if h = ''h:'' @ pw then None else Some ''mismatch'')\<rparr>"

section \<open>The tables\<close>

record member_row =
  gm_id :: int
  gm_group_id :: int
  gm_user_id :: int

record friend_row =
  fr_id :: int
  fr_user_id :: int
  fr_friend_id :: int
  fr_status :: string

record Database =
  db_users :: "DBUser list"
  db_groups :: "DBGroup list"
  db_members :: "member_row list"
  db_messages :: "DBMessage list"
  db_friends :: "friend_row list"
  seq_users :: int
  seq_groups :: int
  seq_members :: int
  seq_messages :: int
  seq_friends :: int

definition empty_db :: Database where
  "empty_db = \<lparr>db_users = [], db_groups = [], db_members = [], db_messages = [], db_friends = [],
     seq_users = 0, seq_groups = 0, seq_members = 0, seq_messages = 0, seq_friends = 0\<rparr>"

definition user_ids :: "Database \<Rightarrow> int list" where
  "user_ids d = map du_ID (db_users d)"

definition group_ids :: "Database \<Rightarrow> int list" where
  "group_ids d = map dg_ID (db_groups d)"

section \<open>The writing statements\<close>

text \<open>\<^verbatim>\<open>INSERT INTO users\<close>, with and without \<^verbatim>\<open>OR IGNORE\<close>.\<close>

definition insert_user ::
  "driver \<Rightarrow> bool \<Rightarrow> string \<Rightarrow> string \<Rightarrow> string \<Rightarrow> string \<Rightarrow> string \<Rightarrow> Database \<Rightarrow> sql_err + Database" where
  "insert_user drv ignore username password avatar gender signature d =
     (case stmt_fault drv (InsUser username) of
        Some e \<Rightarrow> Inl (SqlDriver e)
      | None \<Rightarrow>
          if username \<in> set (map du_Username (db_users d))
          then (if ignore then Inr d else Inl (SqlUnique ''users.username''))
          else
            let i = seq_users d + 1 + int (id_gap drv (InsUser username)) in
            Inr (d\<lparr>db_users := db_users d @
                     [\<lparr>du_ID = i, du_Username = username, du_Password = password, du_Avatar = avatar,
                       du_Gender = gender, du_Signature = signature, du_CreatedAt = db_time drv\<rparr>],
                   seq_users := i\<rparr>))"

definition insert_group ::
  "driver \<Rightarrow> string \<Rightarrow> int \<Rightarrow> string \<Rightarrow> Database \<Rightarrow> sql_err + (int \<times> Database)" where
  "insert_group drv name creator description d =
     (case stmt_fault drv (InsGroup name) of
        Some e \<Rightarrow> Inl (SqlDriver e)
      | None \<Rightarrow>
          if name \<in> set (map dg_Name (db_groups d)) then Inl (SqlUnique ''groups.name'')
          else if fk_on drv (InsGroup name) \<and> creator \<notin> set (user_ids d) then Inl SqlForeignKey
          else
            let i = seq_groups d + 1 + int (id_gap drv (InsGroup name)) in
            Inr (i, d\<lparr>db_groups := db_groups d @
                        [\<lparr>dg_ID = i, dg_Name = name, dg_CreatorID = creator,
                          dg_Description = description, dg_CreatedAt = db_time drv\<rparr>],
                      seq_groups := i\<rparr>))"

definition insert_member :: "driver \<Rightarrow> bool \<Rightarrow> int \<Rightarrow> int \<Rightarrow> Database \<Rightarrow> sql_err + Database" where
  "insert_member drv ignore gid uid d =
     (case stmt_fault drv (InsMember gid uid) of
        Some e \<Rightarrow> Inl (SqlDriver e)
      | None \<Rightarrow>
          if (gid, uid) \<in> set (map (\<lambda>m. (gm_group_id m, gm_user_id m)) (db_members d))
          then (if ignore then Inr d else Inl (SqlUnique ''group_members.group_id, group_members.user_id''))
          else if fk_on drv (InsMember gid uid) \<and> (gid \<notin> set (group_ids d) \<or> uid \<notin> set (user_ids d))
          then Inl SqlForeignKey
          else
            let i = seq_members d + 1 + int (id_gap drv (InsMember gid uid)) in
            Inr (d\<lparr>db_members := db_members d @ [\<lparr>gm_id = i, gm_group_id = gid, gm_user_id = uid\<rparr>],
                   seq_members := i\<rparr>))"

definition insert_message ::
  "driver \<Rightarrow> int \<Rightarrow> int option \<Rightarrow> int option \<Rightarrow> string \<Rightarrow> string \<Rightarrow> Database \<Rightarrow> sql_err + (int \<times> Database)" where
  "insert_message drv from_id to_id group_id content type d =
     (let st = InsMessage from_id to_id group_id type in
      case stmt_fault drv st of
        Some e \<Rightarrow> Inl (SqlDriver e)
      | None \<Rightarrow>
          if type \<notin> {''public'', ''private'', ''group''} then Inl (SqlCheck ''type'')
          else if fk_on drv st \<and>
            (from_id \<notin> set (user_ids d)
             \<or> (case to_id of None \<Rightarrow> False | Some i \<Rightarrow> i \<notin> set (user_ids d))
             \<or> (case group_id of None \<Rightarrow> False | Some i \<Rightarrow> i \<notin> set (group_ids d)))
          then Inl SqlForeignKey
          else
            let i = seq_messages d + 1 + int (id_gap drv st) in
            Inr (i, d\<lparr>db_messages := db_messages d @
                        [\<lparr>dm_ID = i, dm_FromID = from_id, dm_ToID = to_id, dm_GroupID = group_id,
                          dm_Content = content, dm_Type = type, dm_CreatedAt = db_time drv\<rparr>],
                      seq_messages := i\<rparr>))"

text \<open>\<^verbatim>\<open>INSERT OR IGNORE INTO friends ... 'accepted'\<close>.\<close>

definition insert_friend :: "driver \<Rightarrow> int \<Rightarrow> int \<Rightarrow> Database \<Rightarrow> sql_err + Database" where
  "insert_friend drv uid fid d =
     (case stmt_fault drv (InsFriend uid fid) of
        Some e \<Rightarrow> Inl (SqlDriver e)
      | None \<Rightarrow>
          if (uid, fid) \<in> set (map (\<lambda>f. (fr_user_id f, fr_friend_id f)) (db_friends d)) then Inr d
          else if fk_on drv (InsFriend uid fid) \<and> (uid \<notin> set (user_ids d) \<or> fid \<notin> set (user_ids d))
          then Inl SqlForeignKey
          else
            let i = seq_friends d + 1 + int (id_gap drv (InsFriend uid fid)) in
            Inr (d\<lparr>db_friends := db_friends d @
                     [\<lparr>fr_id = i, fr_user_id = uid, fr_friend_id = fid, fr_status = ''accepted''\<rparr>],
                   seq_friends := i\<rparr>))"

text \<open>\<^verbatim>\<open>rows.Next\<close> and \<^verbatim>\<open>rows.Scan\<close>: the loop fails on the first row if scanning fails.\<close>

definition scan_rows :: "driver \<Rightarrow> sql_stmt \<Rightarrow> string \<Rightarrow> 'a list \<Rightarrow> 'a list res" where
  "scan_rows drv st text rows =
     (case rows of
        [] \<Rightarrow> Inr []
      | _ # _ \<Rightarrow> (case scan_fault drv st of Some e \<Rightarrow> Inl (text @ e) | None \<Rightarrow> Inr rows))"

text \<open>\<^verbatim>\<open>LIMIT n\<close>: a negative bound is no bound.\<close>

definition sql_limit :: "int \<Rightarrow> 'a list \<Rightarrow> 'a list" where
  "sql_limit n xs = (if n < 0 then xs else take (nat n) xs)"

definition to_public :: "DBUser \<Rightarrow> UserPublic" where
  "to_public u = \<lparr>up_ID = du_ID u, up_Username = du_Username u, up_Avatar = du_Avatar u,
     up_Gender = du_Gender u, up_Signature = du_Signature u, up_CreatedAt = du_CreatedAt u\<rparr>"

section \<open>Consistency of the tables\<close>

text \<open>Keys: what UNIQUE and AUTOINCREMENT maintain.\<close>

definition keys_ok :: "Database \<Rightarrow> bool" where
  "keys_ok d =
     (distinct (map du_Username (db_users d)) \<and> distinct (user_ids d)
      \<and> (\<forall>i \<in> set (user_ids d). i \<le> seq_users d)
      \<and> distinct (map dg_Name (db_groups d)) \<and> distinct (group_ids d)
      \<and> (\<forall>i \<in> set (group_ids d). i \<le> seq_groups d)
      \<and> distinct (map (\<lambda>m. (gm_group_id m, gm_user_id m)) (db_members d))
      \<and> sorted_wrt (<) (map dm_ID (db_messages d))
      \<and> (\<forall>m \<in> set (db_messages d). dm_ID m \<le> seq_messages d)
      \<and> distinct (map (\<lambda>f. (fr_user_id f, fr_friend_id f)) (db_friends d)))"

text \<open>References and domains: what FOREIGN KEY and CHECK maintain.\<close>

definition refs_ok :: "Database \<Rightarrow> bool" where
  "refs_ok d =
     ((\<forall>g \<in> set (db_groups d). dg_CreatorID g \<in> set (user_ids d))
      \<and> (\<forall>m \<in> set (db_members d). gm_group_id m \<in> set (group_ids d) \<and> gm_user_id m \<in> set (user_ids d))
      \<and> (\<forall>m \<in> set (db_messages d). dm_FromID m \<in> set (user_ids d)
            \<and> (\<forall>i. dm_ToID m = Some i \<longrightarrow> i \<in> set (user_ids d))
            \<and> (\<forall>i. dm_GroupID m = Some i \<longrightarrow> i \<in> set (group_ids d))
            \<and> dm_Type m \<in> {''public'', ''private'', ''group''})
      \<and> (\<forall>f \<in> set (db_friends d). fr_user_id f \<in> set (user_ids d) \<and> fr_friend_id f \<in> set (user_ids d)))"

text \<open>The friendship relation of the tables, and that it is what the program promises.\<close>

definition friend_pairs :: "Database \<Rightarrow> (int \<times> int) set" where
  "friend_pairs d = {(fr_user_id f, fr_friend_id f) | f. f \<in> set (db_friends d)}"

definition friends_ok :: "Database \<Rightarrow> bool" where
  "friends_ok d =
     (sym (friend_pairs d) \<and> irrefl (friend_pairs d)
      \<and> (\<forall>f \<in> set (db_friends d). fr_status f = ''accepted''))"

lemmas db_ids_defs = user_ids_def group_ids_def
lemmas insert_defs = insert_user_def insert_group_def insert_member_def insert_message_def
  insert_friend_def

lemma keys_ok_empty [simp]: "keys_ok empty_db"
  by (simp add: keys_ok_def empty_db_def db_ids_defs)

lemma refs_ok_empty [simp]: "refs_ok empty_db"
  by (simp add: refs_ok_def empty_db_def)

lemma friends_ok_empty [simp]: "friends_ok empty_db"
  by (simp add: friends_ok_def friend_pairs_def empty_db_def sym_def irrefl_def)

lemma plain_driver_ok:
  "delivers_all (plain_driver t)" "fk_enforced (plain_driver t)" "bcrypt_sound (plain_driver t)"
  by (simp_all add: delivers_all_def any_order_def fk_enforced_def bcrypt_sound_def plain_driver_def)

lemma plain_driver_simps [simp]:
  "stmt_fault (plain_driver t) st = None" "scan_fault (plain_driver t) st = None"
  "fk_on (plain_driver t) st" "id_gap (plain_driver t) st = 0"
  "rows_user (plain_driver t) st us = us" "rows_name (plain_driver t) st ns = ns"
  "rows_msg (plain_driver t) st ms = ms"
  "db_time (plain_driver t) = t" "wall_time (plain_driver t) = t"
  "bc_gen (plain_driver t) pw = Inr (''h:'' @ pw)"
  "bc_cmp (plain_driver t) h pw = (if h = ''h:'' @ pw then None else Some ''mismatch'')"
  "sql_like (plain_driver t) pat c = Contains c (butlast (drop 1 pat))"
  by (simp_all add: plain_driver_def)

lemma scan_rows_InrD: "scan_rows drv st t rows = Inr xs \<Longrightarrow> xs = rows"
  by (auto simp: scan_rows_def split: list.splits option.splits)

text \<open>What a successful statement did: the elimination rules the operations' proofs use.\<close>

lemma insert_userE:
  assumes "insert_user drv ig n p a g s d = Inr d'"
  obtains "d' = d" "ig" "n \<in> set (map du_Username (db_users d))"
  | i where "i > seq_users d" "n \<notin> set (map du_Username (db_users d))"
      "d' = d\<lparr>db_users := db_users d @ [\<lparr>du_ID = i, du_Username = n, du_Password = p, du_Avatar = a,
         du_Gender = g, du_Signature = s, du_CreatedAt = db_time drv\<rparr>], seq_users := i\<rparr>"
  using assms that(1) that(2) [of "seq_users d + 1 + int (id_gap drv (InsUser n))"]
  by (auto simp: insert_user_def Let_def split: option.splits if_splits)

lemma insert_groupE:
  assumes "insert_group drv n c ds d = Inr (i, d')"
  obtains "i > seq_groups d" "n \<notin> set (map dg_Name (db_groups d))"
      "fk_on drv (InsGroup n) \<longrightarrow> c \<in> set (user_ids d)"
      "d' = d\<lparr>db_groups := db_groups d @ [\<lparr>dg_ID = i, dg_Name = n, dg_CreatorID = c,
         dg_Description = ds, dg_CreatedAt = db_time drv\<rparr>], seq_groups := i\<rparr>"
  using assms
  by (auto simp: insert_group_def Let_def split: option.splits if_splits)

lemma insert_memberE:
  assumes "insert_member drv ig g u d = Inr d'"
  obtains "d' = d" "ig" "(g, u) \<in> set (map (\<lambda>m. (gm_group_id m, gm_user_id m)) (db_members d))"
  | i where "i > seq_members d"
      "(g, u) \<notin> set (map (\<lambda>m. (gm_group_id m, gm_user_id m)) (db_members d))"
      "fk_on drv (InsMember g u) \<longrightarrow> g \<in> set (group_ids d) \<and> u \<in> set (user_ids d)"
      "d' = d\<lparr>db_members := db_members d @ [\<lparr>gm_id = i, gm_group_id = g, gm_user_id = u\<rparr>],
         seq_members := i\<rparr>"
  using assms that(1) that(2) [of "seq_members d + 1 + int (id_gap drv (InsMember g u))"]
  by (auto simp: insert_member_def Let_def split: option.splits if_splits)

lemma insert_messageE:
  assumes "insert_message drv f t g c ty d = Inr (i, d')"
  obtains "i > seq_messages d" "ty \<in> {''public'', ''private'', ''group''}"
      "fk_on drv (InsMessage f t g ty) \<longrightarrow> f \<in> set (user_ids d)
         \<and> (\<forall>j. t = Some j \<longrightarrow> j \<in> set (user_ids d)) \<and> (\<forall>j. g = Some j \<longrightarrow> j \<in> set (group_ids d))"
      "d' = d\<lparr>db_messages := db_messages d @ [\<lparr>dm_ID = i, dm_FromID = f, dm_ToID = t, dm_GroupID = g,
         dm_Content = c, dm_Type = ty, dm_CreatedAt = db_time drv\<rparr>], seq_messages := i\<rparr>"
  using assms
  by (auto simp: insert_message_def Let_def split: option.splits if_splits)

lemma insert_friendE:
  assumes "insert_friend drv u f d = Inr d'"
  obtains "d' = d" "(u, f) \<in> set (map (\<lambda>x. (fr_user_id x, fr_friend_id x)) (db_friends d))"
  | i where "i > seq_friends d"
      "(u, f) \<notin> set (map (\<lambda>x. (fr_user_id x, fr_friend_id x)) (db_friends d))"
      "fk_on drv (InsFriend u f) \<longrightarrow> u \<in> set (user_ids d) \<and> f \<in> set (user_ids d)"
      "d' = d\<lparr>db_friends := db_friends d @ [\<lparr>fr_id = i, fr_user_id = u, fr_friend_id = f,
         fr_status = ''accepted''\<rparr>], seq_friends := i\<rparr>"
  using assms that(1) that(2) [of "seq_friends d + 1 + int (id_gap drv (InsFriend u f))"]
  by (auto simp: insert_friend_def Let_def split: option.splits if_splits)

text \<open>Each writing statement keeps the keys.\<close>

lemma insert_user_keys: "insert_user drv ig n p a g s d = Inr d' \<Longrightarrow> keys_ok d \<Longrightarrow> keys_ok d'"
  by (erule insert_userE) (force simp: keys_ok_def db_ids_defs)+

lemma insert_group_keys: "insert_group drv n c s d = Inr (i, d') \<Longrightarrow> keys_ok d \<Longrightarrow> keys_ok d'"
  by (erule insert_groupE) (force simp: keys_ok_def db_ids_defs)

lemma insert_member_keys: "insert_member drv ig g u d = Inr d' \<Longrightarrow> keys_ok d \<Longrightarrow> keys_ok d'"
  by (erule insert_memberE) (force simp: keys_ok_def db_ids_defs)+

lemma insert_message_keys: "insert_message drv f t g c ty d = Inr (i, d') \<Longrightarrow> keys_ok d \<Longrightarrow> keys_ok d'"
  by (erule insert_messageE) (force simp: keys_ok_def db_ids_defs sorted_wrt_append)

lemma insert_friend_keys: "insert_friend drv u f d = Inr d' \<Longrightarrow> keys_ok d \<Longrightarrow> keys_ok d'"
  by (erule insert_friendE) (force simp: keys_ok_def db_ids_defs)+

text \<open>Each writing statement keeps the references, where foreign keys are checked.\<close>

lemma insert_user_refs: "insert_user drv ig n p a g s d = Inr d' \<Longrightarrow> refs_ok d \<Longrightarrow> refs_ok d'"
  by (erule insert_userE) (force simp: refs_ok_def db_ids_defs)+

lemma insert_group_refs:
  "insert_group drv n c s d = Inr (i, d') \<Longrightarrow> fk_on drv (InsGroup n) \<or> c \<in> set (user_ids d) \<Longrightarrow>
   refs_ok d \<Longrightarrow> refs_ok d'"
  by (erule insert_groupE) (force simp: refs_ok_def db_ids_defs)

lemma insert_member_refs:
  "insert_member drv ig g u d = Inr d' \<Longrightarrow>
   fk_on drv (InsMember g u) \<or> g \<in> set (group_ids d) \<and> u \<in> set (user_ids d) \<Longrightarrow>
   refs_ok d \<Longrightarrow> refs_ok d'"
  by (erule insert_memberE) (force simp: refs_ok_def db_ids_defs)+

lemma insert_message_refs:
  "insert_message drv f t g c ty d = Inr (i, d') \<Longrightarrow>
   fk_on drv (InsMessage f t g ty) \<or> f \<in> set (user_ids d)
     \<and> (\<forall>j. t = Some j \<longrightarrow> j \<in> set (user_ids d)) \<and> (\<forall>j. g = Some j \<longrightarrow> j \<in> set (group_ids d)) \<Longrightarrow>
   refs_ok d \<Longrightarrow> refs_ok d'"
  by (erule insert_messageE) (auto simp: refs_ok_def db_ids_defs)

lemma insert_friend_refs:
  "insert_friend drv u f d = Inr d' \<Longrightarrow>
   fk_on drv (InsFriend u f) \<or> u \<in> set (user_ids d) \<and> f \<in> set (user_ids d) \<Longrightarrow>
   refs_ok d \<Longrightarrow> refs_ok d'"
  by (erule insert_friendE) (force simp: refs_ok_def db_ids_defs)+

end
