(* ===== verification/Db_Users.thy ===== *)
theory Db_Users
  imports Db_Schema
begin

text \<open>
  Opening the database and the user operations of \<^verbatim>\<open>internal/db/db.go\<close>: the default
  accounts, registration, authentication, the public view of a user, and the two profile
  updates.  A writing operation returns its Go result and the tables after the call.
\<close>

section \<open>Opening the database\<close>

definition table_names :: "string list" where
  "table_names = [''users'', ''groups'', ''group_members'', ''messages'', ''friends'']"

fun create_each :: "driver \<Rightarrow> string list \<Rightarrow> unit res" where
  "create_each drv [] = Inr ()"
| "create_each drv (t # ts) =
     (case stmt_fault drv (CreateTable t) of
        Some e \<Rightarrow> Inl (''failed to create table: '' @ e)
      | None \<Rightarrow> create_each drv ts)"

definition createTables :: "driver \<Rightarrow> unit res" where
  "createTables drv = create_each drv table_names"

text \<open>username, password, avatar, gender, signature\<close>

type_synonym default_user = "string \<times> string \<times> string \<times> string \<times> string"

definition default_users :: "default_user list" where
  "default_users =
     [(''alice'', ''123456'', txt_alice_avatar, ''female'', txt_alice_sig),
      (''bob'', ''123456'', txt_bob_avatar, ''male'', txt_bob_sig),
      (''charlie'', ''123456'', txt_charlie_avatar, ''male'', txt_charlie_sig)]"

fun create_users :: "driver \<Rightarrow> default_user list \<Rightarrow> Database \<Rightarrow> unit res \<times> Database" where
  "create_users drv [] d = (Inr (), d)"
| "create_users drv ((username, password, avatar, gender, signature) # us) d =
     (case bc_gen drv password of
        Inl e \<Rightarrow> (Inl (''failed to hash password for '' @ username @ '': '' @ e), d)
      | Inr h \<Rightarrow>
          (case insert_user drv True username h avatar gender signature d of
             Inl e \<Rightarrow> (Inl (''failed to create default user '' @ username @ '': '' @ sql_text drv e), d)
           | Inr d' \<Rightarrow> create_users drv us d'))"

definition createDefaultUsers :: "driver \<Rightarrow> Database \<Rightarrow> unit res \<times> Database" where
  "createDefaultUsers drv d = create_users drv default_users d"

text \<open>\<open>d\<close> is what the database file holds; a failure to create the default users is only logged.\<close>

definition InitDatabase :: "driver \<Rightarrow> Database \<Rightarrow> Database res" where
  "InitDatabase drv d =
     (case stmt_fault drv OpenDb of
        Some e \<Rightarrow> Inl (''failed to open database: '' @ e)
      | None \<Rightarrow>
     (case stmt_fault drv PingDb of
        Some e \<Rightarrow> Inl (''failed to ping database: '' @ e)
      | None \<Rightarrow>
     (case createTables drv of
        Inl e \<Rightarrow> Inl (''failed to create tables: '' @ e)
      | Inr _ \<Rightarrow> Inr (snd (createDefaultUsers drv d)))))"

section \<open>Accounts\<close>

definition AuthenticateUser :: "driver \<Rightarrow> Database \<Rightarrow> string \<Rightarrow> string \<Rightarrow> DBUser res" where
  "AuthenticateUser drv d username password =
     (case stmt_fault drv (SelAuth username) of
        Some e \<Rightarrow> Inl (''database error: '' @ e)
      | None \<Rightarrow>
          (case find (\<lambda>u. du_Username u = username) (db_users d) of
             None \<Rightarrow> Inl ''user not found''
           | Some user \<Rightarrow>
               (case bc_cmp drv (du_Password user) password of
                  Some _ \<Rightarrow> Inl ''invalid password''
                | None \<Rightarrow> Inr user)))"

definition RegisterUser ::
  "driver \<Rightarrow> string \<Rightarrow> string \<Rightarrow> string \<Rightarrow> Database \<Rightarrow> unit res \<times> Database" where
  "RegisterUser drv username password avatar d =
     (if length username < 3 \<or> length username > 20 then (Inl ''username must be 3-20 characters'', d)
      else if length password < 6 then (Inl ''password must be at least 6 characters'', d)
      else
        (case bc_gen drv password of
           Inl e \<Rightarrow> (Inl (''failed to hash password: '' @ e), d)
         | Inr h \<Rightarrow>
             (case insert_user drv False username h avatar [] [] d of
                Inl e \<Rightarrow>
                  (case e of
                     SqlUnique _ \<Rightarrow> (Inl ''username already exists'', d)
                   | _ \<Rightarrow> (Inl (''failed to register user: '' @ sql_text drv e), d))
              | Inr d' \<Rightarrow> (Inr (), d'))))"

definition GetUserByUsername :: "driver \<Rightarrow> Database \<Rightarrow> string \<Rightarrow> UserPublic res" where
  "GetUserByUsername drv d username =
     (case stmt_fault drv (SelUser username) of
        Some e \<Rightarrow> Inl (''database error: '' @ e)
      | None \<Rightarrow>
          (case find (\<lambda>u. du_Username u = username) (db_users d) of
             None \<Rightarrow> Inl ''user not found''
           | Some user \<Rightarrow> Inr (to_public user)))"

definition UpdateUserAvatar :: "driver \<Rightarrow> string \<Rightarrow> string \<Rightarrow> Database \<Rightarrow> unit res \<times> Database" where
  "UpdateUserAvatar drv username avatar d =
     (case stmt_fault drv (UpdAvatar username) of
        Some e \<Rightarrow> (Inl (''failed to update avatar: '' @ e), d)
      | None \<Rightarrow>
          (Inr (), d\<lparr>db_users :=
             map (\<lambda>u. if du_Username u = username then u\<lparr>du_Avatar := avatar\<rparr> else u) (db_users d)\<rparr>))"

definition UpdateUserProfile :: "driver \<Rightarrow> string \<Rightarrow> string \<Rightarrow> string \<Rightarrow> Database \<Rightarrow> unit res \<times> Database" where
  "UpdateUserProfile drv username gender signature d =
     (case stmt_fault drv (UpdProfile username) of
        Some e \<Rightarrow> (Inl (''failed to update profile: '' @ e), d)
      | None \<Rightarrow>
          (Inr (), d\<lparr>db_users :=
             map (\<lambda>u. if du_Username u = username then u\<lparr>du_Gender := gender, du_Signature := signature\<rparr>
                  else u) (db_users d)\<rparr>))"

section \<open>Lemmas\<close>

lemma find_username_append:
  "n \<notin> set (map du_Username us) \<Longrightarrow> find (\<lambda>u. du_Username u = n) (us @ vs) = find (\<lambda>u. du_Username u = n) vs"
  by (induction us) auto

lemma find_username_None:
  "find (\<lambda>u. du_Username u = n) us = None \<longleftrightarrow> n \<notin> set (map du_Username us)"
  by (force simp: find_None_iff)

lemma find_username_SomeD:
  "find (\<lambda>u. du_Username u = n) us = Some u \<Longrightarrow> u \<in> set us \<and> du_Username u = n"
  by (auto simp: find_Some_iff)

lemma GetUserByUsername_InrD:
  "GetUserByUsername drv d n = Inr p \<Longrightarrow>
   up_Username p = n \<and> up_ID p \<in> set (user_ids d)
     \<and> (\<exists>u \<in> set (db_users d). du_Username u = n \<and> du_ID u = up_ID p \<and> p = to_public u)"
  by (auto simp: GetUserByUsername_def to_public_def user_ids_def
      split: option.splits dest!: find_username_SomeD)

text \<open>Names determine ids and ids determine names.\<close>

lemma distinct_map_inj: "distinct (map f xs) \<Longrightarrow> x \<in> set xs \<Longrightarrow> y \<in> set xs \<Longrightarrow> f x = f y \<Longrightarrow> x = y"
  by (simp add: distinct_map inj_on_def)

lemma user_id_name:
  assumes "keys_ok d" "GetUserByUsername drv d n = Inr p" "GetUserByUsername drv' d m = Inr q"
  shows "up_ID p = up_ID q \<longleftrightarrow> n = m"
proof -
  obtain u v where "u \<in> set (db_users d)" "du_Username u = n" "du_ID u = up_ID p"
    "v \<in> set (db_users d)" "du_Username v = m" "du_ID v = up_ID q"
    using assms(2,3) by (blast dest: GetUserByUsername_InrD)
  moreover have "distinct (map du_ID (db_users d))" "distinct (map du_Username (db_users d))"
    using assms(1) by (simp_all add: keys_ok_def user_ids_def)
  ultimately show ?thesis
    by (metis distinct_map_inj)
qed

text \<open>What the operations keep.\<close>

lemma map_users_keys:
  assumes "\<And>u. du_ID (f u) = du_ID u" "\<And>u. du_Username (f u) = du_Username u"
  shows "keys_ok (d\<lparr>db_users := map f (db_users d)\<rparr>) = keys_ok d"
    and "refs_ok (d\<lparr>db_users := map f (db_users d)\<rparr>) = refs_ok d"
    and "friends_ok (d\<lparr>db_users := map f (db_users d)\<rparr>) = friends_ok d"
  using assms by (simp_all add: keys_ok_def refs_ok_def friends_ok_def friend_pairs_def db_ids_defs comp_def)

lemma insert_user_friends: "insert_user drv ig n p a g s d = Inr d' \<Longrightarrow> friends_ok d \<Longrightarrow> friends_ok d'"
  by (erule insert_userE) (auto simp: friends_ok_def friend_pairs_def)

definition db_ok :: "Database \<Rightarrow> bool" where
  "db_ok d = (keys_ok d \<and> refs_ok d \<and> friends_ok d)"

lemma insert_user_db_ok: "insert_user drv ig n p a g s d = Inr d' \<Longrightarrow> db_ok d \<Longrightarrow> db_ok d'"
  by (auto simp: db_ok_def intro: insert_user_keys insert_user_refs insert_user_friends)

lemma db_ok_empty [simp]: "db_ok empty_db"
  by (simp add: db_ok_def)

lemma create_users_db_ok: "db_ok d \<Longrightarrow> db_ok (snd (create_users drv us d))"
  by (induction drv us d rule: create_users.induct)
    (auto split: sum.splits dest: insert_user_db_ok)

lemma InitDatabase_db_ok: "InitDatabase drv d = Inr d' \<Longrightarrow> db_ok d \<Longrightarrow> db_ok d'"
  by (auto simp: InitDatabase_def createDefaultUsers_def create_users_db_ok
      split: option.splits sum.splits)

lemma RegisterUser_db_ok: "db_ok d \<Longrightarrow> db_ok (snd (RegisterUser drv n p a d))"
  by (auto simp: RegisterUser_def split: sum.splits sql_err.splits dest: insert_user_db_ok)

lemma UpdateUserAvatar_db_ok: "db_ok d \<Longrightarrow> db_ok (snd (UpdateUserAvatar drv n a d))"
  by (auto simp: UpdateUserAvatar_def db_ok_def map_users_keys split: option.splits)

lemma UpdateUserProfile_db_ok: "db_ok d \<Longrightarrow> db_ok (snd (UpdateUserProfile drv n g s d))"
  by (auto simp: UpdateUserProfile_def db_ok_def map_users_keys split: option.splits)

section \<open>Properties\<close>

text \<open>
  C9. An account that was registered can be used, and only with its password: after a
  successful \<^verbatim>\<open>RegisterUser\<close>, \<^verbatim>\<open>AuthenticateUser\<close> with that name succeeds exactly for the
  password given at registration, whatever else the table holds (passwords that bcrypt
  tells apart: at most 72 bytes, no zero byte).
\<close>

theorem register_then_authenticate:
  assumes "bcrypt_sound drv" "RegisterUser drv n pw a d = (Inr (), d')"
    and "stmt_fault drv (SelAuth n) = None"
    and "length pw' \<le> 72" "CHR 0x00 \<notin> set (pw @ pw')"
  shows "(\<exists>u. AuthenticateUser drv d' n pw' = Inr u \<and> du_Avatar u = a) \<longleftrightarrow> pw' = pw"
proof -
  obtain h where h: "bc_gen drv pw = Inr h" "insert_user drv False n h a [] [] d = Inr d'"
    using assms(2) by (auto simp: RegisterUser_def split: if_splits sum.splits sql_err.splits)
  then obtain i where "n \<notin> set (map du_Username (db_users d))"
    "db_users d' = db_users d @ [\<lparr>du_ID = i, du_Username = n, du_Password = h, du_Avatar = a,
       du_Gender = [], du_Signature = [], du_CreatedAt = db_time drv\<rparr>]"
    by (auto elim: insert_userE)
  then have "find (\<lambda>u. du_Username u = n) (db_users d') = Some \<lparr>du_ID = i, du_Username = n,
      du_Password = h, du_Avatar = a, du_Gender = [], du_Signature = [], du_CreatedAt = db_time drv\<rparr>"
    by (simp add: find_username_append)
  moreover have "bc_cmp drv h pw' = None \<longleftrightarrow> pw' = pw"
    using assms(1,4,5) h(1) unfolding bcrypt_sound_def by metis
  ultimately show ?thesis
    using assms(3) by (auto simp: AuthenticateUser_def split: option.splits)
qed

theorem register_then_authenticate_witness:
  "let d' = snd (RegisterUser (plain_driver 7) ''dave'' ''secret'' ''x'' empty_db)
   in (\<exists>u. AuthenticateUser (plain_driver 7) d' ''dave'' ''secret'' = Inr u \<and> du_Avatar u = ''x'')
    \<and> \<not> (\<exists>u. AuthenticateUser (plain_driver 7) d' ''dave'' ''guess!'' = Inr u \<and> du_Avatar u = ''x'')"
proof -
  have "RegisterUser (plain_driver 7) ''dave'' ''secret'' ''x'' empty_db =
      (Inr (), snd (RegisterUser (plain_driver 7) ''dave'' ''secret'' ''x'' empty_db))"
    by (simp add: RegisterUser_def insert_user_def empty_db_def Let_def)
  then show ?thesis
    using register_then_authenticate [OF plain_driver_ok(3), of 7 _ "''secret''" _ _ _ "''secret''"]
      register_then_authenticate [OF plain_driver_ok(3), of 7 _ "''secret''" _ _ _ "''guess!''"]
    by (fastforce simp: Let_def)
qed

text \<open>
  Registration refuses exactly what it should, and a refusal changes nothing: with a
  working driver it succeeds if and only if the name has 3 to 20 bytes, the password at
  least 6, and no account has that name; every error leaves the tables as they were.
\<close>

theorem register_accepts:
  assumes "stmt_fault drv (InsUser n) = None" "bc_gen drv pw = Inr h"
  shows "(fst (RegisterUser drv n pw a d) = Inr () \<longleftrightarrow>
      3 \<le> length n \<and> length n \<le> 20 \<and> 6 \<le> length pw \<and> n \<notin> set (map du_Username (db_users d)))
    \<and> (fst (RegisterUser drv n pw a d) \<noteq> Inr () \<longrightarrow> snd (RegisterUser drv n pw a d) = d)"
  using assms
  by (auto simp: RegisterUser_def insert_user_def Let_def)

theorem register_accepts_witness:
  "fst (RegisterUser (plain_driver 7) ''dave'' ''secret'' ''x'' empty_db) = Inr ()
   \<and> snd (RegisterUser (plain_driver 7) ''al'' ''secret'' ''x'' empty_db) = empty_db"
  using register_accepts [of "plain_driver 7" "''dave''" "''secret''" "''h:secret''" "''x''" empty_db]
    register_accepts [of "plain_driver 7" "''al''" "''secret''" "''h:secret''" "''x''" empty_db]
  by (simp add: empty_db_def)

end
