(* ===== verification/Db_Groups.thy ===== *)
theory Db_Groups
  imports Db_Users
begin

text \<open>
  The group operations of \<^verbatim>\<open>internal/db/db.go\<close>.  \<open>is_member\<close> is the membership relation of
  the tables; the properties say how each operation changes it and that the queries read it.
\<close>

section \<open>The operations\<close>

definition CreateGroup ::
  "driver \<Rightarrow> string \<Rightarrow> int \<Rightarrow> string \<Rightarrow> Database \<Rightarrow> DBGroup res \<times> Database" where
  "CreateGroup drv name creatorID description d =
     (if length (TrimSpace name) = 0 then (Inl ''group name cannot be empty'', d)
      else if length name > 32 then (Inl ''group name too long (max 32 characters)'', d)
      else
        (case insert_group drv name creatorID description d of
           Inl e \<Rightarrow>
             (case e of
                SqlUnique _ \<Rightarrow> (Inl ''group name already exists'', d)
              | _ \<Rightarrow> (Inl (''failed to create group: '' @ sql_text drv e), d))
         | Inr (gid, d1) \<Rightarrow>
        (case stmt_fault drv (LastGroupId name) of
           Some e \<Rightarrow> (Inl (''failed to get group id: '' @ e), d1)
         | None \<Rightarrow>
        (case insert_member drv False gid creatorID d1 of
           Inl e \<Rightarrow> (Inl (''failed to add creator to group: '' @ sql_text drv e), d1)
         | Inr d2 \<Rightarrow>
             (Inr \<lparr>dg_ID = gid, dg_Name = name, dg_CreatorID = creatorID,
                dg_Description = description, dg_CreatedAt = wall_time drv\<rparr>, d2)))))"

text \<open>\<^verbatim>\<open>SELECT id FROM groups WHERE name = ?\<close>, as \<^verbatim>\<open>JoinGroup\<close> and \<^verbatim>\<open>LeaveGroup\<close> start.\<close>

definition group_id_of :: "driver \<Rightarrow> Database \<Rightarrow> string \<Rightarrow> int res" where
  "group_id_of drv d groupName =
     (case stmt_fault drv (SelGroupId groupName) of
        Some e \<Rightarrow> Inl (''database error: '' @ e)
      | None \<Rightarrow>
          (case find (\<lambda>g. dg_Name g = groupName) (db_groups d) of
             None \<Rightarrow> Inl ''group not found''
           | Some g \<Rightarrow> Inr (dg_ID g)))"

definition JoinGroup :: "driver \<Rightarrow> string \<Rightarrow> int \<Rightarrow> Database \<Rightarrow> unit res \<times> Database" where
  "JoinGroup drv groupName userID d =
     (case group_id_of drv d groupName of
        Inl e \<Rightarrow> (Inl e, d)
      | Inr groupID \<Rightarrow>
          (case insert_member drv True groupID userID d of
             Inl e \<Rightarrow> (Inl (''failed to join group: '' @ sql_text drv e), d)
           | Inr d' \<Rightarrow> (Inr (), d')))"

definition LeaveGroup :: "driver \<Rightarrow> string \<Rightarrow> int \<Rightarrow> Database \<Rightarrow> unit res \<times> Database" where
  "LeaveGroup drv groupName userID d =
     (case group_id_of drv d groupName of
        Inl e \<Rightarrow> (Inl e, d)
      | Inr groupID \<Rightarrow>
          (case stmt_fault drv (DelMember groupID userID) of
             Some e \<Rightarrow> (Inl (''failed to leave group: '' @ e), d)
           | None \<Rightarrow>
               let mine = (\<lambda>m. gm_group_id m = groupID \<and> gm_user_id m = userID);
                   rowsAffected = length (filter mine (db_members d));
                   d' = d\<lparr>db_members := filter (\<lambda>m. \<not> mine m) (db_members d)\<rparr>
               in (case stmt_fault drv (AffMember groupID userID) of
                     Some e \<Rightarrow> (Inl (''failed to get rows affected: '' @ e), d')
                   | None \<Rightarrow>
                       if rowsAffected = 0 then (Inl ''user is not a member of this group'', d')
                       else (Inr (), d'))))"

definition GetGroupMembers :: "driver \<Rightarrow> Database \<Rightarrow> string \<Rightarrow> UserPublic list res" where
  "GetGroupMembers drv d groupName =
     (case stmt_fault drv (SelMembers groupName) of
        Some e \<Rightarrow> Inl (''database error: '' @ e)
      | None \<Rightarrow>
          scan_rows drv (SelMembers groupName) ''failed to scan user: ''
            (rows_user drv (SelMembers groupName)
               [to_public u. u \<leftarrow> db_users d, gm \<leftarrow> db_members d, du_ID u = gm_user_id gm,
                  g \<leftarrow> db_groups d, gm_group_id gm = dg_ID g \<and> dg_Name g = groupName]))"

definition GetGroupByName :: "driver \<Rightarrow> Database \<Rightarrow> string \<Rightarrow> DBGroup res" where
  "GetGroupByName drv d name =
     (case stmt_fault drv (SelGroup name) of
        Some e \<Rightarrow> Inl (''database error: '' @ e)
      | None \<Rightarrow>
          (case find (\<lambda>g. dg_Name g = name) (db_groups d) of
             None \<Rightarrow> Inl ''group not found''
           | Some g \<Rightarrow> Inr g))"

definition GetUserGroups :: "driver \<Rightarrow> Database \<Rightarrow> string \<Rightarrow> string list res" where
  "GetUserGroups drv d username =
     (case stmt_fault drv (SelUserGroups username) of
        Some e \<Rightarrow> Inl (''database error: '' @ e)
      | None \<Rightarrow>
          scan_rows drv (SelUserGroups username) ''failed to scan group name: ''
            (rows_name drv (SelUserGroups username)
               [dg_Name g. g \<leftarrow> db_groups d, gm \<leftarrow> db_members d, dg_ID g = gm_group_id gm,
                  u \<leftarrow> db_users d, gm_user_id gm = du_ID u \<and> du_Username u = username]))"

section \<open>Membership\<close>

definition is_member :: "Database \<Rightarrow> string \<Rightarrow> int \<Rightarrow> bool" where
  "is_member d groupName uid =
     (\<exists>g \<in> set (db_groups d). dg_Name g = groupName
        \<and> (\<exists>m \<in> set (db_members d). gm_group_id m = dg_ID g \<and> gm_user_id m = uid))"

section \<open>Lemmas\<close>

lemma find_group_SomeD: "find (\<lambda>g. dg_Name g = n) gs = Some g \<Longrightarrow> g \<in> set gs \<and> dg_Name g = n"
  by (auto simp: find_Some_iff)

lemma group_id_of_InrD:
  "group_id_of drv d n = Inr i \<Longrightarrow> \<exists>g \<in> set (db_groups d). dg_Name g = n \<and> dg_ID g = i"
  by (auto simp: group_id_of_def split: option.splits dest!: find_group_SomeD)

lemma keys_group_unique:
  "keys_ok d \<Longrightarrow> g \<in> set (db_groups d) \<Longrightarrow> h \<in> set (db_groups d) \<Longrightarrow> dg_ID g = dg_ID h \<or> dg_Name g = dg_Name h
   \<Longrightarrow> g = h"
  unfolding keys_ok_def group_ids_def by (metis distinct_map_inj)

definition member_pairs :: "Database \<Rightarrow> (int \<times> int) set" where
  "member_pairs d = (\<lambda>m. (gm_group_id m, gm_user_id m)) ` set (db_members d)"

lemma in_member_pairs:
  "(g, u) \<in> member_pairs d \<longleftrightarrow> (\<exists>m \<in> set (db_members d). gm_group_id m = g \<and> gm_user_id m = u)"
  by (auto simp: member_pairs_def)

text \<open>Membership after a change of the member table alone, read at one group and at the others.\<close>

lemma is_member_here:
  assumes "keys_ok d" "g \<in> set (db_groups d)" "dg_Name g = n" "db_groups d' = db_groups d"
  shows "is_member d' n uid \<longleftrightarrow> (\<exists>m \<in> set (db_members d'). gm_group_id m = dg_ID g \<and> gm_user_id m = uid)"
proof -
  have "h = g" if "h \<in> set (db_groups d)" "dg_Name h = n" for h
    using keys_group_unique [OF assms(1) that(1) assms(2)] that assms(3) by simp
  with assms(2,3) show ?thesis unfolding is_member_def assms(4) by blast
qed

lemmas is_member_by_id = is_member_here [OF _ _ _ refl]

lemma is_member_elsewhere:
  assumes "keys_ok d" "g \<in> set (db_groups d)" "m \<noteq> dg_Name g" "db_groups d' = db_groups d"
    and "\<And>x. gm_group_id x \<noteq> dg_ID g \<Longrightarrow> x \<in> set (db_members d') \<longleftrightarrow> x \<in> set (db_members d)"
  shows "is_member d' m v \<longleftrightarrow> is_member d m v"
proof -
  have "dg_ID h \<noteq> dg_ID g" if "h \<in> set (db_groups d)" "dg_Name h = m" for h
    using keys_group_unique [OF assms(1) that(1) assms(2)] that assms(3) by auto
  then show ?thesis unfolding is_member_def assms(4) using assms(5) by metis
qed

lemma friends_ok_irrelevant [simp]:
  "friends_ok (d\<lparr>db_groups := gs\<rparr>) = friends_ok d" "friends_ok (d\<lparr>db_members := ms\<rparr>) = friends_ok d"
  "friends_ok (d\<lparr>db_messages := qs\<rparr>) = friends_ok d" "friends_ok (d\<lparr>seq_groups := i\<rparr>) = friends_ok d"
  "friends_ok (d\<lparr>seq_members := i\<rparr>) = friends_ok d" "friends_ok (d\<lparr>seq_messages := i\<rparr>) = friends_ok d"
  by (simp_all add: friends_ok_def friend_pairs_def)

lemma insert_group_db_ok:
  "insert_group drv n c s d = Inr (i, d') \<Longrightarrow> fk_on drv (InsGroup n) \<or> c \<in> set (user_ids d) \<Longrightarrow>
   db_ok d \<Longrightarrow> db_ok d'"
  unfolding db_ok_def
  by (auto intro: insert_group_keys insert_group_refs elim: insert_groupE)

lemma insert_member_db_ok:
  "insert_member drv ig g u d = Inr d' \<Longrightarrow>
   fk_on drv (InsMember g u) \<or> g \<in> set (group_ids d) \<and> u \<in> set (user_ids d) \<Longrightarrow> db_ok d \<Longrightarrow> db_ok d'"
  unfolding db_ok_def
  by (auto intro: insert_member_keys insert_member_refs elim: insert_memberE)

text \<open>
  The group operations keep the tables consistent whenever the acting user exists, also on
  connections that do not check foreign keys, and on every error path.
\<close>

lemma CreateGroup_db_ok:
  assumes "db_ok d" "fk_enforced drv \<or> c \<in> set (user_ids d)"
  shows "db_ok (snd (CreateGroup drv n c s d))"
proof (cases "insert_group drv n c s d")
  case (Inl e)
  then show ?thesis using assms by (auto simp: CreateGroup_def split: sql_err.splits)
next
  case (Inr r)
  obtain gid d1 where r: "r = (gid, d1)" by (cases r)
  have d1: "db_ok d1" using insert_group_db_ok Inr r assms by (auto simp: fk_enforced_def)
  have "gid \<in> set (group_ids d1)" "user_ids d1 = user_ids d"
    using Inr r by (auto simp: db_ids_defs elim!: insert_groupE)
  then have "db_ok d2" if "insert_member drv False gid c d1 = Inr d2" for d2
    using insert_member_db_ok [OF that] assms(2) d1 by (auto simp: fk_enforced_def)
  then show ?thesis
    using assms(1) d1 Inr r by (auto simp: CreateGroup_def split: option.splits sum.splits)
qed

lemma JoinGroup_db_ok:
  assumes "db_ok d" "fk_enforced drv \<or> u \<in> set (user_ids d)"
  shows "db_ok (snd (JoinGroup drv n u d))"
proof (cases "group_id_of drv d n")
  case (Inl e)
  then show ?thesis using assms by (simp add: JoinGroup_def)
next
  case (Inr gid)
  then have "gid \<in> set (group_ids d)"
    using group_id_of_InrD by (force simp: group_ids_def)
  then show ?thesis
    using Inr assms insert_member_db_ok [of drv True gid u d]
    by (auto simp: JoinGroup_def fk_enforced_def split: sum.splits)
qed

lemma filter_members_db_ok: "db_ok d \<Longrightarrow> db_ok (d\<lparr>db_members := filter P (db_members d)\<rparr>)"
  by (auto simp: db_ok_def keys_ok_def refs_ok_def db_ids_defs distinct_map inj_on_def)

lemma LeaveGroup_db_ok: "db_ok d \<Longrightarrow> db_ok (snd (LeaveGroup drv n u d))"
  by (auto simp: LeaveGroup_def Let_def filter_members_db_ok split: sum.splits option.splits)

text \<open>The joins of the two membership queries, read as filters.\<close>

lemma public_Username [simp]: "up_Username (to_public u) = du_Username u"
  by (simp add: to_public_def)

lemma members_rows:
  assumes "keys_ok d"
  shows "[to_public u. u \<leftarrow> db_users d, gm \<leftarrow> db_members d, du_ID u = gm_user_id gm,
            g \<leftarrow> db_groups d, gm_group_id gm = dg_ID g \<and> dg_Name g = n]
    = map to_public (filter (\<lambda>u. is_member d n (du_ID u)) (db_users d))"
proof -
  have dist: "distinct (db_groups d)" "distinct (db_members d)"
    using assms by (auto simp: keys_ok_def group_ids_def distinct_map)
  let ?hit = "\<lambda>gm. \<exists>g \<in> set (db_groups d). gm_group_id gm = dg_ID g \<and> dg_Name g = n"
  have inner: "[to_public u. g \<leftarrow> db_groups d, gm_group_id gm = dg_ID g \<and> dg_Name g = n]
      = (if ?hit gm then [to_public u] else [])" for gm u
    using keys_group_unique [OF assms] dist(1) by (intro concat_unique) auto
  have pair: "a = b" if "a \<in> set (db_members d)" "b \<in> set (db_members d)"
    "gm_group_id a = gm_group_id b" "gm_user_id a = gm_user_id b" for a b
    using assms that by (auto simp: keys_ok_def distinct_map inj_on_def)
  have outer: "concat (map (\<lambda>gm. if du_ID u = gm_user_id gm \<and> ?hit gm then [to_public u] else []) (db_members d))
      = (if \<exists>gm \<in> set (db_members d). du_ID u = gm_user_id gm \<and> ?hit gm then [to_public u] else [])" for u
  proof (rule concat_unique [OF _ dist(2)])
    fix a b assume "a \<in> set (db_members d)" "b \<in> set (db_members d)"
      "du_ID u = gm_user_id a \<and> ?hit a" "du_ID u = gm_user_id b \<and> ?hit b"
    then show "a = b" using pair keys_group_unique [OF assms] by metis
  qed
  have "(\<exists>gm \<in> set (db_members d). du_ID u = gm_user_id gm \<and> ?hit gm) \<longleftrightarrow> is_member d n (du_ID u)"
    for u :: DBUser
    unfolding is_member_def by metis
  then have row: "concat (map (\<lambda>gm. if du_ID u = gm_user_id gm then if ?hit gm then [to_public u] else []
        else []) (db_members d)) = (if is_member d n (du_ID u) then [to_public u] else [])" for u
    using outer [of u] by (simp add: nested_if)
  show ?thesis
    unfolding inner row by (rule concat_if_filter)
qed

lemma user_group_rows:
  assumes "keys_ok d"
  shows "set [dg_Name g. g \<leftarrow> db_groups d, gm \<leftarrow> db_members d, dg_ID g = gm_group_id gm,
            u \<leftarrow> db_users d, gm_user_id gm = du_ID u \<and> du_Username u = n]
    = {dg_Name g | g. g \<in> set (db_groups d)
      \<and> (\<exists>v \<in> set (db_users d). du_Username v = n \<and> is_member d (dg_Name g) (du_ID v))}"
proof -
  have member: "is_member d (dg_Name g) i \<longleftrightarrow>
      (\<exists>m \<in> set (db_members d). gm_group_id m = dg_ID g \<and> gm_user_id m = i)"
    if "g \<in> set (db_groups d)" for g i
    using is_member_by_id [OF assms that refl] .
  have "(\<exists>v \<in> set (db_users d). du_Username v = n \<and> is_member d (dg_Name g) (du_ID v)) \<longleftrightarrow>
      (\<exists>m \<in> set (db_members d). dg_ID g = gm_group_id m
         \<and> (\<exists>v \<in> set (db_users d). gm_user_id m = du_ID v \<and> du_Username v = n))"
    if "g \<in> set (db_groups d)" for g
    unfolding member [OF that] by metis
  then show ?thesis
    unfolding set_eq_iff in_join mem_Collect_eq by metis
qed

lemma GetGroupMembers_rows:
  assumes "keys_ok d" "delivers_all drv" "GetGroupMembers drv d n = Inr ms"
  shows "set ms = to_public ` {v \<in> set (db_users d). is_member d n (du_ID v)}"
    and "distinct (map up_Username ms)"
proof -
  let ?us = "filter (\<lambda>v. is_member d n (du_ID v)) (db_users d)"
  have ms: "mset ms = mset (map to_public ?us)"
    using assms(2,3) unfolding GetGroupMembers_def members_rows [OF assms(1), of n]
    by (auto simp: delivers_all_def any_order_def split: option.splits dest!: scan_rows_InrD)
  show "set ms = to_public ` {v \<in> set (db_users d). is_member d n (du_ID v)}"
    using mset_eq_setD [OF ms] by simp
  have "mset (map up_Username ms) = mset (map du_Username ?us)"
    using ms by (metis (no_types, lifting) comp_apply list.map_comp map_cong mset_map public_Username)
  then have "distinct (map up_Username ms) = distinct (map du_Username ?us)"
    by (rule mset_eq_imp_distinct_iff)
  then show "distinct (map up_Username ms)"
    using assms(1) by (simp add: keys_ok_def distinct_map_filter)
qed

section \<open>Properties\<close>

text \<open>
  A successful \<^verbatim>\<open>JoinGroup\<close> makes exactly this user a member of exactly this group; every
  other membership is as before.  Joining twice is the same as joining once.
\<close>

theorem join_group_members:
  assumes "keys_ok d" "JoinGroup drv n u d = (Inr (), d')"
  shows "(is_member d' m v \<longleftrightarrow> is_member d m v \<or> m = n \<and> v = u)
    \<and> (is_member d n u \<longrightarrow> d' = d)"
proof -
  obtain gid g where g: "g \<in> set (db_groups d)" "dg_Name g = n" "dg_ID g = gid"
    and ins: "insert_member drv True gid u d = Inr d'"
    using assms(2) group_id_of_InrD by (fastforce simp: JoinGroup_def split: sum.splits)
  have groups: "db_groups d' = db_groups d" using ins by (auto elim: insert_memberE)
  have new: "x \<in> set (db_members d') \<longleftrightarrow> x \<in> set (db_members d)" if "gm_group_id x \<noteq> dg_ID g" for x
    using ins that g(3) by (auto elim!: insert_memberE)
  have "member_pairs d' = insert (gid, u) (member_pairs d)"
    using ins by (auto simp: member_pairs_def elim!: insert_memberE)
  then have "(\<exists>x \<in> set (db_members d'). gm_group_id x = gid \<and> gm_user_id x = v) \<longleftrightarrow>
      (\<exists>x \<in> set (db_members d). gm_group_id x = gid \<and> gm_user_id x = v) \<or> v = u"
    unfolding in_member_pairs [symmetric] by auto
  then have "is_member d' m v \<longleftrightarrow> is_member d m v \<or> m = n \<and> v = u"
    using is_member_here [OF assms(1) g(1,2) groups] is_member_by_id [OF assms(1) g(1,2)]
      is_member_elsewhere [OF assms(1) g(1) _ groups new] g(2,3) by (cases "m = n") auto
  moreover have "d' = d" if "is_member d n u"
  proof -
    have "(gid, u) \<in> set (map (\<lambda>m. (gm_group_id m, gm_user_id m)) (db_members d))"
      using that is_member_by_id [OF assms(1) g(1,2)] g(3) by force
    then show ?thesis using ins by (auto elim: insert_memberE)
  qed
  ultimately show ?thesis by blast
qed

text \<open>A database with two users and one group, for the witnesses.\<close>

definition demo_db :: Database where
  "demo_db = empty_db\<lparr>
     db_users := [\<lparr>du_ID = 1, du_Username = ''alice'', du_Password = ''h:123456'', du_Avatar = ''a'',
                    du_Gender = [], du_Signature = [], du_CreatedAt = 1\<rparr>,
                  \<lparr>du_ID = 2, du_Username = ''bob'', du_Password = ''h:123456'', du_Avatar = ''b'',
                    du_Gender = [], du_Signature = [], du_CreatedAt = 1\<rparr>],
     db_groups := [\<lparr>dg_ID = 1, dg_Name = ''team'', dg_CreatorID = 1, dg_Description = [], dg_CreatedAt = 1\<rparr>],
     db_members := [\<lparr>gm_id = 1, gm_group_id = 1, gm_user_id = 1\<rparr>],
     seq_users := 2, seq_groups := 1, seq_members := 1\<rparr>"

lemma demo_db_ok [simp]: "db_ok demo_db" "keys_ok demo_db"
  by (simp_all add: demo_db_def db_ok_def keys_ok_def refs_ok_def friends_ok_def friend_pairs_def
      empty_db_def db_ids_defs sym_def irrefl_def)

lemma demo_db_member [simp]: "is_member demo_db n v \<longleftrightarrow> n = ''team'' \<and> v = 1"
  by (auto simp: is_member_def demo_db_def)

theorem join_group_members_witness:
  "let d' = snd (JoinGroup (plain_driver 7) ''team'' 2 demo_db)
   in is_member d' ''team'' 2 \<and> is_member d' ''team'' 1 \<and> \<not> is_member d' ''team'' 3"
proof -
  have "JoinGroup (plain_driver 7) ''team'' 2 demo_db =
      (Inr (), snd (JoinGroup (plain_driver 7) ''team'' 2 demo_db))"
    by (simp add: JoinGroup_def group_id_of_def insert_member_def demo_db_def empty_db_def
        db_ids_defs Let_def)
  from join_group_members [OF demo_db_ok(2) this, of "''team''"] show ?thesis
    by (simp add: Let_def)
qed

text \<open>
  A successful \<^verbatim>\<open>LeaveGroup\<close> was made by a member, removes that membership and no other;
  a refused one changes no membership (unless only reading the row count failed).
\<close>

theorem leave_group_members:
  assumes "keys_ok d" "stmt_fault drv (SelGroupId n) = None"
    "\<And>g. stmt_fault drv (DelMember g u) = None" "\<And>g. stmt_fault drv (AffMember g u) = None"
  shows "(fst (LeaveGroup drv n u d) = Inr () \<longleftrightarrow> is_member d n u)
    \<and> (is_member (snd (LeaveGroup drv n u d)) m v \<longleftrightarrow> is_member d m v \<and> \<not> (m = n \<and> v = u))"
proof (cases "find (\<lambda>g. dg_Name g = n) (db_groups d)")
  case None
  then have "\<not> is_member d n u'" for u'
    by (auto simp: is_member_def find_None_iff)
  then show ?thesis using None assms(2) by (auto simp: LeaveGroup_def group_id_of_def)
next
  case (Some g)
  then have g: "g \<in> set (db_groups d)" "dg_Name g = n" by (auto dest: find_group_SomeD)
  let ?mine = "\<lambda>x. gm_group_id x = dg_ID g \<and> gm_user_id x = u"
  have run: "LeaveGroup drv n u d =
      (if filter ?mine (db_members d) = [] then Inl ''user is not a member of this group'' else Inr (),
       d\<lparr>db_members := filter (\<lambda>x. \<not> ?mine x) (db_members d)\<rparr>)"
    using Some assms(2-4) by (simp add: LeaveGroup_def group_id_of_def Let_def)
  have "is_member d n u \<longleftrightarrow> filter ?mine (db_members d) \<noteq> []"
    using is_member_by_id [OF assms(1) g] by (auto simp: filter_empty_conv)
  moreover have "is_member (snd (LeaveGroup drv n u d)) m v \<longleftrightarrow> is_member d m v \<and> \<not> (m = n \<and> v = u)"
    using is_member_here [OF assms(1) g, of "snd (LeaveGroup drv n u d)" v]
      is_member_by_id [OF assms(1) g, of v]
      is_member_elsewhere [OF assms(1) g(1), of m "snd (LeaveGroup drv n u d)" v] g(2)
    unfolding run by (cases "m = n") auto
  ultimately show ?thesis unfolding run by simp
qed

theorem leave_group_members_witness:
  "fst (LeaveGroup (plain_driver 7) ''team'' 1 demo_db) = Inr ()
   \<and> \<not> is_member (snd (LeaveGroup (plain_driver 7) ''team'' 1 demo_db)) ''team'' 1"
  using leave_group_members [OF demo_db_ok(2), of "plain_driver 7" "''team''" 1 "''team''" 1]
  by simp

text \<open>
  C33. \<^verbatim>\<open>GetGroupMembers\<close> lists each member of the group once and nobody else, and
  \<^verbatim>\<open>GetUserGroups\<close> agrees with it: a user is in the member list of a group exactly if the
  group is in the group list of that user.
\<close>

theorem group_queries_agree:
  assumes "keys_ok d" "delivers_all drv"
    and "GetGroupMembers drv d n = Inr ms" "GetUserGroups drv d u = Inr gs"
  shows "distinct (map up_Username ms)
    \<and> up_ID ` set ms = {i \<in> set (user_ids d). is_member d n i}
    \<and> (u \<in> up_Username ` set ms \<longleftrightarrow> n \<in> set gs)"
proof -
  note rows = GetGroupMembers_rows [OF assms(1-3)]
  have gs: "set gs = {dg_Name g | g. g \<in> set (db_groups d)
      \<and> (\<exists>v \<in> set (db_users d). du_Username v = u \<and> is_member d (dg_Name g) (du_ID v))}"
    using assms(2,4) unfolding user_group_rows [OF assms(1), of u, symmetric] GetUserGroups_def
    by (auto simp: delivers_all_def simp del: set_concat split: option.splits dest!: scan_rows_InrD)
  have "up_ID ` set ms = {i \<in> set (user_ids d). is_member d n i}"
    unfolding rows(1) by (auto simp: to_public_def user_ids_def image_iff)
  moreover have "u \<in> up_Username ` set ms \<longleftrightarrow> n \<in> set gs"
    unfolding rows(1) gs by (force simp: to_public_def image_iff is_member_def)
  ultimately show ?thesis using rows(2) by simp
qed

theorem group_queries_agree_witness:
  "GetGroupMembers (plain_driver 7) demo_db ''team'' = Inr [to_public (hd (db_users demo_db))]
   \<and> GetUserGroups (plain_driver 7) demo_db ''alice'' = Inr [''team'']
   \<and> distinct (map up_Username [to_public (hd (db_users demo_db))])"
proof -
  have m: "GetGroupMembers (plain_driver 7) demo_db ''team'' = Inr [to_public (hd (db_users demo_db))]"
    and g: "GetUserGroups (plain_driver 7) demo_db ''alice'' = Inr [''team'']"
    by (simp_all add: GetGroupMembers_def GetUserGroups_def scan_rows_def demo_db_def empty_db_def)
  with group_queries_agree [OF demo_db_ok(2) plain_driver_ok(1) m g] show ?thesis
    by blast
qed

end
