(* ===== verification/Db_Messages.thy ===== *)
theory Db_Messages
  imports Db_Groups
begin

text \<open>
  Saving and querying messages, \<^verbatim>\<open>internal/db/db.go\<close>.  Each query is its SELECT (a list
  comprehension over the joined tables) followed by \<^verbatim>\<open>ORDER BY created_at DESC LIMIT ?\<close> and
  the scanning loop, which the four queries share.
\<close>

section \<open>The operations\<close>

definition SaveMessage ::
  "driver \<Rightarrow> int \<Rightarrow> int option \<Rightarrow> int option \<Rightarrow> string \<Rightarrow> string \<Rightarrow> Database \<Rightarrow> DBMessage res \<times> Database" where
  "SaveMessage drv fromID toID groupID content msgType d =
     (case insert_message drv fromID toID groupID content msgType d of
        Inl e \<Rightarrow> (Inl (''failed to save message: '' @ sql_text drv e), d)
      | Inr (i, d') \<Rightarrow>
          (case stmt_fault drv LastMessageId of
             Some e \<Rightarrow> (Inl (''failed to get message id: '' @ e), d')
           | None \<Rightarrow>
               (Inr \<lparr>dm_ID = i, dm_FromID = fromID, dm_ToID = toID, dm_GroupID = groupID,
                  dm_Content = content, dm_Type = msgType, dm_CreatedAt = wall_time drv\<rparr>, d')))"

definition message_row :: "DBMessage \<Rightarrow> DBUser \<Rightarrow> string \<Rightarrow> string \<Rightarrow> DBMessageExt" where
  "message_row m u to grp =
     \<lparr>mx_ID = dm_ID m, mx_From = du_Username u, mx_Avatar = du_Avatar u, mx_Signature = du_Signature u,
      mx_To = to, mx_Group = grp, mx_Content = dm_Content m, mx_Type = dm_Type m,
      mx_CreatedAt = dm_CreatedAt m\<rparr>"

text \<open>The optional condition \<^verbatim>\<open>AND m.id < ?\<close>.\<close>

definition before_ok :: "int \<Rightarrow> int \<Rightarrow> bool" where
  "before_ok beforeID i = (beforeID > 0 \<longrightarrow> i < beforeID)"

text \<open>
  \<^verbatim>\<open>ORDER BY m.created_at DESC\<close>.  Rows of the same second come in the order in which the driver has
  them, which SQL leaves open.
\<close>

definition newest_first :: "DBMessageExt list \<Rightarrow> DBMessageExt list" where
  "newest_first rows = sort_key (\<lambda>m. - mx_CreatedAt m) rows"

definition message_page :: "driver \<Rightarrow> sql_stmt \<Rightarrow> int \<Rightarrow> DBMessageExt list \<Rightarrow> DBMessageExt list res" where
  "message_page drv st limit rows =
     (case stmt_fault drv st of
        Some e \<Rightarrow> Inl (''database error: '' @ e)
      | None \<Rightarrow> scan_rows drv st ''failed to scan message: '' (sql_limit limit (newest_first (rows_msg drv st rows))))"

definition public_rows :: "Database \<Rightarrow> int \<Rightarrow> DBMessageExt list" where
  "public_rows d beforeID =
     [message_row m u [] []. m \<leftarrow> db_messages d, u \<leftarrow> db_users d,
        dm_FromID m = du_ID u \<and> dm_Type m = ''public'' \<and> before_ok beforeID (dm_ID m)]"

definition GetPublicMessages :: "driver \<Rightarrow> Database \<Rightarrow> int \<Rightarrow> int \<Rightarrow> DBMessageExt list res" where
  "GetPublicMessages drv d limit beforeID = message_page drv SelPublic limit (public_rows d beforeID)"

definition group_rows :: "Database \<Rightarrow> string \<Rightarrow> int \<Rightarrow> DBMessageExt list" where
  "group_rows d groupName beforeID =
     [message_row m u [] (dg_Name g). m \<leftarrow> db_messages d, u \<leftarrow> db_users d, dm_FromID m = du_ID u,
        g \<leftarrow> db_groups d, dm_GroupID m = Some (dg_ID g) \<and> dm_Type m = ''group'' \<and> dg_Name g = groupName
          \<and> before_ok beforeID (dm_ID m)]"

definition GetGroupMessages :: "driver \<Rightarrow> Database \<Rightarrow> string \<Rightarrow> int \<Rightarrow> int \<Rightarrow> DBMessageExt list res" where
  "GetGroupMessages drv d groupName limit beforeID =
     message_page drv (SelGroupMessages groupName) limit (group_rows d groupName beforeID)"

definition private_rows :: "Database \<Rightarrow> string \<Rightarrow> string \<Rightarrow> int \<Rightarrow> DBMessageExt list" where
  "private_rows d username peer beforeID =
     [message_row m u (du_Username u2) []. m \<leftarrow> db_messages d, u \<leftarrow> db_users d, dm_FromID m = du_ID u,
        u2 \<leftarrow> db_users d, dm_ToID m = Some (du_ID u2) \<and> dm_Type m = ''private''
          \<and> (du_Username u = username \<and> du_Username u2 = peer
             \<or> du_Username u = peer \<and> du_Username u2 = username)
          \<and> before_ok beforeID (dm_ID m)]"

definition GetPrivateMessages ::
  "driver \<Rightarrow> Database \<Rightarrow> string \<Rightarrow> string \<Rightarrow> int \<Rightarrow> int \<Rightarrow> DBMessageExt list res" where
  "GetPrivateMessages drv d username peer limit beforeID =
     message_page drv (SelPrivate username peer) limit (private_rows d username peer beforeID)"

text \<open>
  \<^verbatim>\<open>LEFT JOIN\<close> and \<^verbatim>\<open>COALESCE\<close>: the name of the receiver or of the group, or the empty string.
\<close>

definition name_or_empty :: "int option \<Rightarrow> (int \<times> string) list \<Rightarrow> string" where
  "name_or_empty i names =
     (case i of None \<Rightarrow> [] | Some j \<Rightarrow> (case map_of names j of None \<Rightarrow> [] | Some n \<Rightarrow> n))"

definition search_rows :: "driver \<Rightarrow> Database \<Rightarrow> string \<Rightarrow> DBMessageExt list" where
  "search_rows drv d pattern =
     [message_row m u
        (name_or_empty (dm_ToID m) (map (\<lambda>v. (du_ID v, du_Username v)) (db_users d)))
        (name_or_empty (dm_GroupID m) (map (\<lambda>g. (dg_ID g, dg_Name g)) (db_groups d))).
        m \<leftarrow> db_messages d, u \<leftarrow> db_users d, dm_FromID m = du_ID u \<and> sql_like drv pattern (dm_Content m)]"

definition SearchMessages :: "driver \<Rightarrow> Database \<Rightarrow> string \<Rightarrow> int \<Rightarrow> DBMessageExt list res" where
  "SearchMessages drv d query limit =
     (let limit' = (if limit \<le> 0 \<or> limit > 200 then 50 else limit);
          searchPattern = ''%'' @ query @ ''%''
      in message_page drv (SelSearch query) limit' (search_rows drv d searchPattern))"

section \<open>Lemmas\<close>

lemma insert_message_db_ok:
  "insert_message drv f t g c ty d = Inr (i, d') \<Longrightarrow>
   fk_on drv (InsMessage f t g ty) \<or> f \<in> set (user_ids d)
     \<and> (\<forall>j. t = Some j \<longrightarrow> j \<in> set (user_ids d)) \<and> (\<forall>j. g = Some j \<longrightarrow> j \<in> set (group_ids d)) \<Longrightarrow>
   db_ok d \<Longrightarrow> db_ok d'"
  unfolding db_ok_def
  by (intro conjI insert_message_keys [of drv f t g c ty d i d'] insert_message_refs [of drv f t g c ty d i d'])
    (auto elim: insert_messageE)

lemma SaveMessage_db_ok:
  assumes "db_ok d"
    and "fk_enforced drv \<or> f \<in> set (user_ids d)
     \<and> (\<forall>j. t = Some j \<longrightarrow> j \<in> set (user_ids d)) \<and> (\<forall>j. g = Some j \<longrightarrow> j \<in> set (group_ids d))"
  shows "db_ok (snd (SaveMessage drv f t g c ty d))"
  using assms insert_message_db_ok [of drv f t g c ty d]
  by (auto simp: SaveMessage_def fk_enforced_def split: sum.splits option.splits)

lemma SaveMessage_users [simp]:
  "db_users (snd (SaveMessage drv f t g c ty d)) = db_users d"
  "db_groups (snd (SaveMessage drv f t g c ty d)) = db_groups d"
  "db_members (snd (SaveMessage drv f t g c ty d)) = db_members d"
  "db_friends (snd (SaveMessage drv f t g c ty d)) = db_friends d"
  by (auto simp: SaveMessage_def split: sum.splits option.splits elim!: insert_messageE)

lemma SaveMessage_InrE:
  assumes "SaveMessage drv f t g c ty d = (Inr m, d')"
  obtains m' where "db_messages d' = db_messages d @ [m']" "dm_ID m' = dm_ID m" "dm_ID m > seq_messages d"
    "dm_FromID m' = f" "dm_ToID m' = t" "dm_GroupID m' = g" "dm_Content m' = c" "dm_Type m' = ty"
    "dm_CreatedAt m' = db_time drv" "db_users d' = db_users d" "db_groups d' = db_groups d"
    "ty \<in> {''public'', ''private'', ''group''}"
proof -
  from assms have "insert_message drv f t g c ty d = Inr (dm_ID m, d')"
    by (auto simp: SaveMessage_def split: sum.splits option.splits)
  then show thesis
    by (rule insert_messageE)
      (rule that [of "\<lparr>dm_ID = dm_ID m, dm_FromID = f, dm_ToID = t, dm_GroupID = g, dm_Content = c,
         dm_Type = ty, dm_CreatedAt = db_time drv\<rparr>"], simp_all)
qed

lemma plain_message_page:
  "\<exists>page. message_page (plain_driver t) st limit rows = Inr page"
  by (cases "sql_limit limit (newest_first (rows_msg (plain_driver t) st rows))")
    (simp_all add: message_page_def scan_rows_def)

text \<open>A page: what \<^verbatim>\<open>ORDER BY created_at DESC LIMIT n\<close> makes of the selected rows.\<close>

definition is_page :: "int \<Rightarrow> DBMessageExt list \<Rightarrow> DBMessageExt list \<Rightarrow> bool" where
  "is_page limit rows page =
     ((\<exists>rest. mset rows = mset page + rest
         \<and> (\<forall>m \<in> set page. \<forall>r \<in># rest. mx_CreatedAt m \<ge> mx_CreatedAt r)
         \<and> (rest \<noteq> {#} \<longrightarrow> int (length page) = limit))
      \<and> (limit \<ge> 0 \<longrightarrow> int (length page) \<le> limit)
      \<and> sorted_wrt (\<lambda>a b. mx_CreatedAt a \<ge> mx_CreatedAt b) page)"

lemma sorted_wrt_take_drop:
  "sorted_wrt P xs \<Longrightarrow> x \<in> set (take n xs) \<Longrightarrow> y \<in> set (drop n xs) \<Longrightarrow> P x y"
  by (metis append_take_drop_id sorted_wrt_append)

lemma message_page_is_page:
  assumes "delivers_all drv" "message_page drv st limit rows = Inr page"
  shows "is_page limit rows page"
proof -
  let ?r = "newest_first (rows_msg drv st rows)"
  have sorted: "sorted_wrt (\<lambda>a b. mx_CreatedAt a \<ge> mx_CreatedAt b) ?r"
    using sorted_sort_key [of "\<lambda>m. - mx_CreatedAt m" "rows_msg drv st rows"] by (simp add: newest_first_def sorted_map)
  have rows: "mset ?r = mset rows"
    using assms(1) by (simp add: delivers_all_def any_order_def newest_first_def)
  have page: "page = sql_limit limit ?r"
    using assms(2) by (auto simp: message_page_def split: option.splits dest: scan_rows_InrD)
  show ?thesis
  proof (cases "limit < 0")
    case True
    then show ?thesis
      using page rows sorted by (auto simp: is_page_def sql_limit_def intro!: exI [of _ "{#}"])
  next
    case False
    let ?rest = "mset (drop (nat limit) ?r)"
    have "mset rows = mset page + ?rest"
      using page False rows by (simp add: sql_limit_def flip: mset_append)
    moreover have "\<forall>m \<in> set page. \<forall>r \<in># ?rest. mx_CreatedAt m \<ge> mx_CreatedAt r"
      using page False sorted_wrt_take_drop [OF sorted] by (fastforce simp: sql_limit_def)
    moreover have "?rest \<noteq> {#} \<longrightarrow> int (length page) = limit" "int (length page) \<le> limit"
      using page False by (auto simp: sql_limit_def)
    moreover have "sorted_wrt (\<lambda>a b. mx_CreatedAt a \<ge> mx_CreatedAt b) page"
      using page False sorted by (simp add: sql_limit_def sorted_wrt_take)
    ultimately show ?thesis using False by (auto simp: is_page_def)
  qed
qed

lemma page_subset: "is_page limit rows page \<Longrightarrow> set page \<subseteq> set rows"
  unfolding is_page_def by (metis mset_subset_eq_add_left set_mset_mono set_mset_mset)

lemma page_full: "is_page limit rows page \<Longrightarrow> limit < 0 \<or> int (length rows) \<le> limit \<Longrightarrow> mset page = mset rows"
proof -
  assume p: "is_page limit rows page" and l: "limit < 0 \<or> int (length rows) \<le> limit"
  then obtain rest where rest: "mset rows = mset page + rest" "rest \<noteq> {#} \<longrightarrow> int (length page) = limit"
    by (auto simp: is_page_def)
  from rest(1) have "length rows = length page + size rest" by (metis size_mset size_union)
  with l rest(2) have "rest = {#}" by (cases "rest = {#}") (auto simp: nonempty_has_size)
  with rest(1) show ?thesis by simp
qed

lemma private_rows_pair:
  "r \<in> set (private_rows d a b before) \<Longrightarrow>
   mx_Type r = ''private'' \<and> {mx_From r, mx_To r} = {a, b} \<and> before_ok before (mx_ID r)"
  by (auto simp: private_rows_def message_row_def split: if_splits)

lemma private_rows_swap: "private_rows d a b before = private_rows d b a before"
proof -
  have "(x = a \<and> y = b \<or> x = b \<and> y = a) = (x = b \<and> y = a \<or> x = a \<and> y = b)" for x y :: string
    by blast
  then show ?thesis by (simp only: private_rows_def)
qed

section \<open>Properties\<close>

text \<open>
  C32. A history page of the public chat is a true page: every row is a public message with an id
  below the cursor, none is there more often than the query selects it, they come newest first and
  are at most \<open>limit\<close>; and a message of the public chat below the cursor that is not on the page is not
  newer than any message of the page, and is left out only when the page is full.
\<close>

theorem public_history_page:
  assumes "delivers_all drv" "GetPublicMessages drv d limit before = Inr page"
  shows "sorted_wrt (\<lambda>a b. mx_CreatedAt a \<ge> mx_CreatedAt b) page \<and> (limit \<ge> 0 \<longrightarrow> int (length page) \<le> limit)
    \<and> mset page \<subseteq># mset (public_rows d before)
    \<and> (\<forall>r \<in> set page. mx_Type r = ''public'' \<and> (before > 0 \<longrightarrow> mx_ID r < before)
         \<and> (\<exists>m \<in> set (db_messages d). \<exists>u \<in> set (db_users d). dm_ID m = mx_ID r \<and> dm_Type m = ''public''
              \<and> dm_FromID m = du_ID u \<and> mx_From r = du_Username u \<and> mx_Content r = dm_Content m
              \<and> mx_CreatedAt r = dm_CreatedAt m))
    \<and> (\<forall>m \<in> set (db_messages d). \<forall>u \<in> set (db_users d). dm_FromID m = du_ID u \<and> dm_Type m = ''public''
         \<and> (before > 0 \<longrightarrow> dm_ID m < before) \<longrightarrow>
           (\<exists>r \<in> set page. mx_ID r = dm_ID m \<and> mx_From r = du_Username u \<and> mx_Content r = dm_Content m)
           \<or> int (length page) = limit \<and> (\<forall>r \<in> set page. mx_CreatedAt r \<ge> dm_CreatedAt m))"
proof -
  have page: "is_page limit (public_rows d before) page"
    using assms message_page_is_page by (simp add: GetPublicMessages_def)
  then obtain rest where rest: "mset (public_rows d before) = mset page + rest"
    "\<forall>m \<in> set page. \<forall>r \<in># rest. mx_CreatedAt m \<ge> mx_CreatedAt r" "rest \<noteq> {#} \<longrightarrow> int (length page) = limit"
    by (auto simp: is_page_def)
  have row: "mx_Type r = ''public'' \<and> (before > 0 \<longrightarrow> mx_ID r < before)
      \<and> (\<exists>m \<in> set (db_messages d). \<exists>u \<in> set (db_users d). dm_ID m = mx_ID r \<and> dm_Type m = ''public''
           \<and> dm_FromID m = du_ID u \<and> mx_From r = du_Username u \<and> mx_Content r = dm_Content m
           \<and> mx_CreatedAt r = dm_CreatedAt m)"
    if "r \<in> set (public_rows d before)" for r
    using that by (force simp: public_rows_def message_row_def before_ok_def split: if_splits)
  have all: "(\<exists>r \<in> set page. mx_ID r = dm_ID m \<and> mx_From r = du_Username u \<and> mx_Content r = dm_Content m)
      \<or> int (length page) = limit \<and> (\<forall>r \<in> set page. mx_CreatedAt r \<ge> dm_CreatedAt m)"
    if "m \<in> set (db_messages d)" "u \<in> set (db_users d)" "dm_FromID m = du_ID u" "dm_Type m = ''public''"
      "before > 0 \<longrightarrow> dm_ID m < before" for m u
  proof -
    let ?r = "message_row m u [] []"
    have "?r \<in> set (public_rows d before)" using that by (auto simp: public_rows_def before_ok_def)
    then have "?r \<in> set page \<or> ?r \<in># rest" using rest(1) by (metis set_mset_mset union_iff)
    then show ?thesis
    proof
      assume "?r \<in> set page"
      then show ?thesis by (intro disjI1 bexI [of _ ?r]) (simp_all add: message_row_def)
    next
      assume "?r \<in># rest"
      moreover have "mx_CreatedAt ?r = dm_CreatedAt m" by (simp add: message_row_def)
      ultimately show ?thesis using rest(2,3) by fastforce
    qed
  qed
  have "mset page \<subseteq># mset (public_rows d before)" using rest(1) by simp
  then show ?thesis using page page_subset [OF page] row all unfolding is_page_def by blast
qed

definition chat_db :: Database where
  "chat_db = demo_db\<lparr>db_messages :=
     [\<lparr>dm_ID = 1, dm_FromID = 1, dm_ToID = None, dm_GroupID = None, dm_Content = ''one'',
        dm_Type = ''public'', dm_CreatedAt = 10\<rparr>,
      \<lparr>dm_ID = 2, dm_FromID = 1, dm_ToID = Some 2, dm_GroupID = None, dm_Content = ''psst'',
        dm_Type = ''private'', dm_CreatedAt = 11\<rparr>,
      \<lparr>dm_ID = 3, dm_FromID = 2, dm_ToID = None, dm_GroupID = None, dm_Content = ''three'',
        dm_Type = ''public'', dm_CreatedAt = 12\<rparr>], seq_messages := 3\<rparr>"

theorem public_history_page_witness:
  "\<exists>page. GetPublicMessages (plain_driver 20) chat_db 1 0 = Inr page
     \<and> map mx_Content page = [''three''] \<and> mset page \<subseteq># mset (public_rows chat_db 0)"
proof -
  obtain page where page: "GetPublicMessages (plain_driver 20) chat_db 1 0 = Inr page"
    "map mx_Content page = [''three'']"
    by (simp add: GetPublicMessages_def message_page_def newest_first_def public_rows_def chat_db_def demo_db_def
        scan_rows_def sql_limit_def message_row_def before_ok_def)
  then show ?thesis
    using public_history_page [OF plain_driver_ok(1) page(1)] by (intro exI [of _ page] conjI) simp_all
qed

text \<open>
  C10. Private history is private to the pair: what \<^verbatim>\<open>GetPrivateMessages\<close> returns for two users
  are private messages from one of them to the other and nothing else, and both see the same
  conversation when the limit does not cut it.
\<close>

theorem private_history_pair:
  assumes "delivers_all drv"
    and "GetPrivateMessages drv d a b limit before = Inr page"
    and "GetPrivateMessages drv d b a limit before = Inr page'"
  shows "(\<forall>r \<in> set page. mx_Type r = ''private'' \<and> {mx_From r, mx_To r} = {a, b})
    \<and> (limit < 0 \<or> int (length (private_rows d a b before)) \<le> limit \<longrightarrow> mset page = mset page')"
proof -
  have p: "is_page limit (private_rows d a b before) page"
    and p': "is_page limit (private_rows d a b before) page'"
    using assms message_page_is_page private_rows_swap [of d b a before]
    by (auto simp: GetPrivateMessages_def)
  have "\<forall>r \<in> set page. mx_Type r = ''private'' \<and> {mx_From r, mx_To r} = {a, b}"
    using page_subset [OF p] private_rows_pair by blast
  with page_full [OF p] page_full [OF p'] show ?thesis by simp
qed

theorem private_history_pair_witness:
  "\<exists>page page'. GetPrivateMessages (plain_driver 20) chat_db ''alice'' ''bob'' 5 0 = Inr page
     \<and> GetPrivateMessages (plain_driver 20) chat_db ''bob'' ''alice'' 5 0 = Inr page'
     \<and> map mx_Content page = [''psst''] \<and> mset page = mset page'"
proof -
  obtain page page' where page: "GetPrivateMessages (plain_driver 20) chat_db ''alice'' ''bob'' 5 0 = Inr page"
    and page': "GetPrivateMessages (plain_driver 20) chat_db ''bob'' ''alice'' 5 0 = Inr page'"
    and c: "map mx_Content page = [''psst'']"
    by (simp add: GetPrivateMessages_def message_page_def newest_first_def private_rows_def chat_db_def demo_db_def
        scan_rows_def sql_limit_def message_row_def before_ok_def)
  have "length (private_rows chat_db ''alice'' ''bob'' 0) = 1"
    by (simp add: private_rows_def chat_db_def demo_db_def before_ok_def)
  with private_history_pair [OF plain_driver_ok(1) page page'] page page' c show ?thesis by auto
qed

text \<open>
  A message that was saved can be read back: after a successful \<^verbatim>\<open>SaveMessage\<close> of a private
  message between two existing users, an uncut history of the pair contains it, with its
  id, content and sender.
\<close>

theorem saved_private_message_read:
  assumes "delivers_all drv" "keys_ok d"
    and "u \<in> set (db_users d)" "v \<in> set (db_users d)"
    and "SaveMessage drv (du_ID u) (Some (du_ID v)) None c ''private'' d = (Inr m, d')"
    and "GetPrivateMessages drv d' (du_Username v) (du_Username u) (-1) 0 = Inr page"
  shows "\<exists>r \<in> set page. mx_ID r = dm_ID m \<and> mx_Content r = c \<and> mx_From r = du_Username u
    \<and> mx_To r = du_Username v"
proof -
  from assms(5) obtain m' where m': "db_messages d' = db_messages d @ [m']" "dm_ID m' = dm_ID m"
    "dm_FromID m' = du_ID u" "dm_ToID m' = Some (du_ID v)" "dm_Content m' = c" "dm_Type m' = ''private''"
    "db_users d' = db_users d"
    by (auto elim: SaveMessage_InrE)
  let ?r = "message_row m' u (du_Username v) []"
  have "?r \<in> set (private_rows d' (du_Username v) (du_Username u) 0)"
    unfolding private_rows_def in_join using m' assms(3,4) by (auto simp: before_ok_def)
  moreover have "mset page = mset (private_rows d' (du_Username v) (du_Username u) 0)"
    using page_full message_page_is_page assms(1,6) by (fastforce simp: GetPrivateMessages_def)
  ultimately have "?r \<in> set page" by (metis mset_eq_setD)
  then show ?thesis using m' by (intro bexI [of _ ?r]) (auto simp: message_row_def)
qed

theorem saved_private_message_read_witness:
  "\<exists>m page. fst (SaveMessage (plain_driver 20) 1 (Some 2) None ''hi'' ''private'' chat_db) = Inr m
     \<and> GetPrivateMessages (plain_driver 20)
         (snd (SaveMessage (plain_driver 20) 1 (Some 2) None ''hi'' ''private'' chat_db))
         ''bob'' ''alice'' (-1) 0 = Inr page
     \<and> (\<exists>r \<in> set page. mx_ID r = dm_ID m \<and> mx_Content r = ''hi'')"
proof -
  let ?u = "hd (db_users chat_db)" and ?v = "hd (tl (db_users chat_db))"
  let ?s = "SaveMessage (plain_driver 20) (du_ID ?u) (Some (du_ID ?v)) None ''hi'' ''private'' chat_db"
  have ids: "du_ID ?u = 1" "du_ID ?v = 2" "du_Username ?u = ''alice''" "du_Username ?v = ''bob''"
    "?u \<in> set (db_users chat_db)" "?v \<in> set (db_users chat_db)" "keys_ok chat_db"
    by (simp_all add: chat_db_def demo_db_def empty_db_def keys_ok_def db_ids_defs)
  obtain m where m: "?s = (Inr m, snd ?s)"
    by (simp add: SaveMessage_def insert_message_def chat_db_def demo_db_def db_ids_defs Let_def)
  obtain page where page:
    "GetPrivateMessages (plain_driver 20) (snd ?s) (du_Username ?v) (du_Username ?u) (-1) 0 = Inr page"
    unfolding GetPrivateMessages_def using plain_message_page by blast
  from saved_private_message_read [OF plain_driver_ok(1) ids(7,5,6) m page] m page
  show ?thesis unfolding ids by (metis fst_conv)
qed

end
