(* ===== verification/Db_Friends.thy ===== *)
theory Db_Friends
  imports Db_Messages
begin

text \<open>
  The friend operations of \<^verbatim>\<open>internal/db/db.go\<close>, with their transactions: the statements
  between \<^verbatim>\<open>Begin\<close> and \<^verbatim>\<open>Commit\<close> work on a copy of the tables that is kept only if the commit
  succeeds; every early return rolls back.  The invariant is that friendship is symmetric
  and irreflexive.  At the end all writing operations of the storage layer are put together
  as one step relation, whose reachable states satisfy the consistency conditions, with and without
  foreign keys that are checked.
\<close>

section \<open>The operations\<close>

text \<open>\<^verbatim>\<open>SELECT id FROM users WHERE id = ?\<close>; the argument is the text for no row.\<close>

definition check_user_id :: "driver \<Rightarrow> Database \<Rightarrow> int \<Rightarrow> string \<Rightarrow> unit res" where
  "check_user_id drv d i missing =
     (case stmt_fault drv (SelUserId i) of
        Some e \<Rightarrow> Inl (''database error: '' @ e)
      | None \<Rightarrow> if i \<in> set (user_ids d) then Inr () else Inl missing)"

definition AddFriend :: "driver \<Rightarrow> int \<Rightarrow> int \<Rightarrow> Database \<Rightarrow> unit res \<times> Database" where
  "AddFriend drv userID friendID d =
     (if userID = friendID then (Inl ''cannot add yourself as friend'', d)
      else
        (case check_user_id drv d userID ''user not found'' of
           Inl e \<Rightarrow> (Inl e, d)
         | Inr _ \<Rightarrow>
        (case check_user_id drv d friendID ''friend not found'' of
           Inl e \<Rightarrow> (Inl e, d)
         | Inr _ \<Rightarrow>
        (case stmt_fault drv BeginTx of
           Some e \<Rightarrow> (Inl (''failed to begin transaction: '' @ e), d)
         | None \<Rightarrow>
        (case insert_friend drv userID friendID d of
           Inl e \<Rightarrow> (Inl (''failed to add friend: '' @ sql_text drv e), d)
         | Inr d1 \<Rightarrow>
        (case insert_friend drv friendID userID d1 of
           Inl e \<Rightarrow> (Inl (''failed to add reverse friend: '' @ sql_text drv e), d)
         | Inr d2 \<Rightarrow>
        (case stmt_fault drv CommitTx of
           Some e \<Rightarrow> (Inl (''failed to commit: '' @ e), d)
         | None \<Rightarrow> (Inr (), d2))))))))"

definition delete_friend :: "int \<Rightarrow> int \<Rightarrow> Database \<Rightarrow> Database" where
  "delete_friend uid fid d =
     d\<lparr>db_friends := filter (\<lambda>f. \<not> (fr_user_id f = uid \<and> fr_friend_id f = fid)) (db_friends d)\<rparr>"

text \<open>The rows a DELETE reports; an error of \<^verbatim>\<open>RowsAffected\<close> is ignored and counts as none.\<close>

definition rows_deleted :: "driver \<Rightarrow> int \<Rightarrow> int \<Rightarrow> Database \<Rightarrow> nat" where
  "rows_deleted drv uid fid d =
     (case stmt_fault drv (AffFriend uid fid) of
        Some _ \<Rightarrow> 0
      | None \<Rightarrow> length (filter (\<lambda>f. fr_user_id f = uid \<and> fr_friend_id f = fid) (db_friends d)))"

fun delete_pairs :: "driver \<Rightarrow> (int \<times> int) list \<Rightarrow> Database \<Rightarrow> Database res" where
  "delete_pairs drv [] d = Inr d"
| "delete_pairs drv ((uid, fid) # ps) d =
     (case stmt_fault drv (DelFriend uid fid) of
        Some e \<Rightarrow> Inl (''failed to remove friend: '' @ e)
      | None \<Rightarrow>
          if rows_deleted drv uid fid d = 0 then Inl ''friend not found''
          else delete_pairs drv ps (delete_friend uid fid d))"

definition RemoveFriend :: "driver \<Rightarrow> int \<Rightarrow> int \<Rightarrow> Database \<Rightarrow> unit res \<times> Database" where
  "RemoveFriend drv userID friendID d =
     (case stmt_fault drv BeginTx of
        Some e \<Rightarrow> (Inl (''failed to begin transaction: '' @ e), d)
      | None \<Rightarrow>
     (case delete_pairs drv [(userID, friendID), (friendID, userID)] d of
        Inl e \<Rightarrow> (Inl e, d)
      | Inr d' \<Rightarrow>
     (case stmt_fault drv CommitTx of
        Some e \<Rightarrow> (Inl (''failed to commit: '' @ e), d)
      | None \<Rightarrow> (Inr (), d'))))"

definition GetFriends :: "driver \<Rightarrow> Database \<Rightarrow> int \<Rightarrow> UserPublic list res" where
  "GetFriends drv d userID =
     (case stmt_fault drv (SelFriends userID) of
        Some e \<Rightarrow> Inl (''database error: '' @ e)
      | None \<Rightarrow>
          scan_rows drv (SelFriends userID) ''failed to scan user: ''
            (rows_user drv (SelFriends userID)
               [to_public u. u \<leftarrow> db_users d, f \<leftarrow> db_friends d,
                  du_ID u = fr_friend_id f \<and> fr_user_id f = userID \<and> fr_status f = ''accepted'']))"

definition IsFriend :: "driver \<Rightarrow> Database \<Rightarrow> int \<Rightarrow> int \<Rightarrow> bool res" where
  "IsFriend drv d userID friendID =
     (case stmt_fault drv (SelIsFriend userID friendID) of
        Some e \<Rightarrow> Inl (''database error: '' @ e)
      | None \<Rightarrow>
          Inr (\<exists>f \<in> set (db_friends d). fr_user_id f = userID \<and> fr_friend_id f = friendID
                 \<and> fr_status f = ''accepted''))"

section \<open>The storage layer as a whole\<close>

datatype db_op =
    DoRegister string string string
  | DoAvatar string string
  | DoProfile string string string
  | DoCreateGroup string int string
  | DoJoin string int
  | DoLeave string int
  | DoSave int "int option" "int option" string string
  | DoAddFriend int int
  | DoRemoveFriend int int

fun db_exec :: "driver \<Rightarrow> db_op \<Rightarrow> Database \<Rightarrow> Database" where
  "db_exec drv (DoRegister n p a) d = snd (RegisterUser drv n p a d)"
| "db_exec drv (DoAvatar n a) d = snd (UpdateUserAvatar drv n a d)"
| "db_exec drv (DoProfile n g s) d = snd (UpdateUserProfile drv n g s d)"
| "db_exec drv (DoCreateGroup n c s) d = snd (CreateGroup drv n c s d)"
| "db_exec drv (DoJoin n u) d = snd (JoinGroup drv n u d)"
| "db_exec drv (DoLeave n u) d = snd (LeaveGroup drv n u d)"
| "db_exec drv (DoSave f t g c ty) d = snd (SaveMessage drv f t g c ty d)"
| "db_exec drv (DoAddFriend u f) d = snd (AddFriend drv u f d)"
| "db_exec drv (DoRemoveFriend u f) d = snd (RemoveFriend drv u f d)"

text \<open>
  The ids an operation is given, and does not look up itself, belong to rows of the tables.  The server
  takes them from rows that it has just read.
\<close>

fun known_ids :: "db_op \<Rightarrow> Database \<Rightarrow> bool" where
  "known_ids (DoCreateGroup n c s) d = (c \<in> set (user_ids d))"
| "known_ids (DoJoin n u) d = (u \<in> set (user_ids d))"
| "known_ids (DoSave f t g c ty) d =
     (f \<in> set (user_ids d) \<and> (\<forall>j. t = Some j \<longrightarrow> j \<in> set (user_ids d)) \<and> (\<forall>j. g = Some j \<longrightarrow> j \<in> set (group_ids d)))"
| "known_ids p d = True"

text \<open>
  The states the storage can be in: what opening an empty file gives, then any operations, each with
  its own faults, row orders and clocks, and on connections that check foreign keys or do not.
  With \<open>checked\<close>, only operations happen that are given known ids or whose connection checks them.
\<close>

inductive db_reachable :: "bool \<Rightarrow> Database \<Rightarrow> bool" for checked :: bool where
  opened: "InitDatabase drv empty_db = Inr d \<Longrightarrow> db_reachable checked d"
| op: "db_reachable checked d \<Longrightarrow> checked \<longrightarrow> fk_enforced drv \<or> known_ids p d \<Longrightarrow>
    db_reachable checked (db_exec drv p d)"

section \<open>Lemmas\<close>

lemma friend_pairs_image: "friend_pairs d = (\<lambda>f. (fr_user_id f, fr_friend_id f)) ` set (db_friends d)"
  by (auto simp: friend_pairs_def)

lemma insert_friend_pairs:
  "insert_friend drv u f d = Inr d' \<Longrightarrow> friend_pairs d' = insert (u, f) (friend_pairs d)"
  by (auto simp: friend_pairs_image elim!: insert_friendE)

lemma insert_friend_status:
  "insert_friend drv u f d = Inr d' \<Longrightarrow> \<forall>x \<in> set (db_friends d). fr_status x = ''accepted'' \<Longrightarrow>
   \<forall>x \<in> set (db_friends d'). fr_status x = ''accepted''"
  by (auto elim!: insert_friendE)

lemma insert_friend_users: "insert_friend drv u f d = Inr d' \<Longrightarrow> user_ids d' = user_ids d"
  by (auto simp: user_ids_def elim!: insert_friendE)

text \<open>All that a call of \<^verbatim>\<open>AddFriend\<close> can do: nothing, or both directions.\<close>

lemma AddFriend_cases:
  obtains e where "AddFriend drv u f d = (Inl e, d)"
  | d1 d2 where "AddFriend drv u f d = (Inr (), d2)" "u \<noteq> f" "u \<in> set (user_ids d)" "f \<in> set (user_ids d)"
      "insert_friend drv u f d = Inr d1" "insert_friend drv f u d1 = Inr d2"
proof (cases "AddFriend drv u f d")
  case (Pair r d')
  then show ?thesis
    using that
    by (auto simp: AddFriend_def check_user_id_def split: if_splits option.splits sum.splits)
qed

lemma delete_friend_pairs: "friend_pairs (delete_friend u f d) = friend_pairs d - {(u, f)}"
  by (auto simp: friend_pairs_def delete_friend_def)

lemma RemoveFriend_cases:
  obtains e where "RemoveFriend drv u f d = (Inl e, d)"
  | "RemoveFriend drv u f d = (Inr (), delete_friend f u (delete_friend u f d))"
      "(u, f) \<in> friend_pairs d" "(f, u) \<in> friend_pairs d" "u \<noteq> f"
proof (cases "RemoveFriend drv u f d")
  case (Pair r d')
  have rows: "(a, b) \<in> friend_pairs x" if "rows_deleted drv a b x \<noteq> 0" for a b x
    using that by (force simp: rows_deleted_def friend_pairs_def filter_empty_conv split: option.splits)
  show ?thesis
    using Pair that rows [of u f d] rows [of f u "delete_friend u f d"]
    by (auto simp: RemoveFriend_def delete_friend_pairs split: if_splits option.splits sum.splits)
qed

lemma delete_friend_db_ok: "db_ok d \<Longrightarrow> db_ok (delete_friend f u (delete_friend u f d))"
proof -
  assume ok: "db_ok d"
  have "keys_ok (delete_friend a b x)" "refs_ok (delete_friend a b x)"
    if "keys_ok x" "refs_ok x" for a b x
    using that by (auto simp: delete_friend_def keys_ok_def refs_ok_def db_ids_defs distinct_map inj_on_def)
  moreover have "friends_ok (delete_friend f u (delete_friend u f d))"
    using ok unfolding db_ok_def friends_ok_def delete_friend_pairs
    by (auto simp: sym_def irrefl_def delete_friend_def)
  ultimately show ?thesis using ok by (simp add: db_ok_def)
qed

lemma AddFriend_db_ok: "db_ok d \<Longrightarrow> db_ok (snd (AddFriend drv u f d))"
proof (cases rule: AddFriend_cases [of drv u f d])
  case (2 d1 d2)
  assume ok: "db_ok d"
  have "keys_ok d2" "refs_ok d2"
    using 2 ok insert_friend_keys insert_friend_refs insert_friend_users [OF 2(5)]
    unfolding db_ok_def by metis+
  moreover have "friends_ok d2"
    using ok 2(2) insert_friend_pairs [OF 2(5)] insert_friend_pairs [OF 2(6)]
      insert_friend_status [OF 2(6) insert_friend_status [OF 2(5)]]
    by (auto simp: db_ok_def friends_ok_def sym_def irrefl_def)
  ultimately show ?thesis using 2(1) by (simp add: db_ok_def)
qed simp

lemma RemoveFriend_db_ok: "db_ok d \<Longrightarrow> db_ok (snd (RemoveFriend drv u f d))"
  by (cases rule: RemoveFriend_cases [of drv u f d]) (simp_all add: delete_friend_db_ok)

lemmas db_ops_ok = RegisterUser_db_ok UpdateUserAvatar_db_ok UpdateUserProfile_db_ok CreateGroup_db_ok
  JoinGroup_db_ok LeaveGroup_db_ok SaveMessage_db_ok AddFriend_db_ok RemoveFriend_db_ok

lemma db_exec_ok: "db_ok d \<Longrightarrow> fk_enforced drv \<or> known_ids p d \<Longrightarrow> db_ok (db_exec drv p d)"
  by (cases p) (auto simp: db_ops_ok simp del: split_paired_All)

subsection \<open>What holds without foreign keys\<close>

text \<open>
  What UNIQUE, AUTOINCREMENT, CHECK and the code itself maintain: the keys, the friendship relation,
  and the references that the operations look up before they insert.
\<close>

definition base_ok :: "Database \<Rightarrow> bool" where
  "base_ok d =
     (keys_ok d \<and> friends_ok d
      \<and> (\<forall>f \<in> set (db_friends d). fr_user_id f \<in> set (user_ids d) \<and> fr_friend_id f \<in> set (user_ids d))
      \<and> (\<forall>m \<in> set (db_members d). gm_group_id m \<in> set (group_ids d))
      \<and> (\<forall>m \<in> set (db_messages d). dm_Type m \<in> {''public'', ''private'', ''group''}))"

lemma db_ok_base: "db_ok d \<Longrightarrow> base_ok d"
  by (auto simp: db_ok_def base_ok_def refs_ok_def)

lemma insert_user_base: "insert_user drv ig n p a g s d = Inr d' \<Longrightarrow> base_ok d \<Longrightarrow> base_ok d'"
  using insert_user_keys [of drv ig n p a g s d d']
  by (auto simp: base_ok_def friends_ok_def friend_pairs_def db_ids_defs elim!: insert_userE)

lemma insert_group_base: "insert_group drv n c s d = Inr (i, d') \<Longrightarrow> base_ok d \<Longrightarrow> base_ok d' \<and> i \<in> set (group_ids d')"
  using insert_group_keys [of drv n c s d i d']
  by (auto simp: base_ok_def db_ids_defs elim!: insert_groupE)

lemma insert_member_base:
  "insert_member drv ig g u d = Inr d' \<Longrightarrow> g \<in> set (group_ids d) \<Longrightarrow> base_ok d \<Longrightarrow> base_ok d'"
  using insert_member_keys [of drv ig g u d d']
  by (auto simp: base_ok_def db_ids_defs elim!: insert_memberE)

lemma insert_message_base: "insert_message drv f t g c ty d = Inr (i, d') \<Longrightarrow> base_ok d \<Longrightarrow> base_ok d'"
  using insert_message_keys [of drv f t g c ty d i d']
  by (auto simp: base_ok_def db_ids_defs elim!: insert_messageE)

lemma users_base:
  assumes "base_ok d" "map du_ID us = user_ids d" "map du_Username us = map du_Username (db_users d)"
  shows "base_ok (d\<lparr>db_users := us\<rparr>)"
  using assms by (simp add: base_ok_def keys_ok_def friends_ok_def friend_pairs_def db_ids_defs)

lemma account_ops_base:
  "base_ok d \<Longrightarrow> base_ok (snd (RegisterUser drv n p a d))"
  "base_ok d \<Longrightarrow> base_ok (snd (UpdateUserAvatar drv n a d))"
  "base_ok d \<Longrightarrow> base_ok (snd (UpdateUserProfile drv n g s d))"
  by (auto simp: RegisterUser_def UpdateUserAvatar_def UpdateUserProfile_def db_ids_defs
      split: sum.splits option.splits sql_err.splits intro!: users_base dest: insert_user_base)

lemma group_ops_base:
  "base_ok d \<Longrightarrow> base_ok (snd (CreateGroup drv n c s d))"
  "base_ok d \<Longrightarrow> base_ok (snd (JoinGroup drv n u d))"
  "base_ok d \<Longrightarrow> base_ok (snd (LeaveGroup drv n u d))"
proof -
  assume ok: "base_ok d"
  show "base_ok (snd (CreateGroup drv n c s d))"
    using ok by (auto simp: CreateGroup_def split: sum.splits option.splits sql_err.splits
        dest: insert_group_base insert_member_base)
  have "i \<in> set (group_ids d)" if "group_id_of drv d n = Inr i" for i
    using group_id_of_InrD [OF that] by (auto simp: group_ids_def)
  then show "base_ok (snd (JoinGroup drv n u d))"
    using ok by (auto simp: JoinGroup_def split: sum.splits dest: insert_member_base)
  have "base_ok (d\<lparr>db_members := filter P (db_members d)\<rparr>)" for P
    using ok by (auto simp: base_ok_def keys_ok_def db_ids_defs distinct_map inj_on_def)
  then show "base_ok (snd (LeaveGroup drv n u d))"
    using ok by (auto simp: LeaveGroup_def Let_def split: sum.splits option.splits)
qed

lemma SaveMessage_base: "base_ok d \<Longrightarrow> base_ok (snd (SaveMessage drv f t g c ty d))"
  by (auto simp: SaveMessage_def split: sum.splits option.splits dest: insert_message_base)

lemma insert_friend_rest:
  "insert_friend drv u f d = Inr d' \<Longrightarrow> db_members d' = db_members d \<and> db_messages d' = db_messages d
     \<and> user_ids d' = user_ids d \<and> group_ids d' = group_ids d"
  by (auto simp: db_ids_defs elim!: insert_friendE)

lemma friend_refs_pairs:
  "(\<forall>f \<in> set (db_friends d). fr_user_id f \<in> A \<and> fr_friend_id f \<in> A) \<longleftrightarrow> friend_pairs d \<subseteq> A \<times> A"
  by (auto simp: friend_pairs_def)

lemma AddFriend_base:
  assumes "base_ok d"
  shows "base_ok (snd (AddFriend drv u f d))"
proof (cases rule: AddFriend_cases [of drv u f d])
  case (2 d1 d2)
  have "keys_ok d2" using assms insert_friend_keys [OF 2(5)] insert_friend_keys [OF 2(6)] by (simp add: base_ok_def)
  moreover have "friends_ok d2"
    using assms 2(2) insert_friend_pairs [OF 2(5)] insert_friend_pairs [OF 2(6)]
      insert_friend_status [OF 2(6) insert_friend_status [OF 2(5)]]
    by (auto simp: base_ok_def friends_ok_def sym_def irrefl_def)
  moreover have "friend_pairs d2 \<subseteq> set (user_ids d2) \<times> set (user_ids d2)"
    using assms 2(3,4) insert_friend_pairs [OF 2(5)] insert_friend_pairs [OF 2(6)] insert_friend_rest [OF 2(5)]
      insert_friend_rest [OF 2(6)] unfolding base_ok_def friend_refs_pairs by auto
  ultimately show ?thesis
    using assms 2(1) insert_friend_rest [OF 2(5)] insert_friend_rest [OF 2(6)] unfolding base_ok_def friend_refs_pairs by simp
qed (use assms in simp)

lemma delete_friend_rest [simp]:
  "db_members (delete_friend a b d) = db_members d" "db_messages (delete_friend a b d) = db_messages d"
  "user_ids (delete_friend a b d) = user_ids d" "group_ids (delete_friend a b d) = group_ids d"
  by (simp_all add: delete_friend_def db_ids_defs)

lemma RemoveFriend_base:
  assumes "base_ok d"
  shows "base_ok (snd (RemoveFriend drv u f d))"
proof -
  let ?d = "delete_friend f u (delete_friend u f d)"
  have k: "keys_ok (delete_friend a b x)" if "keys_ok x" for a b x
    using that by (auto simp: delete_friend_def keys_ok_def db_ids_defs distinct_map inj_on_def)
  have "keys_ok ?d" using assms by (simp add: base_ok_def k)
  moreover have "friends_ok ?d"
    using assms unfolding base_ok_def friends_ok_def delete_friend_pairs by (auto simp: sym_def irrefl_def delete_friend_def)
  moreover have "friend_pairs ?d \<subseteq> set (user_ids ?d) \<times> set (user_ids ?d)"
    using assms unfolding base_ok_def friend_refs_pairs delete_friend_pairs by auto
  ultimately have "base_ok ?d" using assms unfolding base_ok_def friend_refs_pairs by simp
  then show ?thesis using assms by (cases rule: RemoveFriend_cases [of drv u f d]) simp_all
qed

lemma db_exec_base: "base_ok d \<Longrightarrow> base_ok (db_exec drv p d)"
  by (cases p) (simp_all add: account_ops_base group_ops_base SaveMessage_base AddFriend_base RemoveFriend_base)

lemma db_reachable_base: "db_reachable checked d \<Longrightarrow> base_ok d"
proof (induction rule: db_reachable.induct)
  case (opened drv d)
  then show ?case using InitDatabase_db_ok [of drv empty_db d] db_ok_base by simp
qed (rule db_exec_base)

lemma db_reachable_db_ok: "db_reachable True d \<Longrightarrow> db_ok d"
proof (induction rule: db_reachable.induct)
  case (opened drv d)
  then show ?case using InitDatabase_db_ok [of drv empty_db d] by simp
qed (simp add: db_exec_ok)

section \<open>Properties\<close>

text \<open>
  C6. In every state the storage can reach, whichever statements, scans and commits failed on the way and
  whether or not the connections of the pool check foreign keys: friendship is symmetric and
  irreflexive, every friend is an account, every membership is in a group that exists, names, pairs
  and ids are unique and message types are among the three.  If besides every operation was given the ids of
  existing rows, as the server does, or ran where foreign keys are checked, then all references resolve.
\<close>

theorem storage_consistent:
  assumes "db_reachable checked d"
  shows "sym (friend_pairs d) \<and> irrefl (friend_pairs d) \<and> friend_pairs d \<subseteq> set (user_ids d) \<times> set (user_ids d)
    \<and> keys_ok d \<and> (\<forall>m \<in> set (db_members d). gm_group_id m \<in> set (group_ids d))
    \<and> (\<forall>m \<in> set (db_messages d). dm_Type m \<in> {''public'', ''private'', ''group''})
    \<and> (checked \<longrightarrow> refs_ok d)"
proof -
  have "checked \<longrightarrow> refs_ok d" using db_reachable_db_ok assms by (auto simp: db_ok_def)
  then show ?thesis
    using db_reachable_base [OF assms] unfolding base_ok_def friends_ok_def friend_refs_pairs by blast
qed

text \<open>A driver on whose connections foreign keys are not checked.\<close>

definition unchecked_driver :: "int \<Rightarrow> driver" where
  "unchecked_driver t = (plain_driver t)\<lparr>fk_on := (\<lambda>_. False)\<rparr>"

theorem storage_consistent_witness:
  "\<exists>d. InitDatabase (unchecked_driver 5) empty_db = Inr d \<and> db_reachable True (db_exec (unchecked_driver 6) (DoAddFriend 1 2) d)
     \<and> sym (friend_pairs (db_exec (unchecked_driver 6) (DoAddFriend 1 2) d))
     \<and> refs_ok (db_exec (unchecked_driver 6) (DoAddFriend 1 2) d)
     \<and> (1, 2) \<in> friend_pairs (db_exec (unchecked_driver 6) (DoAddFriend 1 2) d)"
proof -
  obtain d where d: "InitDatabase (unchecked_driver 5) empty_db = Inr d" "user_ids d = [1, 2, 3]" "db_friends d = []"
    by (simp add: unchecked_driver_def InitDatabase_def createTables_def table_names_def createDefaultUsers_def default_users_def
        insert_user_def empty_db_def user_ids_def Let_def)
  have r: "db_reachable True (db_exec (unchecked_driver 6) (DoAddFriend 1 2) d)"
    using d(1) by (intro db_reachable.op db_reachable.opened) simp_all
  moreover have "(1, 2) \<in> friend_pairs (db_exec (unchecked_driver 6) (DoAddFriend 1 2) d)"
    using d by (simp add: unchecked_driver_def AddFriend_def check_user_id_def insert_friend_def friend_pairs_image user_ids_def Let_def)
  ultimately show ?thesis using storage_consistent [OF r] d(1) by blast
qed

text \<open>
  \<^verbatim>\<open>AddFriend\<close> is all or nothing: on success exactly the two directions were added, and
  on any error, including a failure of the second insert or of the commit, the tables are
  unchanged.
\<close>

theorem add_friend_atomic:
  "case AddFriend drv u f d of
     (Inr _, d') \<Rightarrow> u \<noteq> f \<and> friend_pairs d' = friend_pairs d \<union> {(u, f), (f, u)}
   | (Inl _, d') \<Rightarrow> d' = d"
  by (cases rule: AddFriend_cases [of drv u f d]) (auto simp: insert_friend_pairs)

text \<open>
  \<^verbatim>\<open>RemoveFriend\<close> is all or nothing: on success both directions existed and exactly those
  two are gone, and on any error the tables are unchanged.
\<close>

theorem remove_friend_atomic:
  "case RemoveFriend drv u f d of
     (Inr _, d') \<Rightarrow> {(u, f), (f, u)} \<subseteq> friend_pairs d \<and> friend_pairs d' = friend_pairs d - {(u, f), (f, u)}
   | (Inl _, d') \<Rightarrow> d' = d"
  by (cases rule: RemoveFriend_cases [of drv u f d]) (auto simp: delete_friend_pairs)

end
