(* ===== verification/Rate_Limiter.thy ===== *)
theory Rate_Limiter
  imports Go_Prelude
begin

text \<open>
  The rate limiter of \<^verbatim>\<open>internal/server/ratelimit.go\<close>.  \<open>Allow now rl key\<close> is one call of the
  method at time \<open>now\<close>: it returns the decision and the limiter after the call.  A second
  description, the per-key window \<open>live\<close>, says what a key's counter means to its user; the
  lemmas show that the purging of other keys' expired counters cannot be seen through it,
  and from that the bounds on what a client can get through.
\<close>

section \<open>The limiter\<close>

record rateEntry =
  re_count :: int
  re_reset :: int

record rateLimiter =
  rl_counters :: "rateEntry gomap"
  rl_limit :: int
  rl_window :: int

definition newRateLimiter :: "int \<Rightarrow> int \<Rightarrow> rateLimiter" where
  "newRateLimiter limit window = \<lparr>rl_counters = [], rl_limit = limit, rl_window = window\<rparr>"

definition Allow :: "int \<Rightarrow> rateLimiter \<Rightarrow> string \<Rightarrow> bool \<times> rateLimiter" where
  "Allow now rl key =
     (if rl_limit rl = 0 then (False, rl)
      else
        let fresh = (case map_of (rl_counters rl) key of None \<Rightarrow> True | Some e \<Rightarrow> now > re_reset e)
        in if fresh then
             (True, rl\<lparr>rl_counters :=
                AList.update key \<lparr>re_count = 1, re_reset = now + rl_window rl\<rparr>
                  (delete_where (\<lambda>k e. now > re_reset e) (rl_counters rl))\<rparr>)
           else
             (case map_of (rl_counters rl) key of
                None \<Rightarrow> (False, rl)
              | Some e \<Rightarrow>
                  (re_count e + 1 \<le> rl_limit rl,
                   rl\<lparr>rl_counters := AList.update key (e\<lparr>re_count := re_count e + 1\<rparr>) (rl_counters rl)\<rparr>)))"

text \<open>A run: the decisions of a sequence of calls, each a time and a key.\<close>

fun run_limiter :: "rateLimiter \<Rightarrow> (int \<times> string) list \<Rightarrow> bool list" where
  "run_limiter rl [] = []"
| "run_limiter rl ((t, k) # cs) = (let (d, rl') = Allow t rl k in d # run_limiter rl' cs)"

fun after_calls :: "rateLimiter \<Rightarrow> (int \<times> string) list \<Rightarrow> rateLimiter" where
  "after_calls rl [] = rl"
| "after_calls rl ((t, k) # cs) = after_calls (snd (Allow t rl k)) cs"

text \<open>How many calls for key \<open>k\<close> with a time in \<open>[a, b]\<close> were let through.\<close>

fun passed :: "rateLimiter \<Rightarrow> string \<Rightarrow> int \<Rightarrow> int \<Rightarrow> (int \<times> string) list \<Rightarrow> int" where
  "passed rl k a b [] = 0"
| "passed rl k a b ((t, k') # cs) =
     (if k' = k \<and> a \<le> t \<and> t \<le> b \<and> fst (Allow t rl k') then 1 else 0)
     + passed (snd (Allow t rl k')) k a b cs"

definition limiter_ok :: "rateLimiter \<Rightarrow> bool" where
  "limiter_ok rl = (map_ok (rl_counters rl) \<and> (\<forall>(k, e) \<in> set (rl_counters rl). 1 \<le> re_count e))"

text \<open>The counter a key has at time \<open>now\<close>: none once its window is over.\<close>

definition live :: "int \<Rightarrow> rateLimiter \<Rightarrow> string \<Rightarrow> rateEntry option" where
  "live now rl k =
     (case map_of (rl_counters rl) k of
        None \<Rightarrow> None
      | Some e \<Rightarrow> if now > re_reset e then None else Some e)"

text \<open>The intended behaviour of one key alone: a fixed window counter.\<close>

definition window_step ::
  "int \<Rightarrow> int \<Rightarrow> int \<Rightarrow> rateEntry option \<Rightarrow> bool \<times> rateEntry option" where
  "window_step limit window now w =
     (if limit = 0 then (False, w)
      else (case w of
              None \<Rightarrow> (True, Some \<lparr>re_count = 1, re_reset = now + window\<rparr>)
            | Some e \<Rightarrow> (re_count e + 1 \<le> limit, Some (e\<lparr>re_count := re_count e + 1\<rparr>))))"

definition expire :: "int \<Rightarrow> rateEntry option \<Rightarrow> rateEntry option" where
  "expire t w = (case w of None \<Rightarrow> None | Some e \<Rightarrow> if t > re_reset e then None else Some e)"

fun window_run :: "int \<Rightarrow> int \<Rightarrow> rateEntry option \<Rightarrow> int list \<Rightarrow> bool list" where
  "window_run limit window w [] = []"
| "window_run limit window w (t # ts) =
     (let (d, w') = window_step limit window t (expire t w) in d # window_run limit window w' ts)"

text \<open>The calls of one key and the decisions they got.\<close>

definition times_of :: "string \<Rightarrow> (int \<times> string) list \<Rightarrow> int list" where
  "times_of k cs = map fst (filter (\<lambda>(t, k'). k' = k) cs)"

fun decisions_of :: "string \<Rightarrow> (int \<times> string) list \<Rightarrow> bool list \<Rightarrow> bool list" where
  "decisions_of k ((t, k') # cs) (d # ds) =
     (if k' = k then d # decisions_of k cs ds else decisions_of k cs ds)"
| "decisions_of k _ _ = []"

section \<open>Lemmas\<close>

lemma Allow_limit [simp]: "rl_limit (snd (Allow t rl k)) = rl_limit rl"
  by (auto simp: Allow_def Let_def split: option.splits)

lemma Allow_window [simp]: "rl_window (snd (Allow t rl k)) = rl_window rl"
  by (auto simp: Allow_def Let_def split: option.splits)

lemma set_update_subset: "set (AList.update k v m) \<subseteq> insert (k, v) (set m)"
  by (induction m) auto

lemma Allow_ok: "limiter_ok rl \<Longrightarrow> limiter_ok (snd (Allow t rl k))"
proof -
  assume ok: "limiter_ok rl"
  have keep: "map_ok (rl_counters (snd (Allow t rl k)))"
    using ok by (auto simp: limiter_ok_def Allow_def Let_def gomap_simps split: option.splits)
  have "1 \<le> re_count e" if "(k', e) \<in> set (rl_counters (snd (Allow t rl k)))" for k' e
  proof -
    from keep that have "map_of (rl_counters (snd (Allow t rl k))) k' = Some e"
      by (simp add: map_ok_in_set)
    moreover have old: "1 \<le> re_count e'" if "map_of (rl_counters rl) j = Some e'" for j e'
      using ok map_of_SomeD [OF that] by (auto simp: limiter_ok_def)
    ultimately show ?thesis
      using ok
      by (auto simp: limiter_ok_def Allow_def Let_def gomap_simps
          split: option.splits if_splits dest!: old)
  qed
  with keep show ?thesis by (auto simp: limiter_ok_def)
qed

lemma newRateLimiter_ok [simp]: "limiter_ok (newRateLimiter l w)"
  by (simp add: limiter_ok_def newRateLimiter_def)

lemma live_later: "live t rl k = None \<Longrightarrow> t \<le> t' \<Longrightarrow> live t' rl k = None"
  by (auto simp: live_def split: option.splits if_splits)

text \<open>One call, seen through the caller's own window.\<close>

lemma Allow_own:
  assumes "limiter_ok rl"
  shows "fst (Allow t rl k) = fst (window_step (rl_limit rl) (rl_window rl) t (live t rl k))"
    and "t' \<ge> t \<Longrightarrow> live t' (snd (Allow t rl k)) k =
      (case snd (window_step (rl_limit rl) (rl_window rl) t (live t rl k)) of
         None \<Rightarrow> None
       | Some e \<Rightarrow> if t' > re_reset e then None else Some e)"
  using assms
  by (auto simp: Allow_def window_step_def live_def limiter_ok_def Let_def gomap_simps
      split: option.splits)

text \<open>The same call, seen by every other key: nothing happened.\<close>

lemma Allow_others:
  assumes "limiter_ok rl" "k' \<noteq> k" "t' \<ge> t"
  shows "live t' (snd (Allow t rl k)) k' = live t' rl k'"
  using assms
  by (auto simp: Allow_def live_def limiter_ok_def Let_def gomap_simps split: option.splits)

lemma live_expire: "live t rl k = expire t (map_of (rl_counters rl) k)"
  by (simp add: live_def expire_def)

lemma expire_expire: "t \<le> t' \<Longrightarrow> expire t' (expire t w) = expire t' w"
  by (auto simp: expire_def split: option.splits)

lemma live_count: "limiter_ok rl \<Longrightarrow> live t rl k = Some e \<Longrightarrow> 1 \<le> re_count e \<and> t \<le> re_reset e"
  by (auto simp: limiter_ok_def live_def split: option.splits if_splits dest!: map_of_SomeD)

lemma run_limiter_windows:
  assumes "limiter_ok rl" "sorted (t0 # map fst cs)"
    and "\<And>t. t \<ge> t0 \<Longrightarrow> live t rl k = expire t w"
  shows "decisions_of k cs (run_limiter rl cs) =
    window_run (rl_limit rl) (rl_window rl) w (times_of k cs)"
  using assms
proof (induction cs arbitrary: rl t0 w)
  case Nil
  then show ?case by (simp add: times_of_def)
next
  case (Cons c cs)
  obtain t k' where c: "c = (t, k')" by (cases c)
  let ?rl = "snd (Allow t rl k')"
  have t: "t0 \<le> t" "sorted (t # map fst cs)" using Cons.prems(2) c by auto
  have ok: "limiter_ok ?rl" using Cons.prems(1) by (rule Allow_ok)
  show ?case
  proof (cases "k' = k")
    case False
    have "live t' ?rl k = expire t' w" if "t' \<ge> t" for t'
      using Allow_others [OF Cons.prems(1), of k k' t t'] Cons.prems(3) False t that by simp
    from Cons.IH [OF ok t(2) this] show ?thesis
      using c False by (simp add: times_of_def case_prod_beta)
  next
    case True
    obtain d w' where step: "window_step (rl_limit rl) (rl_window rl) t (expire t w) = (d, w')"
      by (cases "window_step (rl_limit rl) (rl_window rl) t (expire t w)")
    have now: "live t rl k = expire t w" using Cons.prems(3) t by simp
    have "live t' ?rl k = expire t' w'" if "t' \<ge> t" for t'
      using Allow_own(2) [OF Cons.prems(1) that] True step now by (simp add: expire_def)
    from Cons.IH [OF ok t(2) this]
    have rest: "decisions_of k cs (run_limiter ?rl cs) =
        window_run (rl_limit rl) (rl_window rl) w' (times_of k cs)" by simp
    have "fst (Allow t rl k) = d"
      using Allow_own(1) [OF Cons.prems(1)] step now by simp
    with rest c True step show ?thesis
      by (simp add: times_of_def case_prod_beta)
  qed
qed

lemma passed_late: "\<forall>(t, k') \<in> set cs. b < t \<Longrightarrow> passed rl k a b cs = 0"
  by (induction cs arbitrary: rl) auto

text \<open>Within the window a key already has, only the rest of its budget passes.\<close>

lemma passed_rest_of_window:
  assumes "limiter_ok rl" "rl_limit rl \<noteq> 0" "sorted (t0 # map fst cs)"
    and "live t0 rl k = Some e" "b \<le> re_reset e"
  shows "passed rl k a b cs \<le> max 0 (rl_limit rl - re_count e)"
  using assms
proof (induction cs arbitrary: rl t0 e)
  case Nil
  then show ?case by simp
next
  case (Cons c cs)
  obtain t k' where c: "c = (t, k')" by (cases c)
  let ?rl = "snd (Allow t rl k')"
  have t: "t0 \<le> t" "sorted (t # map fst cs)" using Cons.prems(3) c by auto
  have ok: "limiter_ok ?rl" using Cons.prems(1) by (rule Allow_ok)
  show ?case
  proof (cases "re_reset e < t")
    case True
    then have "\<forall>(t', k'') \<in> set (c # cs). b < t'"
      using t c Cons.prems(5) by fastforce
    then show ?thesis using passed_late by fastforce
  next
    case False
    then have now: "live t rl k = Some e"
      using Cons.prems(4) t by (auto simp: live_def split: option.splits if_splits)
    show ?thesis
    proof (cases "k' = k")
      case other: False
      then have "live t ?rl k = Some e"
        using Allow_others [OF Cons.prems(1), of k k' t t] now by simp
      from Cons.IH [OF ok _ t(2) this] Cons.prems other c show ?thesis by simp
    next
      case own: True
      let ?e = "e\<lparr>re_count := re_count e + 1\<rparr>"
      have d: "fst (Allow t rl k) = (re_count e + 1 \<le> rl_limit rl)"
        using Allow_own(1) [OF Cons.prems(1)] now Cons.prems(2) by (simp add: window_step_def)
      have "live t ?rl k = Some ?e"
        using Allow_own(2) [OF Cons.prems(1), of t t k] now False own Cons.prems(2)
        by (simp add: window_step_def)
      from Cons.IH [OF ok _ t(2) this] Cons.prems
      have "passed ?rl k a b cs \<le> max 0 (rl_limit rl - (re_count e + 1))" by simp
      with c own d show ?thesis by (auto simp: max_def split: if_splits)
    qed
  qed
qed

text \<open>From the start of the interval on: the rest of the old window, then at most one more.\<close>

lemma passed_from_start:
  assumes "limiter_ok rl" "rl_limit rl \<noteq> 0" "sorted (t0 # map fst cs)" "a \<le> t0"
    and "b \<le> a + rl_window rl"
  shows "passed rl k a b cs \<le>
    (case live t0 rl k of None \<Rightarrow> 0 | Some e \<Rightarrow> max 0 (rl_limit rl - re_count e)) + max 1 (rl_limit rl)"
  using assms
proof (induction cs arbitrary: rl t0)
  case Nil
  then show ?case by (simp split: option.splits)
next
  case (Cons c cs)
  obtain t k' where c: "c = (t, k')" by (cases c)
  let ?rl = "snd (Allow t rl k')"
  let ?left = "\<lambda>t rl. (case live t rl k of None \<Rightarrow> 0 | Some e \<Rightarrow> max 0 (rl_limit rl - re_count e))"
  have t: "t0 \<le> t" "sorted (t # map fst cs)" "a \<le> t" using Cons.prems(3,4) c by auto
  have ok: "limiter_ok ?rl" using Cons.prems(1) by (rule Allow_ok)
  have "?left t rl \<le> ?left t0 rl"
    using t by (auto simp: live_def split: option.splits)
  moreover have "passed rl k a b (c # cs) \<le> ?left t rl + max 1 (rl_limit rl)"
  proof (cases "k' = k")
    case False
    then have "?left t ?rl = ?left t rl"
      using Allow_others [OF Cons.prems(1), of k k' t t] by (simp split: option.splits)
    moreover have "passed ?rl k a b cs \<le> ?left t ?rl + max 1 (rl_limit rl)"
      using Cons.IH [OF ok _ t(2,3)] Cons.prems by simp
    ultimately show ?thesis using c False by simp
  next
    case own: True
    show ?thesis
    proof (cases "live t rl k")
      case None
      show ?thesis
      proof (cases "0 \<le> rl_window rl")
        case True
        have "live t ?rl k = Some \<lparr>re_count = 1, re_reset = t + rl_window rl\<rparr>"
          using Allow_own(2) [OF Cons.prems(1), of t t k] None own Cons.prems(2) True
          by (simp add: window_step_def)
        from passed_rest_of_window [OF ok _ t(2) this] Cons.prems t
        have "passed ?rl k a b cs \<le> max 0 (rl_limit rl - 1)" by simp
        with c own None show ?thesis by (auto simp: max_def split: if_splits)
      next
        case False
        then have "b < t" using Cons.prems(5) t by simp
        then have "passed rl k a b (c # cs) = 0"
          using c t by (intro passed_late) fastforce
        then show ?thesis by (simp add: None)
      qed
    next
      case (Some e)
      have d: "fst (Allow t rl k) = (re_count e + 1 \<le> rl_limit rl)"
        using Allow_own(1) [OF Cons.prems(1)] Some Cons.prems(2) by (simp add: window_step_def)
      have "live t ?rl k = Some (e\<lparr>re_count := re_count e + 1\<rparr>)"
        using Allow_own(2) [OF Cons.prems(1), of t t k] Some own Cons.prems(1,2) live_count
        by (fastforce simp: window_step_def)
      with Cons.IH [OF ok _ t(2,3)] Cons.prems
      have "passed ?rl k a b cs \<le> max 0 (rl_limit rl - (re_count e + 1)) + max 1 (rl_limit rl)"
        by simp
      with c own d Some show ?thesis by (auto simp: max_def split: if_splits)
    qed
  qed
  ultimately show ?case by linarith
qed

lemma passed_interval:
  assumes "limiter_ok rl" "rl_limit rl \<noteq> 0" "sorted (map fst cs)" "b \<le> a + rl_window rl"
  shows "passed rl k a b cs \<le> max 0 (rl_limit rl - 1) + max 1 (rl_limit rl)"
  using assms
proof (induction cs arbitrary: rl)
  case Nil
  then show ?case by simp
next
  case (Cons c cs)
  obtain t k' where c: "c = (t, k')" by (cases c)
  show ?case
  proof (cases "a \<le> t")
    case True
    have "passed rl k a b (c # cs) \<le>
        (case live t rl k of None \<Rightarrow> 0 | Some e \<Rightarrow> max 0 (rl_limit rl - re_count e)) + max 1 (rl_limit rl)"
      using Cons.prems c True by (intro passed_from_start) auto
    moreover have "(case live t rl k of None \<Rightarrow> 0 | Some e \<Rightarrow> max 0 (rl_limit rl - re_count e))
        \<le> max 0 (rl_limit rl - 1)"
      using live_count [OF Cons.prems(1)] by (fastforce split: option.splits)
    ultimately show ?thesis by linarith
  next
    case False
    have "passed (snd (Allow t rl k')) k a b cs \<le> max 0 (rl_limit rl - 1) + max 1 (rl_limit rl)"
      using Cons.IH [OF Allow_ok [OF Cons.prems(1)]] Cons.prems c by simp
    with False c show ?thesis by simp
  qed
qed

section \<open>Properties\<close>

text \<open>
  C4. Whatever other clients do, the decisions the limiter takes for a key are those of a
  fixed-window counter of that key alone: the first call opens a window and passes, later
  calls pass while the count is within the limit, and the first call after the window opens
  a new one.  Deleting expired counters of other keys is never visible.
\<close>

theorem limiter_refines_windows:
  assumes "sorted (map fst cs)"
  shows "decisions_of k cs (run_limiter (newRateLimiter limit window) cs) =
    window_run limit window None (times_of k cs)"
proof (cases cs)
  case Nil
  then show ?thesis by (simp add: times_of_def)
next
  case (Cons c cs')
  then show ?thesis
    using assms run_limiter_windows
      [of "newRateLimiter limit window" "fst c" cs k None]
    by (simp add: newRateLimiter_def live_def expire_def limiter_ok_def)
qed

theorem limiter_refines_windows_witness:
  "decisions_of ''a'' [(0, ''a''), (1, ''b''), (2, ''a''), (3, ''a''), (20, ''a'')]
     (run_limiter (newRateLimiter 2 10) [(0, ''a''), (1, ''b''), (2, ''a''), (3, ''a''), (20, ''a'')])
   = [True, True, False, True]"
  using limiter_refines_windows
    [of "[(0, ''a''), (1, ''b''), (2, ''a''), (3, ''a''), (20, ''a'')]" "''a''" 2 10]
  by (simp add: times_of_def window_step_def expire_def)

text \<open>
  C31. No client gets more than twice the limit through: in every interval no longer than
  the window, over any history of calls in time order, at most \<open>2 * limit - 1\<close> calls of a key
  are allowed.
\<close>

theorem limiter_burst_bound:
  assumes "sorted (map fst cs)" "1 \<le> limit" "b \<le> a + window"
  shows "passed (newRateLimiter limit window) k a b cs \<le> 2 * limit - 1"
  using passed_interval [of "newRateLimiter limit window" cs b a k] assms
  by (simp add: newRateLimiter_def limiter_ok_def)

theorem limiter_burst_bound_witness:
  "passed (newRateLimiter 2 10) ''a'' 9 19
     [(0, ''a''), (9, ''a''), (11, ''a''), (12, ''a''), (13, ''a'')] \<le> 3"
  using limiter_burst_bound
    [of "[(0, ''a''), (9, ''a''), (11, ''a''), (12, ''a''), (13, ''a'')]" 2 19 9 10 "''a''"]
  by simp

text \<open>
  A call that opens a window leaves no expired counter behind, so the table holds only
  the keys whose window is still running.
\<close>

theorem limiter_purges:
  assumes "limiter_ok rl" "rl_limit rl \<noteq> 0" "0 \<le> rl_window rl" "live now rl key = None"
  shows "fst (Allow now rl key)
    \<and> (\<forall>(k, e) \<in> set (rl_counters (snd (Allow now rl key))). now \<le> re_reset e)"
proof -
  let ?m = "rl_counters (snd (Allow now rl key))"
  have pass: "fst (Allow now rl key)"
    using Allow_own(1) [OF assms(1)] assms(2,4) by (simp add: window_step_def)
  have m: "?m = AList.update key \<lparr>re_count = 1, re_reset = now + rl_window rl\<rparr>
      (delete_where (\<lambda>k e. now > re_reset e) (rl_counters rl))"
    using assms by (auto simp: Allow_def live_def Let_def split: option.splits if_splits)
  have "now \<le> re_reset e" if "(k, e) \<in> set ?m" for k e
    using that m set_update_subset [of key _ "delete_where _ _"] assms(3)
    by (fastforce simp: delete_where_def)
  with pass show ?thesis by blast
qed

theorem limiter_purges_witness:
  "fst (Allow 20 (newRateLimiter 3 10\<lparr>rl_counters := [(''a'', \<lparr>re_count = 1, re_reset = 5\<rparr>)]\<rparr>) ''b'')"
  using limiter_purges
    [of "newRateLimiter 3 10\<lparr>rl_counters := [(''a'', \<lparr>re_count = 1, re_reset = 5\<rparr>)]\<rparr>" 20 "''b''"]
  by (simp add: limiter_ok_def newRateLimiter_def live_def map_ok_def)

end
