(* ===== verification/Session_Store.thy ===== *)
theory Session_Store
  imports Lchat_Model
begin

text \<open>
  Sessions: the interface \<^verbatim>\<open>SessionStore\<close> of \<^verbatim>\<open>internal/server/bus.go\<close> as a locale and the
  in-memory implementation \<^verbatim>\<open>MemorySessionStore\<close> as its interpretation.  The locale reads a
  store through one function, the user a token stands for at a given time; its laws say
  what each operation does to that function, and the client lemma says what a token is
  worth after any run of operations.  Time is an argument of every operation that calls
  \<^verbatim>\<open>time.Now\<close>, and the random bytes of a token are an argument of \<^verbatim>\<open>Create\<close>.
\<close>

section \<open>The interface\<close>

text \<open>
  The operations of a run; \<open>OpCreate b user ttl\<close> is a \<^verbatim>\<open>Create\<close> that draws the random bytes \<open>b\<close>.
\<close>

datatype session_op =
    OpCreate "8 word list" string int
  | OpGet string
  | OpUpdate string string
  | OpDelete string
  | OpCleanup

fun touches :: "string \<Rightarrow> session_op \<Rightarrow> bool" where
  "touches tok (OpCreate b _ _) = (EncodeToString b = tok)"
| "touches tok (OpGet _) = False"
| "touches tok (OpUpdate t _) = (t = tok)"
| "touches tok (OpDelete t) = (t = tok)"
| "touches tok OpCleanup = False"

text \<open>
  What the server relies on.  \<open>user_at t s tok\<close> is the user that \<open>tok\<close> stands for at time \<open>t\<close>;
  \<open>lives t e\<close> says whether an entry that expires at \<open>e\<close> is still there at \<open>t\<close>, and \<open>good\<close> which
  session times the store can keep.  The laws speak of times from the operation on.
\<close>

locale session_store =
  fixes user_at :: "int \<Rightarrow> 's \<Rightarrow> string \<Rightarrow> string option"
    and add :: "string \<Rightarrow> int \<Rightarrow> string \<Rightarrow> int \<Rightarrow> 's \<Rightarrow> 's"
    and get :: "int \<Rightarrow> string \<Rightarrow> 's \<Rightarrow> string option \<times> 's"
    and upd :: "int \<Rightarrow> string \<Rightarrow> string \<Rightarrow> 's \<Rightarrow> 's"
    and del :: "int \<Rightarrow> string \<Rightarrow> 's \<Rightarrow> 's"
    and clean :: "int \<Rightarrow> 's \<Rightarrow> 's"
    and ok :: "'s \<Rightarrow> bool"
    and lives :: "int \<Rightarrow> int \<Rightarrow> bool"
    and good :: "int \<Rightarrow> bool"
  assumes user_at_add: "ok s \<Longrightarrow> good ttl \<Longrightarrow> now \<le> t \<Longrightarrow>
        user_at t (add tok now u ttl s) tok = (if lives t (now + ttl) then Some u else None)"
    and add_other: "ok s \<Longrightarrow> now \<le> t \<Longrightarrow> tok' \<noteq> tok \<Longrightarrow> user_at t (add tok now u ttl s) tok' = user_at t s tok'"
    and get_result: "ok s \<Longrightarrow> fst (get now tok s) = user_at now s tok"
    and user_at_get: "ok s \<Longrightarrow> now \<le> t \<Longrightarrow> user_at t (snd (get now tok s)) tok' = user_at t s tok'"
    and upd_other: "ok s \<Longrightarrow> now \<le> t \<Longrightarrow> tok' \<noteq> tok \<Longrightarrow> user_at t (upd now tok u s) tok' = user_at t s tok'"
    and upd_dead: "ok s \<Longrightarrow> now \<le> t \<Longrightarrow> user_at now s tok = None \<Longrightarrow> user_at t (upd now tok u s) tok = None"
    and user_at_del: "ok s \<Longrightarrow> now \<le> t \<Longrightarrow>
        user_at t (del now tok s) tok' = (if tok' = tok then None else user_at t s tok')"
    and user_at_clean: "ok s \<Longrightarrow> c \<le> t \<Longrightarrow> user_at t (clean c s) tok' = user_at t s tok'"
    and expires: "user_at t s tok = None \<Longrightarrow> t \<le> t' \<Longrightarrow> user_at t' s tok = None"
    and ok_add: "ok s \<Longrightarrow> ok (add tok now u ttl s)"
    and ok_get: "ok s \<Longrightarrow> ok (snd (get now tok s))"
    and ok_upd: "ok s \<Longrightarrow> ok (upd now tok u s)"
    and ok_del: "ok s \<Longrightarrow> ok (del now tok s)"
    and ok_clean: "ok s \<Longrightarrow> ok (clean c s)"
begin

fun exec :: "int \<Rightarrow> session_op \<Rightarrow> 's \<Rightarrow> 's" where
  "exec now (OpCreate b u ttl) s = add (EncodeToString b) now u ttl s"
| "exec now (OpGet tok) s = snd (get now tok s)"
| "exec now (OpUpdate tok u) s = upd now tok u s"
| "exec now (OpDelete tok) s = del now tok s"
| "exec now OpCleanup s = clean now s"

fun exec_all :: "(int \<times> session_op) list \<Rightarrow> 's \<Rightarrow> 's" where
  "exec_all [] s = s"
| "exec_all ((now, p) # ps) s = exec_all ps (exec now p s)"

lemma ok_exec: "ok s \<Longrightarrow> ok (exec now p s)"
  by (cases p) (simp_all add: ok_add ok_get ok_upd ok_del ok_clean)

lemma ok_exec_all: "ok s \<Longrightarrow> ok (exec_all ps s)"
  by (induction ps s rule: exec_all.induct) (auto simp: ok_exec)

lemma exec_untouched:
  "ok s \<Longrightarrow> \<not> touches tok p \<Longrightarrow> now \<le> t \<Longrightarrow> user_at t (exec now p s) tok = user_at t s tok"
  by (cases p) (auto simp: add_other user_at_get upd_other user_at_del user_at_clean)

lemma run_untouched:
  "ok s \<Longrightarrow> \<forall>(now, p) \<in> set ps. \<not> touches tok p \<and> now \<le> t \<Longrightarrow>
   user_at t (exec_all ps s) tok = user_at t s tok"
  by (induction ps s rule: exec_all.induct) (auto simp: ok_exec exec_untouched)

text \<open>
  The life of a token: from its creation until it expires it stands for its user, whatever
  is done to other tokens and however often it is read; afterwards it stands for nobody.
\<close>

lemma token_lifetime:
  assumes "ok s" "good ttl" "now \<le> t" "\<forall>(now', p) \<in> set ps. \<not> touches tok p \<and> now' \<le> t"
  shows "fst (get t tok (exec_all ps (add tok now u ttl s))) = (if lives t (now + ttl) then Some u else None)"
  using assms by (simp add: get_result ok_exec_all ok_add run_untouched user_at_add)

lemma deleted_token_dead:
  assumes "ok s" "now \<le> t" "\<forall>(now', p) \<in> set ps. \<not> touches tok p \<and> now' \<le> t"
  shows "fst (get t tok (exec_all ps (del now tok s))) = None"
  using assms by (simp add: get_result ok_exec_all ok_del run_untouched user_at_del)

text \<open>A token that is dead stays dead, whatever renames are tried on it.\<close>

lemma dead_token_not_renamed:
  assumes "ok s" "now \<le> t" "user_at now s tok = None"
  shows "fst (get t tok (upd now tok u s)) = None"
  using assms by (simp add: get_result ok_upd upd_dead)

end

text \<open>A store that keeps the expiry of a token exactly when its user is renamed.\<close>

locale exact_session_store = session_store +
  assumes upd_exact: "ok s \<Longrightarrow> now \<le> t \<Longrightarrow> user_at now s tok \<noteq> None \<Longrightarrow>
        user_at t (upd now tok u s) tok = (if user_at t s tok = None then None else Some u)"
begin

lemma rename_keeps_lifetime:
  assumes "ok s" "good ttl" "now \<le> t'" "t' \<le> t" "lives t' (now + ttl)"
  shows "fst (get t tok (upd t' tok v (add tok now u ttl s))) = (if lives t (now + ttl) then Some v else None)"
  using assms by (simp add: get_result ok_upd ok_add upd_exact user_at_add)

end

section \<open>The in-memory store\<close>

record MemorySessionStore =
  ms_tokens :: "Session gomap"

definition NewMemorySessionStore :: MemorySessionStore where
  "NewMemorySessionStore = \<lparr>ms_tokens = []\<rparr>"

text \<open>\<open>rnd\<close> is what \<^verbatim>\<open>rand.Read\<close> delivers: an error or the 16 bytes.\<close>

definition generateToken :: "8 word list res \<Rightarrow> string res" where
  "generateToken rnd = (case rnd of Inl e \<Rightarrow> Inl e | Inr b \<Rightarrow> Inr (EncodeToString b))"

definition Create ::
  "8 word list res \<Rightarrow> int \<Rightarrow> string \<Rightarrow> int \<Rightarrow> MemorySessionStore \<Rightarrow> string res \<times> MemorySessionStore" where
  "Create rnd now username ttl s =
     (case generateToken rnd of
        Inl e \<Rightarrow> (Inl e, s)
      | Inr token \<Rightarrow>
          (Inr token, s\<lparr>ms_tokens := AList.update token
              \<lparr>se_Username = username, se_CreatedAt = now, se_ExpiresAt = now + ttl\<rparr> (ms_tokens s)\<rparr>))"

definition GetUsername :: "int \<Rightarrow> string \<Rightarrow> MemorySessionStore \<Rightarrow> string option \<times> MemorySessionStore" where
  "GetUsername now token s =
     (case map_of (ms_tokens s) token of
        None \<Rightarrow> (None, s)
      | Some sess \<Rightarrow>
          if IsExpired now sess then (None, s\<lparr>ms_tokens := AList.delete token (ms_tokens s)\<rparr>)
          else (Some (se_Username sess), s))"

definition UpdateUsername :: "string \<Rightarrow> string \<Rightarrow> MemorySessionStore \<Rightarrow> MemorySessionStore" where
  "UpdateUsername token username s =
     (case map_of (ms_tokens s) token of
        None \<Rightarrow> s
      | Some sess \<Rightarrow> s\<lparr>ms_tokens := AList.update token (sess\<lparr>se_Username := username\<rparr>) (ms_tokens s)\<rparr>)"

definition Delete :: "string \<Rightarrow> MemorySessionStore \<Rightarrow> MemorySessionStore" where
  "Delete token s = s\<lparr>ms_tokens := AList.delete token (ms_tokens s)\<rparr>"

definition Cleanup :: "int \<Rightarrow> MemorySessionStore \<Rightarrow> MemorySessionStore" where
  "Cleanup expiredBefore s =
     s\<lparr>ms_tokens := delete_where (\<lambda>token sess. expiredBefore > se_ExpiresAt sess) (ms_tokens s)\<rparr>"

text \<open>The user a token stands for, the reading of the store.\<close>

definition session_user :: "int \<Rightarrow> MemorySessionStore \<Rightarrow> string \<Rightarrow> string option" where
  "session_user now s token =
     (case map_of (ms_tokens s) token of
        None \<Rightarrow> None
      | Some sess \<Rightarrow> if IsExpired now sess then None else Some (se_Username sess))"

definition add_session :: "string \<Rightarrow> int \<Rightarrow> string \<Rightarrow> int \<Rightarrow> MemorySessionStore \<Rightarrow> MemorySessionStore" where
  "add_session token now username ttl s =
     s\<lparr>ms_tokens := AList.update token
         \<lparr>se_Username = username, se_CreatedAt = now, se_ExpiresAt = now + ttl\<rparr> (ms_tokens s)\<rparr>"

definition sessions_ok :: "MemorySessionStore \<Rightarrow> bool" where
  "sessions_ok s = map_ok (ms_tokens s)"

text \<open>One operation of a run on the memory store.\<close>

fun session_step :: "int \<Rightarrow> session_op \<Rightarrow> MemorySessionStore \<Rightarrow> MemorySessionStore" where
  "session_step now (OpCreate b u ttl) s = snd (Create (Inr b) now u ttl s)"
| "session_step now (OpGet tok) s = snd (GetUsername now tok s)"
| "session_step now (OpUpdate tok u) s = UpdateUsername tok u s"
| "session_step now (OpDelete tok) s = Delete tok s"
| "session_step now OpCleanup s = Cleanup now s"

fun session_run :: "(int \<times> session_op) list \<Rightarrow> MemorySessionStore \<Rightarrow> MemorySessionStore" where
  "session_run [] s = s"
| "session_run ((now, p) # ps) s = session_run ps (session_step now p s)"

section \<open>The memory store meets the interface\<close>

lemmas session_defs =
  session_user_def add_session_def GetUsername_def UpdateUsername_def Delete_def Cleanup_def
  sessions_ok_def IsExpired_def

interpretation mem: exact_session_store session_user add_session GetUsername "\<lambda>_. UpdateUsername" "\<lambda>_. Delete" Cleanup
  sessions_ok "(\<le>)" "\<lambda>_. True"
  by unfold_locales (auto simp: session_defs gomap_simps split: option.splits)

lemma Create_adds:
  "Create (Inr b) now u ttl s = (Inr (EncodeToString b), add_session (EncodeToString b) now u ttl s)"
  by (simp add: Create_def generateToken_def add_session_def)

lemma mem_exec: "mem.exec now p s = session_step now p s"
  by (cases p) (simp_all add: Create_adds)

lemma mem_exec_all: "mem.exec_all ps s = session_run ps s"
  by (induction ps s rule: session_run.induct) (simp_all add: mem_exec)

lemma sessions_ok_new [simp]: "sessions_ok NewMemorySessionStore"
  by (simp add: sessions_ok_def NewMemorySessionStore_def)

lemma sessions_ok_Create: "sessions_ok s \<Longrightarrow> sessions_ok (snd (Create rnd now u ttl s))"
  by (auto simp: Create_def sessions_ok_def gomap_simps split: sum.splits)

section \<open>Properties\<close>

text \<open>
  C7. A session token returned by \<^verbatim>\<open>Create\<close> stands for its user exactly until \<open>now + ttl\<close>:
  after any run of operations that do not update, delete or overwrite that token, reading
  it gives the user up to that time and nothing afterwards.  Reading it, however often,
  does not extend it.
\<close>

theorem session_lifetime:
  assumes "sessions_ok s" "Create (Inr b) now u ttl s = (Inr tok, s')" "now \<le> t"
    and "\<forall>(now', p) \<in> set ps. \<not> touches tok p \<and> now' \<le> t"
  shows "fst (GetUsername t tok (session_run ps s')) = (if t \<le> now + ttl then Some u else None)"
  using assms mem.token_lifetime [where s = s and ttl = ttl and now = now and t = t and ps = ps and tok = tok and u = u]
  by (auto simp: Create_adds mem_exec_all)

theorem session_lifetime_witness:
  "let tok = EncodeToString (replicate 16 0);
       s' = snd (Create (Inr (replicate 16 0)) 5 ''alice'' 10 NewMemorySessionStore);
       ps = [(6, OpGet tok), (14, OpGet tok), (15, OpCleanup)]
   in fst (GetUsername 15 tok (session_run ps s')) = Some ''alice''
    \<and> fst (GetUsername 16 tok (session_run ps s')) = None"
proof -
  let ?tok = "EncodeToString (replicate 16 0)"
  let ?ps = "[(6, OpGet ?tok), (14, OpGet ?tok), (15, OpCleanup)]"
  have c: "Create (Inr (replicate 16 0)) 5 ''alice'' 10 NewMemorySessionStore
      = (Inr ?tok, snd (Create (Inr (replicate 16 0)) 5 ''alice'' 10 NewMemorySessionStore))"
    by (simp add: Create_adds)
  show ?thesis
    using session_lifetime [OF sessions_ok_new c, where ps = ?ps and t = 15]
      session_lifetime [OF sessions_ok_new c, where ps = ?ps and t = 16]
    by (simp add: Let_def)
qed

text \<open>
  After \<^verbatim>\<open>Delete\<close> a token is worthless at every later time, until it is created again.
\<close>

theorem session_deleted:
  assumes "sessions_ok s" "\<forall>(now', p) \<in> set ps. \<not> touches tok p \<and> now' \<le> t"
  shows "fst (GetUsername t tok (session_run ps (Delete tok s))) = None"
  using mem.deleted_token_dead [where s = s and t = t and now = t and ps = ps and tok = tok] assms by (simp add: mem_exec_all)

theorem session_deleted_witness:
  "fst (GetUsername 9 ''tok'' (session_run [(8, OpCleanup)]
     (Delete ''tok'' (add_session ''tok'' 5 ''alice'' 10 NewMemorySessionStore)))) = None"
  using session_deleted [of "add_session ''tok'' 5 ''alice'' 10 NewMemorySessionStore"
      "[(8, OpCleanup)]" "''tok''" 9]
  by (simp add: mem.ok_add)

text \<open>
  C38. A token is the 16 random bytes as 32 lower-case hexadecimal digits, two for each byte, the
  upper half first; so a new session overwrites another one only if the same 16 bytes were drawn.  If no
  random bytes come, there is no session.
\<close>

theorem session_token_format:
  assumes "length b = 16"
  shows "\<exists>tok. fst (Create (Inr b) now u ttl s) = Inr tok \<and> length tok = 32
    \<and> (\<forall>i < 16. tok ! (2 * i) = ''0123456789abcdef'' ! (unat (b ! i) div 16)
         \<and> tok ! (2 * i + 1) = ''0123456789abcdef'' ! (unat (b ! i) mod 16))
    \<and> (\<forall>b' now' u' ttl' s'. fst (Create (Inr b') now' u' ttl' s') = Inr tok \<longrightarrow> b' = b)
    \<and> (\<forall>e. Create (Inl e) now u ttl s = (Inl e, s))"
  using assms EncodeToString_nth [of _ b] EncodeToString_inj
  by (auto simp: Create_adds EncodeToString_length hex_digit_def Create_def [of "Inl _"] generateToken_def)

theorem session_token_format_witness:
  "fst (Create (Inr (replicate 16 0xA5)) 5 ''alice'' 10 NewMemorySessionStore) = Inr (concat (replicate 16 ''a5''))"
proof -
  let ?b = "replicate 16 0xA5 :: 8 word list"
  obtain tok where tok: "fst (Create (Inr ?b) 5 ''alice'' 10 NewMemorySessionStore) = Inr tok" "length tok = 32"
    "\<forall>i < 16. tok ! (2 * i) = ''0123456789abcdef'' ! (unat (?b ! i) div 16)
         \<and> tok ! (2 * i + 1) = ''0123456789abcdef'' ! (unat (?b ! i) mod 16)"
    using session_token_format [of ?b 5 "''alice''" 10 NewMemorySessionStore] by auto
  have "tok ! k = (if even k then CHR ''a'' else CHR ''5'')" if "k < 32" for k
  proof -
    have "k div 2 < 16" using that by simp
    then show ?thesis using tok(3) [rule_format, of "k div 2"] by (cases "even k") simp_all
  qed
  moreover have "concat (replicate 16 ''a5'') = map (\<lambda>k. if even k then CHR ''a'' else CHR ''5'') [0..<32]"
    by code_simp
  ultimately have "tok = concat (replicate 16 ''a5'')" using tok(2) by (intro nth_equalityI) simp_all
  then show ?thesis using tok(1) by simp
qed

end
