(* ===== verification/Sanitize.thy ===== *)
theory Sanitize
  imports Go_Prelude
begin

text \<open>
  The checks on user input, \<^verbatim>\<open>internal/server/server.go\<close> (\<^verbatim>\<open>htmlTagRe\<close>, \<^verbatim>\<open>sanitizeInput\<close>,
  \<^verbatim>\<open>sanitizeInputWithLimit\<close>) and \<^verbatim>\<open>internal/server/user.go\<close> (\<^verbatim>\<open>validUsernameRe\<close>,
  \<^verbatim>\<open>isValidUsername\<close>).  Both regular expressions are written out on bytes: the brackets are
  ASCII and never occur inside the encoding of another rune, and the runes that a user name
  admits are ASCII or take three bytes.
\<close>

section \<open>Definitions\<close>

lemma drop_tag_length: "length (drop 1 (dropWhile P s)) \<le> length s"
  by (simp add: le_diff_conv length_dropWhile_le le_SucI)

text \<open>
  \<^verbatim>\<open>htmlTagRe.ReplaceAllString(input, "")\<close> for the expression \<^verbatim>\<open><[^>]*>\<close>: the leftmost opening
  bracket that has a closing bracket after it is removed up to the first closing one.
\<close>

function strip_tags :: "string \<Rightarrow> string" where
  "strip_tags [] = []"
| "strip_tags (c # s) =
     (if c = CHR ''<'' \<and> CHR ''>'' \<in> set s
      then strip_tags (drop 1 (dropWhile (\<lambda>x. x \<noteq> CHR ''>'') s))
      else c # strip_tags s)"
  by pat_completeness auto
termination
  by (relation "measure length") (auto simp: less_Suc_eq_le intro: drop_tag_length [simplified])

lemma strip_tags_length: "length (strip_tags s) \<le> length s"
  by (induction s rule: strip_tags.induct) (auto intro: order_trans [OF _ le_SucI [OF drop_tag_length]])

lemma strip_tags_shorter: "strip_tags s \<noteq> s \<Longrightarrow> length (strip_tags s) < length s"
proof (induction s rule: strip_tags.induct)
  case (2 c s)
  have "length (strip_tags (drop 1 (dropWhile (\<lambda>x. x \<noteq> CHR ''>'') s))) \<le> length s"
    using strip_tags_length drop_tag_length le_trans by blast
  with 2 show ?case by auto
qed simp

text \<open>The loop of \<^verbatim>\<open>sanitizeInputWithLimit\<close>: replace until nothing changes.\<close>

function strip_loop :: "string \<Rightarrow> string" where
  "strip_loop s = (if strip_tags s = s then s else strip_loop (strip_tags s))"
  by pat_completeness auto
termination
  by (relation "measure length") (auto dest: strip_tags_shorter)

declare strip_loop.simps [simp del]

text \<open>Slicing \<^verbatim>\<open>input[:maxLen]\<close> panics for a negative bound; that is the result \<^const>\<open>None\<close>.\<close>

definition sanitizeInputWithLimit :: "string \<Rightarrow> int \<Rightarrow> string option" where
  "sanitizeInputWithLimit input maxLen =
     (let s = strip_loop input
      in if int (length s) > maxLen
         then (if maxLen < 0 then None else Some (TrimSpace (take (nat maxLen) s @ ''...'')))
         else Some (TrimSpace s))"

definition sanitizeInput :: "string \<Rightarrow> string option" where
  "sanitizeInput input = sanitizeInputWithLimit input 500"

text \<open>The runes of \<^verbatim>\<open>validUsernameRe\<close>: ASCII letters, digits, underscore, U+4E00 to U+9FA5.\<close>

definition word_char :: "char \<Rightarrow> bool" where
  "word_char c =
     (let n = (of_char c :: nat)
      in 97 \<le> n \<and> n \<le> 122 \<or> 65 \<le> n \<and> n \<le> 90 \<or> 48 \<le> n \<and> n \<le> 57 \<or> c = CHR ''_'')"

definition cjk :: "char \<Rightarrow> char \<Rightarrow> char \<Rightarrow> bool" where
  "cjk a b c =
     (let x = (of_char a :: nat); y = (of_char b :: nat); z = (of_char c :: nat);
          r = (x - 0xE0) * 4096 + (y - 0x80) * 64 + (z - 0x80)
      in 0xE0 \<le> x \<and> x \<le> 0xEF \<and> 0x80 \<le> y \<and> y \<le> 0xBF \<and> 0x80 \<le> z \<and> z \<le> 0xBF
         \<and> 0x4E00 \<le> r \<and> r \<le> 0x9FA5)"

text \<open>The number of runes if every rune is admitted.\<close>

fun name_runes :: "string \<Rightarrow> nat option" where
  "name_runes [] = Some 0"
| "name_runes (a # s) =
     (if word_char a then map_option Suc (name_runes s)
      else (case s of
              b # c # r \<Rightarrow> if cjk a b c then map_option Suc (name_runes r) else None
            | _ \<Rightarrow> None))"

definition isValidUsername :: "string \<Rightarrow> bool" where
  "isValidUsername name = (case name_runes name of None \<Rightarrow> False | Some n \<Rightarrow> 2 \<le> n \<and> n \<le> 20)"

section \<open>Lemmas\<close>

text \<open>No tag: no closing bracket after an opening one.\<close>

definition no_tag :: "string \<Rightarrow> bool" where
  "no_tag s = (CHR ''>'' \<notin> set (dropWhile (\<lambda>x. x \<noteq> CHR ''<'') s))"

lemma no_tag_Cons: "no_tag (a # s) \<longleftrightarrow> (if a = CHR ''<'' then CHR ''>'' \<notin> set s else no_tag s)"
  by (simp add: no_tag_def)

lemma no_tag_append_iff:
  "no_tag (p @ s) \<longleftrightarrow> no_tag p \<and> no_tag s \<and> (CHR ''<'' \<in> set p \<longrightarrow> CHR ''>'' \<notin> set s)"
proof (induction p)
  case (Cons a p)
  have "CHR ''>'' \<notin> set s \<Longrightarrow> no_tag s" by (auto simp: no_tag_def dest: set_dropWhileD)
  moreover have "CHR ''>'' \<notin> set p \<Longrightarrow> no_tag p" by (auto simp: no_tag_def dest: set_dropWhileD)
  ultimately show ?case using Cons by (auto simp: no_tag_Cons)
qed (simp add: no_tag_def)

lemma no_tag_infix: "no_tag (p @ s @ q) \<Longrightarrow> no_tag s"
  by (simp add: no_tag_append_iff)

lemma no_tag_take: "no_tag s \<Longrightarrow> no_tag (take n s)"
  using no_tag_infix [of "[]" "take n s" "drop n s"] by simp

lemma no_tag_TrimSpace: "no_tag s \<Longrightarrow> no_tag (TrimSpace s)"
  by (metis TrimSpace_infix no_tag_infix)

lemma strip_tags_no_close: "CHR ''>'' \<notin> set s \<Longrightarrow> strip_tags s = s"
  by (induction s) auto

lemma strip_tags_no_tag: "no_tag (strip_tags s)"
proof (induction s rule: strip_tags.induct)
  case (2 c s)
  then show ?case by (auto simp: no_tag_Cons strip_tags_no_close)
qed (simp add: no_tag_def)

lemma strip_tags_fixpoint: "no_tag s \<Longrightarrow> strip_tags s = s"
  by (induction s) (auto simp: no_tag_Cons strip_tags_no_close split: if_splits)

text \<open>One replacement already leaves nothing to replace, so the loop is its first pass.\<close>

lemma strip_loop_once: "strip_loop s = strip_tags s"
  using strip_tags_fixpoint [OF strip_tags_no_tag] by (metis strip_loop.simps)

lemma sanitize_some:
  "0 \<le> maxLen \<Longrightarrow> sanitizeInputWithLimit s maxLen =
     Some (TrimSpace (if int (length (strip_tags s)) > maxLen then take (nat maxLen) (strip_tags s) @ ''...''
        else strip_tags s))"
  by (simp add: sanitizeInputWithLimit_def strip_loop_once Let_def)

lemma name_runes_chars:
  "name_runes s = Some n \<Longrightarrow> c \<in> set s \<Longrightarrow> word_char c \<or> 0x80 \<le> (of_char c :: nat)"
proof (induction s arbitrary: n rule: name_runes.induct)
  case (2 a s)
  then show ?case
    by (auto simp: cjk_def Let_def split: if_splits list.splits)
qed simp

lemma name_runes_length:
  "name_runes s = Some n \<Longrightarrow> n \<le> length s \<and> length s \<le> 3 * n"
  by (induction s arbitrary: n rule: name_runes.induct) (fastforce split: if_splits list.splits)+

section \<open>Properties\<close>

text \<open>
  C34. What \<^verbatim>\<open>sanitizeInputWithLimit\<close> returns holds no HTML tag, is no longer than the limit plus
  the three dots, and the loop always ends: for every input and every limit of at least zero
  there is such a result.  Text without a tag that fits the limit is only trimmed.
\<close>

theorem sanitize_no_tags:
  assumes "0 \<le> maxLen"
  shows "\<exists>r. sanitizeInputWithLimit s maxLen = Some r \<and> no_tag r \<and> int (length r) \<le> maxLen + 3
    \<and> (no_tag s \<and> int (length s) \<le> maxLen \<longrightarrow> r = TrimSpace s)"
proof -
  let ?t = "if int (length (strip_tags s)) > maxLen then take (nat maxLen) (strip_tags s) @ ''...'' else strip_tags s"
  have "no_tag (take (nat maxLen) (strip_tags s) @ ''...'')"
    using no_tag_take [OF strip_tags_no_tag] by (simp add: no_tag_append_iff) (simp add: no_tag_def)
  then have "no_tag (TrimSpace ?t)"
    using strip_tags_no_tag by (intro no_tag_TrimSpace) simp
  moreover have "int (length (TrimSpace ?t)) \<le> maxLen + 3"
    using TrimSpace_length [of ?t] assms by (simp split: if_splits)
  moreover have "no_tag s \<and> int (length s) \<le> maxLen \<longrightarrow> TrimSpace ?t = TrimSpace s"
    by (simp add: strip_tags_fixpoint)
  ultimately show ?thesis using sanitize_some [OF assms] by blast
qed

theorem sanitize_no_tags_witness:
  "\<exists>r. sanitizeInputWithLimit ''<b>hi</b> <<i>>there'' 10 = Some r \<and> no_tag r \<and> int (length r) \<le> 13"
  using sanitize_no_tags [of 10 "''<b>hi</b> <<i>>there''"] by auto

text \<open>
  A valid user name can be written into the line protocol and into HTML: it is 2 to 60
  bytes, and holds no separator bar, no bracket and no white space of ASCII.
\<close>

theorem valid_username_safe:
  assumes "isValidUsername name"
  shows "2 \<le> length name \<and> length name \<le> 60 \<and> no_tag name
    \<and> set name \<inter> {CHR ''|'', CHR ''<'', CHR ''>'', CHR '' '', CHR 0x0A, CHR 0x0D, CHR 0x09, CHR ''/'', CHR ''.''} = {}"
proof -
  obtain n where n: "name_runes name = Some n" "2 \<le> n" "n \<le> 20"
    using assms by (auto simp: isValidUsername_def split: option.splits)
  have "set name \<inter> {CHR ''|'', CHR ''<'', CHR ''>'', CHR '' '', CHR 0x0A, CHR 0x0D, CHR 0x09, CHR ''/'', CHR ''.''} = {}"
    using name_runes_chars [OF n(1)] by (force simp: word_char_def Let_def)
  moreover from this have "no_tag name" by (auto simp: no_tag_def dest: set_dropWhileD)
  ultimately show ?thesis using name_runes_length [OF n(1)] n(2,3) by simp
qed

theorem valid_username_safe_witness:
  "isValidUsername ''al_1'' \<and> length ''al_1'' \<le> 60 \<and> no_tag ''al_1''"
  using valid_username_safe [of "''al_1''"]
  by (simp add: isValidUsername_def word_char_def)

end
