(* ===== verification/Avatar.thy ===== *)
theory Avatar
  imports Go_Prelude
begin

text \<open>
  Avatar uploads, \<^verbatim>\<open>internal/server/avatar.go\<close>.  The files of the directory \<^verbatim>\<open>avatars\<close> under the
  upload directory are a map from file names to contents; what the operating system decides
  (errors, which entries are directories) is the record \<open>disk\<close>.  \<^verbatim>\<open>encoding/base64\<close> is written
  out.  User names are valid UTF-8, as the JSON decoder and the name check deliver them, so
  that mapping the four ASCII characters of a file name is a map on bytes.
\<close>

section \<open>Base64\<close>

definition b64_alphabet :: string where
  "b64_alphabet = ''ABCDEFGHIJKLMNOPQRSTUVWXYZabcdefghijklmnopqrstuvwxyz0123456789+/''"

definition b64_value :: "char \<Rightarrow> nat option" where
  "b64_value c = map_of (zip b64_alphabet [0..<64]) c"

fun b64_values :: "string \<Rightarrow> nat list option" where
  "b64_values [] = Some []"
| "b64_values (c # s) =
     (case b64_value c of
        None \<Rightarrow> None
      | Some v \<Rightarrow> (case b64_values s of None \<Rightarrow> None | Some vs \<Rightarrow> Some (v # vs)))"

text \<open>The bytes of a list of sextets; a last group of two or three gives one or two bytes.\<close>

fun b64_bytes :: "nat list \<Rightarrow> 8 word list option" where
  "b64_bytes [] = Some []"
| "b64_bytes [a] = None"
| "b64_bytes [a, b] = Some [of_nat (a * 4 + b div 16)]"
| "b64_bytes [a, b, c] = Some [of_nat (a * 4 + b div 16), of_nat (b mod 16 * 16 + c div 4)]"
| "b64_bytes (a # b # c # d # vs) =
     (case b64_bytes vs of
        None \<Rightarrow> None
      | Some bs \<Rightarrow> Some (of_nat (a * 4 + b div 16) # of_nat (b mod 16 * 16 + c div 4) # of_nat (c mod 4 * 64 + d) # bs))"

definition skip_newlines :: "string \<Rightarrow> string" where
  "skip_newlines s = filter (\<lambda>c. c \<noteq> CHR 0x0A \<and> c \<noteq> CHR 0x0D) s"

text \<open>\<^verbatim>\<open>StdEncoding.DecodeString\<close>: groups of four, at most two padding characters at the end.\<close>

definition decode_padded :: "string \<Rightarrow> 8 word list option" where
  "decode_padded s0 =
     (let s = skip_newlines s0;
          body = rev (dropWhile (\<lambda>c. c = CHR ''='') (rev s));
          pad = length s - length body
      in if length s mod 4 \<noteq> 0 \<or> pad > 2 then None
         else (case b64_values body of None \<Rightarrow> None | Some vs \<Rightarrow> b64_bytes vs))"

text \<open>The same without padding.\<close>

definition decode_raw :: "string \<Rightarrow> 8 word list option" where
  "decode_raw s =
     (case b64_values (skip_newlines s) of None \<Rightarrow> None | Some vs \<Rightarrow> b64_bytes vs)"

section \<open>Saving an avatar\<close>

type_synonym files = "8 word list gomap"

record disk =
  dk_mkdir :: "string option"
  dk_readdir :: "string option"
  dk_isdir :: "string \<Rightarrow> bool"
  dk_keeps :: "string \<Rightarrow> bool"
  dk_write :: "string option"
  dk_b64text :: "string \<Rightarrow> string"

definition maxAvatarSize :: nat where
  "maxAvatarSize = 2 * 1024 * 1024"

definition safe_char :: "char \<Rightarrow> char" where
  "safe_char c = (if c \<in> {CHR ''/'', CHR 0x5C, CHR '':'', CHR ''.''} then CHR ''_'' else c)"

definition safe_name :: "string \<Rightarrow> string" where
  "safe_name username = map safe_char username"

text \<open>
  \<^verbatim>\<open>cleanupOldAvatars\<close>: \<open>dk_keeps\<close> names the files whose removal fails.
\<close>

definition cleanupOldAvatars :: "disk \<Rightarrow> string \<Rightarrow> files \<Rightarrow> files" where
  "cleanupOldAvatars dk username fs =
     (case dk_readdir dk of
        Some _ \<Rightarrow> fs
      | None \<Rightarrow>
          delete_where (\<lambda>name _. \<not> dk_isdir dk name \<and> \<not> dk_keeps dk name
            \<and> (HasPrefix name (safe_name username @ ''.'') \<or> HasPrefix name (safe_name username @ ''_''))) fs)"

definition image_ext :: "string \<Rightarrow> string option" where
  "image_ext mimePart =
     (if Contains mimePart ''image/png'' then Some ''.png''
      else if Contains mimePart ''image/jpeg'' then Some ''.jpg''
      else if Contains mimePart ''image/gif'' then Some ''.gif''
      else if Contains mimePart ''image/webp'' then Some ''.webp''
      else None)"

definition saveAvatarFile :: "disk \<Rightarrow> string \<Rightarrow> string \<Rightarrow> files \<Rightarrow> string res \<times> files" where
  "saveAvatarFile dk username avatarData fs =
     (if HasPrefix avatarData ''/'' then (Inr avatarData, fs)
      else if \<not> HasPrefix avatarData ''data:'' then (Inr avatarData, fs)
      else
     (case dropWhile (\<lambda>c. c \<noteq> CHR '','') avatarData of
        [] \<Rightarrow> (Inl ''invalid data URI'', fs)
      | _ # base64Data \<Rightarrow>
     (let mimePart = takeWhile (\<lambda>c. c \<noteq> CHR '','') avatarData
      in case image_ext mimePart of
           None \<Rightarrow> (Inl (''unsupported image type: '' @ mimePart), fs)
         | Some ext \<Rightarrow>
     (case (case decode_padded base64Data of None \<Rightarrow> decode_raw base64Data | Some d \<Rightarrow> Some d) of
        None \<Rightarrow> (Inl (''failed to decode image data: '' @ dk_b64text dk base64Data), fs)
      | Some decoded \<Rightarrow>
     (if length decoded > maxAvatarSize
      then (Inl (''avatar too large: '' @ Itoa (int maxAvatarSize) @ '' bytes max''), fs)
      else
     (case dk_mkdir dk of
        Some e \<Rightarrow> (Inl (''failed to create avatar directory: '' @ e), fs)
      | None \<Rightarrow>
     (let fs1 = cleanupOldAvatars dk username fs; filename = safe_name username @ ext
      in case dk_write dk of
           Some e \<Rightarrow> (Inl (''failed to write avatar file: '' @ e), fs1)
         | None \<Rightarrow> (Inr (''/uploads/avatars/'' @ filename), AList.update filename decoded fs1))))))))"

section \<open>Lemmas\<close>


lemma image_ext_cases: "image_ext m = Some e \<Longrightarrow> e \<in> {''.png'', ''.jpg'', ''.gif'', ''.webp''}"
  by (auto simp: image_ext_def split: if_splits)

text \<open>The bytes that the text after the comma stands for.\<close>

definition avatar_bytes :: "string \<Rightarrow> 8 word list option" where
  "avatar_bytes base64Data = (case decode_padded base64Data of None \<Rightarrow> decode_raw base64Data | Some d \<Rightarrow> Some d)"

lemma saveAvatarFile_written:
  assumes "saveAvatarFile dk u data fs = (Inr path, fs')" "HasPrefix data ''data:''"
  obtains ext decoded where "image_ext (takeWhile (\<lambda>c. c \<noteq> CHR '','') data) = Some ext"
    "avatar_bytes (tl (dropWhile (\<lambda>c. c \<noteq> CHR '','') data)) = Some decoded"
    "ext \<in> {''.png'', ''.jpg'', ''.gif'', ''.webp''}" "path = ''/uploads/avatars/'' @ safe_name u @ ext"
    "length decoded \<le> maxAvatarSize" "fs' = AList.update (safe_name u @ ext) decoded (cleanupOldAvatars dk u fs)"
proof -
  have "\<not> HasPrefix data ''/''" using assms(2) by (auto simp: HasPrefix_iff)
  then obtain x b64 where d: "dropWhile (\<lambda>c. c \<noteq> CHR '','') data = x # b64"
    using assms by (cases "dropWhile (\<lambda>c. c \<noteq> CHR '','') data") (simp_all add: saveAvatarFile_def)
  let ?m = "takeWhile (\<lambda>c. c \<noteq> CHR '','') data"
  obtain ext where e: "image_ext ?m = Some ext"
    using assms d \<open>\<not> HasPrefix data ''/''\<close> by (cases "image_ext ?m") (simp_all add: saveAvatarFile_def Let_def)
  obtain decoded where r: "avatar_bytes b64 = Some decoded"
    using assms d e \<open>\<not> HasPrefix data ''/''\<close>
    by (cases "avatar_bytes b64") (simp_all add: saveAvatarFile_def Let_def avatar_bytes_def [symmetric])
  have "path = ''/uploads/avatars/'' @ safe_name u @ ext \<and> length decoded \<le> maxAvatarSize
      \<and> fs' = AList.update (safe_name u @ ext) decoded (cleanupOldAvatars dk u fs)"
    using assms d e r \<open>\<not> HasPrefix data ''/''\<close>
    by (cases "dk_mkdir dk"; cases "dk_write dk"; cases "maxAvatarSize < length decoded")
      (simp_all add: saveAvatarFile_def Let_def avatar_bytes_def [symmetric])
  then show thesis using that image_ext_cases [OF e] e r d by simp
qed



section \<open>Properties\<close>



text \<open>
  An upload deletes the avatars of other users: saving an avatar removes every file whose name starts
  with the user's name and an underscore, which includes the avatar of any user whose own
  name starts that way (bob deletes the avatar of bob_x).
\<close>

theorem upload_deletes_other_avatar:
  assumes "saveAvatarFile dk u data fs = (Inr path, fs')" "HasPrefix data ''data:''" "map_ok fs"
    "dk_readdir dk = None" "other = u @ ''_'' @ rest" "safe_name other = other"
    "\<not> dk_isdir dk (other @ ''.png'')" "\<not> dk_keeps dk (other @ ''.png'')"
  shows "map_of fs' (other @ ''.png'') = None"
proof -
  obtain ext decoded where *: "ext \<in> {''.png'', ''.jpg'', ''.gif'', ''.webp''}"
    "fs' = AList.update (safe_name u @ ext) decoded (cleanupOldAvatars dk u fs)"
    by (rule saveAvatarFile_written [OF assms(1,2)])
  have u: "safe_name u = u" using assms(5,6) by (simp add: safe_name_def safe_char_def)
  have "u @ ext \<noteq> other @ ''.png''" using *(1) assms(5) by auto
  moreover have "HasPrefix (other @ ''.png'') (safe_name u @ ''_'')"
    unfolding u assms(5) using HasPrefix_append [of "u @ ''_''" "rest @ ''.png''"] by simp
  ultimately show ?thesis
    using *(2) u assms(3,4,7,8) by (auto simp: gomap_simps cleanupOldAvatars_def split: option.splits)
qed

theorem upload_deletes_other_avatar_witness:
  "\<exists>fs'. saveAvatarFile \<lparr>dk_mkdir = None, dk_readdir = None, dk_isdir = (\<lambda>_. False), dk_keeps = (\<lambda>_. False),
        dk_write = None, dk_b64text = (\<lambda>_. [])\<rparr> ''bob'' ''data:image/png;base64,QUJD'' [(''bob_x.png'', [1])] =
      (Inr ''/uploads/avatars/bob.png'', fs') \<and> map_of fs' ''bob_x.png'' = None"
proof -
  let ?dk = "\<lparr>dk_mkdir = None, dk_readdir = None, dk_isdir = (\<lambda>_. False), dk_keeps = (\<lambda>_. False),
        dk_write = None, dk_b64text = (\<lambda>_. [])\<rparr> :: disk"
  obtain fs' where fs: "saveAvatarFile ?dk ''bob'' ''data:image/png;base64,QUJD'' [(''bob_x.png'', [1])] = (Inr ''/uploads/avatars/bob.png'', fs')"
    by (simp add: saveAvatarFile_def image_ext_def decode_padded_def skip_newlines_def b64_value_def b64_alphabet_def
        upt_rec maxAvatarSize_def safe_name_def safe_char_def Let_def)
  from upload_deletes_other_avatar [OF this, of "''bob_x''" "''x''"] fs show ?thesis
    by (simp add: map_ok_def safe_name_def safe_char_def)
qed

end
