(* ===== verification/Server_State.thy ===== *)
theory Server_State
  imports Db_Friends Db_Messages Rate_Limiter Session_Store Sanitize Avatar
begin

text \<open>
  The state of the server and the delivery of messages, \<^verbatim>\<open>internal/server/server.go\<close>.  Users and
  WebSocket clients are Go pointers: they live in two heaps, addressed by numbers, and the
  maps \<^verbatim>\<open>OnlineMap\<close> and \<^verbatim>\<open>WSConns\<close> hold addresses, so that two keys can name the same
  object.  A Go panic is the result \<^const>\<open>None\<close> of an operation.  What the operations read from
  outside the program is the record \<open>env\<close>: the database driver, the clock, the order of the
  \<^verbatim>\<open>range\<close> loops, which branch a \<^verbatim>\<open>select\<close> takes when a cancelled client could also be sent to,
  and the disk.  The files of the avatar directory are kept in the server state.
\<close>

section \<open>Data\<close>

record wsOutgoing =
  wo_Type :: string
  wo_Mode :: string
  wo_From :: string
  wo_To :: string
  wo_Group :: string
  wo_Avatar :: string
  wo_Content :: string
  wo_Time :: string

record wsIncoming =
  wi_Type :: string
  wi_Mode :: string
  wi_To :: string
  wi_Message :: string

text \<open>
  A TCP user.  \<open>us_conn\<close> says that the connection is not nil, \<open>us_sent\<close> holds the lines written
  to it, \<open>us_listening\<close> that the goroutine of \<^verbatim>\<open>ListenMessage\<close> is still running.
\<close>

record User =
  us_Name :: string
  us_Addr :: string
  us_C :: "string chan"
  us_conn :: bool
  us_auth :: bool
  us_Avatar :: string
  us_sent :: "string list"
  us_listening :: bool

text \<open>
  A WebSocket client; \<open>wc_done\<close> says that its context is cancelled, \<open>wc_sent\<close> holds the messages
  written to the connection, \<open>wc_writing\<close> that its write goroutine is still running.
\<close>

record WSClient =
  wc_Name :: string
  wc_Avatar :: string
  wc_RemoteIP :: string
  wc_C :: "wsOutgoing chan"
  wc_done :: bool
  wc_sent :: "wsOutgoing list"
  wc_writing :: bool

record BusMessage =
  bm_OriginID :: string
  bm_Type :: string
  bm_From :: string
  bm_To :: string
  bm_Avatar :: string
  bm_Content :: string
  bm_Time :: string

record Server =
  userHeap :: "nat \<Rightarrow> User"
  userNext :: nat
  wsHeap :: "nat \<Rightarrow> WSClient"
  wsNext :: nat
  OnlineMap :: "nat gomap"
  WSConns :: "nat gomap"
  Sessions :: MemorySessionStore
  DB :: Database
  loginLimiter :: rateLimiter
  registerLimiter :: rateLimiter
  sendLimiter :: rateLimiter
  tcpLoginLimiter :: rateLimiter
  tcpRegisterLimiter :: rateLimiter
  sessionTTL :: int
  sessionCleanup :: int
  maxMsgLength :: int
  historyLimit :: int
  historyMax :: int
  uploadDir :: string
  serverID :: string
  bus :: "BusMessage list option"
  avatarFiles :: files

record env =
  ev_drv :: driver
  ev_now :: int
  ev_hour :: nat
  ev_min :: nat
  ev_order :: "(string \<times> nat) list \<Rightarrow> (string \<times> nat) list"
  ev_skip :: "nat \<Rightarrow> bool"
  ev_disk :: disk

definition plain_env :: "int \<Rightarrow> env" where
  "plain_env t = \<lparr>ev_drv = plain_driver t, ev_now = t, ev_hour = 9, ev_min = 5, ev_order = (\<lambda>xs. xs),
     ev_skip = (\<lambda>_. False),
     ev_disk = \<lparr>dk_mkdir = None, dk_readdir = None, dk_isdir = (\<lambda>_. False), dk_keeps = (\<lambda>_. False),
       dk_write = None, dk_b64text = (\<lambda>_. [])\<rparr>\<rparr>"

text \<open>\<^verbatim>\<open>time.Now().Format("15:04")\<close>.\<close>

definition two_digits :: "nat \<Rightarrow> string" where
  "two_digits n = [char_of (48 + n div 10), char_of (48 + n mod 10)]"

definition nowLabelWS :: "env \<Rightarrow> string" where
  "nowLabelWS ev = two_digits (ev_hour ev) @ '':'' @ two_digits (ev_min ev)"

definition ws_message :: "string \<Rightarrow> string \<Rightarrow> string \<Rightarrow> string \<Rightarrow> string \<Rightarrow> string \<Rightarrow> string \<Rightarrow> wsOutgoing" where
  "ws_message mode from to grp avatar content time =
     \<lparr>wo_Type = ''message'', wo_Mode = mode, wo_From = from, wo_To = to, wo_Group = grp,
      wo_Avatar = avatar, wo_Content = content, wo_Time = time\<rparr>"

definition ws_plain :: "string \<Rightarrow> string \<Rightarrow> wsOutgoing" where
  "ws_plain type content =
     \<lparr>wo_Type = type, wo_Mode = [], wo_From = [], wo_To = [], wo_Group = [], wo_Avatar = [],
      wo_Content = content, wo_Time = []\<rparr>"

section \<open>Sending to one client\<close>

text \<open>
  \<^verbatim>\<open>SendMsg\<close> recovers from the panic of a send on a closed channel.
\<close>

definition user_send :: "string \<Rightarrow> User \<Rightarrow> User" where
  "user_send msg u = (case try_send (TrimRightNL msg) (us_C u) of None \<Rightarrow> u | Some c \<Rightarrow> u\<lparr>us_C := c\<rparr>)"

definition SendMsg :: "nat \<Rightarrow> string \<Rightarrow> Server \<Rightarrow> Server" where
  "SendMsg a msg s = s\<lparr>userHeap := (userHeap s)(a := user_send msg (userHeap s a))\<rparr>"

text \<open>
  \<^verbatim>\<open>writeWS\<close>: the channel of a client is never closed, so the send never panics; when the
  context is cancelled and the queue has room the runtime picks either branch of the
  \<^verbatim>\<open>select\<close>.  The message is kept as the value that is marshalled.
\<close>

definition ws_send :: "bool \<Rightarrow> wsOutgoing \<Rightarrow> WSClient \<Rightarrow> WSClient" where
  "ws_send skip msg c =
     (if wc_done c \<and> skip then c
      else if length (ch_buf (wc_C c)) < ch_cap (wc_C c)
      then c\<lparr>wc_C := (wc_C c)\<lparr>ch_buf := ch_buf (wc_C c) @ [msg]\<rparr>\<rparr>
      else c)"

definition writeWS :: "env \<Rightarrow> nat \<Rightarrow> wsOutgoing \<Rightarrow> Server \<Rightarrow> Server" where
  "writeWS ev a msg s = s\<lparr>wsHeap := (wsHeap s)(a := ws_send (ev_skip ev a) msg (wsHeap s a))\<rparr>"

section \<open>Sending to many clients\<close>

text \<open>The loop of \<^verbatim>\<open>fanoutTCP\<close> does not recover: a closed channel in the map is a panic.\<close>

fun fanout :: "string \<Rightarrow> (string \<times> nat) list \<Rightarrow> (nat \<Rightarrow> User) \<Rightarrow> (nat \<Rightarrow> User) option" where
  "fanout msg [] h = Some h"
| "fanout msg ((_, a) # es) h =
     (case try_send msg (us_C (h a)) of
        None \<Rightarrow> None
      | Some c \<Rightarrow> fanout msg es (h(a := (h a)\<lparr>us_C := c\<rparr>)))"

definition fanoutTCP :: "env \<Rightarrow> string \<Rightarrow> Server \<Rightarrow> Server option" where
  "fanoutTCP ev msg s =
     map_option (\<lambda>h. s\<lparr>userHeap := h\<rparr>) (fanout msg (ev_order ev (OnlineMap s)) (userHeap s))"

definition writeAllWS :: "env \<Rightarrow> wsOutgoing \<Rightarrow> Server \<Rightarrow> Server" where
  "writeAllWS ev msg s = fold (\<lambda>(_, a). writeWS ev a msg) (ev_order ev (WSConns s)) s"

definition deliverToGroupMembersWS ::
  "env \<Rightarrow> string \<Rightarrow> string \<Rightarrow> string \<Rightarrow> string \<Rightarrow> UserPublic list \<Rightarrow> Server \<Rightarrow> Server" where
  "deliverToGroupMembersWS ev groupName from msg avatar members s =
     fold (\<lambda>m s. case map_of (WSConns s) (up_Username m) of
               None \<Rightarrow> s
             | Some a \<Rightarrow> writeWS ev a (ws_message ''group'' from [] groupName avatar msg (nowLabelWS ev)) s)
       members s"

definition deliverToGroupMembersTCP :: "string \<Rightarrow> string \<Rightarrow> string \<Rightarrow> UserPublic list \<Rightarrow> Server \<Rightarrow> Server" where
  "deliverToGroupMembersTCP groupName from msg members s =
     (let textMsg = txt_group_open @ groupName @ ''] '' @ from @ '': '' @ msg
      in fold (\<lambda>m s. case map_of (OnlineMap s) (up_Username m) of
               None \<Rightarrow> s
             | Some a \<Rightarrow> SendMsg a (textMsg @ [CHR 0x0A]) s)
         members s)"

definition deliverPrivateWS :: "env \<Rightarrow> string \<Rightarrow> string \<Rightarrow> string \<Rightarrow> string \<Rightarrow> Server \<Rightarrow> Server" where
  "deliverPrivateWS ev from to content avatar s =
     (case map_of (WSConns s) to of
        None \<Rightarrow> s
      | Some a \<Rightarrow> writeWS ev a (ws_message ''private'' from to [] avatar content (nowLabelWS ev)) s)"

definition deliverPrivateTCP :: "string \<Rightarrow> string \<Rightarrow> string \<Rightarrow> Server \<Rightarrow> Server" where
  "deliverPrivateTCP from to content s =
     (case map_of (OnlineMap s) to of
        None \<Rightarrow> s
      | Some a \<Rightarrow> SendMsg a (txt_private @ from @ '': '' @ content @ [CHR 0x0A]) s)"

section \<open>Public, group and private messages\<close>

text \<open>\<^verbatim>\<open>Publish\<close> of the bus stamps the id of the server; a bus error is ignored by the caller.\<close>

definition Publish :: "BusMessage \<Rightarrow> Server \<Rightarrow> Server" where
  "Publish msg s =
     (case bus s of
        None \<Rightarrow> s
      | Some sent \<Rightarrow> s\<lparr>bus := Some (sent @ [msg\<lparr>bm_OriginID := serverID s\<rparr>])\<rparr>)"

text \<open>Saving is best effort: an error of the database is logged and the message is still sent.\<close>

definition save_best_effort :: "env \<Rightarrow> int \<Rightarrow> int option \<Rightarrow> int option \<Rightarrow> string \<Rightarrow> string \<Rightarrow> Server \<Rightarrow> Server" where
  "save_best_effort ev from to grp content type s =
     s\<lparr>DB := snd (SaveMessage (ev_drv ev) from to grp content type (DB s))\<rparr>"

definition broadcastPublic :: "env \<Rightarrow> string \<Rightarrow> string \<Rightarrow> string \<Rightarrow> bool \<Rightarrow> Server \<Rightarrow> Server option" where
  "broadcastPublic ev name msg0 avatar isSystem s =
     (case sanitizeInputWithLimit msg0 (maxMsgLength s) of
        None \<Rightarrow> None
      | Some msg \<Rightarrow>
          (let s1 = (case GetUserByUsername (ev_drv ev) (DB s) name of
                       Inl _ \<Rightarrow> s
                     | Inr u \<Rightarrow> save_best_effort ev (up_ID u) None None msg ''public'' s)
           in case fanoutTCP ev (name @ '': '' @ msg) s1 of
                None \<Rightarrow> None
              | Some s2 \<Rightarrow>
                  Some
                    (if isSystem then
                       Publish \<lparr>bm_OriginID = [], bm_Type = ''system'', bm_From = name, bm_To = [],
                           bm_Avatar = [], bm_Content = name @ '' '' @ msg, bm_Time = []\<rparr>
                         (writeAllWS ev (ws_plain ''system'' (name @ '' '' @ msg)) s2)
                     else
                       Publish \<lparr>bm_OriginID = [], bm_Type = ''public'', bm_From = name, bm_To = [],
                           bm_Avatar = avatar, bm_Content = msg, bm_Time = nowLabelWS ev\<rparr>
                         (writeAllWS ev (ws_message ''public'' name [] [] avatar msg (nowLabelWS ev)) s2))))"

definition BroadCast :: "env \<Rightarrow> nat \<Rightarrow> string \<Rightarrow> Server \<Rightarrow> Server option" where
  "BroadCast ev a msg s =
     (let u = userHeap s a; isSystem = (msg = sysOnline \<or> msg = sysOffline)
      in if isSystem then broadcastPublic ev (us_Name u) msg (us_Avatar u) True s
         else broadcastPublic ev (us_Name u) msg (us_Avatar u) False s)"

definition BroadCastFromWeb :: "env \<Rightarrow> string \<Rightarrow> string \<Rightarrow> string \<Rightarrow> Server \<Rightarrow> Server option" where
  "BroadCastFromWeb ev name msg avatar s = broadcastPublic ev name msg avatar False s"

definition broadcastToGroup ::
  "env \<Rightarrow> string \<Rightarrow> string \<Rightarrow> string \<Rightarrow> string \<Rightarrow> Server \<Rightarrow> (unit res \<times> Server) option" where
  "broadcastToGroup ev groupName from msg0 avatar s =
     (case sanitizeInputWithLimit msg0 (maxMsgLength s) of
        None \<Rightarrow> None
      | Some msg \<Rightarrow> Some
     (case GetUserByUsername (ev_drv ev) (DB s) from of
        Inl e \<Rightarrow> (Inl (txt_sender_missing @ e), s)
      | Inr fromUser \<Rightarrow>
     (case GetGroupMembers (ev_drv ev) (DB s) groupName of
        Inl e \<Rightarrow> (Inl (txt_members_failed @ e), s)
      | Inr members \<Rightarrow>
     (if members = [] then (Inl txt_group_empty, s)
      else
     (case GetGroupByName (ev_drv ev) (DB s) groupName of
        Inl e \<Rightarrow> (Inl (txt_group_id_failed @ e), s)
      | Inr grp \<Rightarrow>
          (Inr (),
           deliverToGroupMembersWS ev groupName from msg avatar members
             (deliverToGroupMembersTCP groupName from msg members
               (save_best_effort ev (up_ID fromUser) None (Some (dg_ID grp)) msg ''group'' s))))))))"

definition sendPrivate ::
  "env \<Rightarrow> string \<Rightarrow> string \<Rightarrow> string \<Rightarrow> string \<Rightarrow> Server \<Rightarrow> (unit res \<times> Server) option" where
  "sendPrivate ev from to content0 avatar s =
     (case sanitizeInputWithLimit content0 (maxMsgLength s) of
        None \<Rightarrow> None
      | Some content \<Rightarrow> Some
     (case GetUserByUsername (ev_drv ev) (DB s) from of
        Inl e \<Rightarrow> (Inl (txt_sender_missing @ e), s)
      | Inr fromUser \<Rightarrow>
     (case GetUserByUsername (ev_drv ev) (DB s) to of
        Inl e \<Rightarrow> (Inl (txt_receiver_missing @ e), s)
      | Inr toUser \<Rightarrow>
          (Inr (),
           deliverPrivateWS ev from to content avatar
             (deliverPrivateTCP from to content
               (save_best_effort ev (up_ID fromUser) (Some (up_ID toUser)) None content ''private'' s))))))"

section \<open>Names and accounts\<close>

text \<open>\<^verbatim>\<open>GetOnlineUsers\<close>: each name once, TCP users first; a pair is a name and its avatar.\<close>

fun collect_tcp :: "Server \<Rightarrow> (string \<times> nat) list \<Rightarrow> (string \<times> string) list \<Rightarrow> (string \<times> string) list" where
  "collect_tcp s [] users = users"
| "collect_tcp s ((_, a) # es) users =
     (let u = userHeap s a
      in if us_Name u \<in> fst ` set users then collect_tcp s es users
         else collect_tcp s es (users @ [(us_Name u, us_Avatar u)]))"

fun collect_ws :: "Server \<Rightarrow> (string \<times> nat) list \<Rightarrow> (string \<times> string) list \<Rightarrow> (string \<times> string) list" where
  "collect_ws s [] users = users"
| "collect_ws s ((name, a) # es) users =
     (if name \<in> fst ` set users then collect_ws s es users
      else collect_ws s es (users @ [(name, wc_Avatar (wsHeap s a))]))"

definition GetOnlineUsers :: "env \<Rightarrow> Server \<Rightarrow> (string \<times> string) list" where
  "GetOnlineUsers ev s =
     collect_ws s (ev_order ev (WSConns s)) (collect_tcp s (ev_order ev (OnlineMap s)) [])"

definition IsNameTaken :: "Server \<Rightarrow> string \<Rightarrow> bool" where
  "IsNameTaken s name = (map_of (OnlineMap s) name \<noteq> None \<or> map_of (WSConns s) name \<noteq> None)"

definition RenameUser :: "string \<Rightarrow> string \<Rightarrow> Server \<Rightarrow> bool \<times> Server" where
  "RenameUser oldName newName s =
     (if map_of (OnlineMap s) newName \<noteq> None then (False, s)
      else (case map_of (OnlineMap s) oldName of
              None \<Rightarrow> (False, s)
            | Some a \<Rightarrow> (True, s\<lparr>OnlineMap := move_key oldName newName a (OnlineMap s)\<rparr>)))"

definition RenameWSClient :: "string \<Rightarrow> string \<Rightarrow> Server \<Rightarrow> unit res \<times> Server" where
  "RenameWSClient oldName newName s =
     (if map_of (WSConns s) newName \<noteq> None then (Inl txt_name_taken, s)
      else (case map_of (WSConns s) oldName of
              None \<Rightarrow> (Inl txt_old_name_missing, s)
            | Some a \<Rightarrow>
                (Inr (), s\<lparr>wsHeap := (wsHeap s)(a := (wsHeap s a)\<lparr>wc_Name := newName\<rparr>),
                   WSConns := move_key oldName newName a (WSConns s)\<rparr>)))"

definition Authenticate :: "env \<Rightarrow> string \<Rightarrow> string \<Rightarrow> Server \<Rightarrow> string option" where
  "Authenticate ev username password s =
     (case AuthenticateUser (ev_drv ev) (DB s) username password of
        Inl _ \<Rightarrow> None
      | Inr user \<Rightarrow> Some (du_Avatar user))"

definition Register :: "env \<Rightarrow> string \<Rightarrow> string \<Rightarrow> string \<Rightarrow> Server \<Rightarrow> unit res \<times> Server" where
  "Register ev username password avatar s =
     (case RegisterUser (ev_drv ev) username password avatar (DB s) of (r, d) \<Rightarrow> (r, s\<lparr>DB := d\<rparr>))"

definition UpdateAvatar :: "env \<Rightarrow> string \<Rightarrow> string \<Rightarrow> Server \<Rightarrow> string res \<times> Server" where
  "UpdateAvatar ev username avatar s =
     (case saveAvatarFile (ev_disk ev) username avatar (avatarFiles s) of
        (Inl e, fs) \<Rightarrow> (Inl e, s\<lparr>avatarFiles := fs\<rparr>)
      | (Inr path, fs) \<Rightarrow>
          (case UpdateUserAvatar (ev_drv ev) username path (DB s) of
             (Inl e, d) \<Rightarrow> (Inl e, s\<lparr>avatarFiles := fs, DB := d\<rparr>)
           | (Inr _, d) \<Rightarrow> (Inr path, s\<lparr>avatarFiles := fs, DB := d\<rparr>)))"

definition srvCreateGroup :: "env \<Rightarrow> string \<Rightarrow> string \<Rightarrow> Server \<Rightarrow> unit res \<times> Server" where
  "srvCreateGroup ev groupName creator s =
     (case GetUserByUsername (ev_drv ev) (DB s) creator of
        Inl e \<Rightarrow> (Inl (txt_user_missing @ e), s)
      | Inr u \<Rightarrow>
          (case CreateGroup (ev_drv ev) groupName (up_ID u) [] (DB s) of
             (Inl e, d) \<Rightarrow> (Inl e, s\<lparr>DB := d\<rparr>)
           | (Inr _, d) \<Rightarrow> (Inr (), s\<lparr>DB := d\<rparr>)))"

definition srvJoinGroup :: "env \<Rightarrow> string \<Rightarrow> string \<Rightarrow> Server \<Rightarrow> unit res \<times> Server" where
  "srvJoinGroup ev groupName user s =
     (case GetUserByUsername (ev_drv ev) (DB s) user of
        Inl e \<Rightarrow> (Inl (txt_user_missing @ e), s)
      | Inr u \<Rightarrow> (case JoinGroup (ev_drv ev) groupName (up_ID u) (DB s) of (r, d) \<Rightarrow> (r, s\<lparr>DB := d\<rparr>)))"

definition srvLeaveGroup :: "env \<Rightarrow> string \<Rightarrow> string \<Rightarrow> Server \<Rightarrow> unit res \<times> Server" where
  "srvLeaveGroup ev groupName user s =
     (case GetUserByUsername (ev_drv ev) (DB s) user of
        Inl e \<Rightarrow> (Inl (txt_user_missing @ e), s)
      | Inr u \<Rightarrow> (case LeaveGroup (ev_drv ev) groupName (up_ID u) (DB s) of (r, d) \<Rightarrow> (r, s\<lparr>DB := d\<rparr>)))"

definition CreateSession :: "env \<Rightarrow> 8 word list res \<Rightarrow> string \<Rightarrow> Server \<Rightarrow> string res \<times> Server" where
  "CreateSession ev rnd username s =
     (case Create rnd (ev_now ev) username (sessionTTL s) (Sessions s) of (r, st) \<Rightarrow> (r, s\<lparr>Sessions := st\<rparr>))"

definition GetUsernameByToken :: "env \<Rightarrow> string \<Rightarrow> Server \<Rightarrow> string option \<times> Server" where
  "GetUsernameByToken ev token s =
     (case GetUsername (ev_now ev) token (Sessions s) of (r, st) \<Rightarrow> (r, s\<lparr>Sessions := st\<rparr>))"

definition UpdateSessionUsername :: "string \<Rightarrow> string \<Rightarrow> Server \<Rightarrow> Server" where
  "UpdateSessionUsername token username s = s\<lparr>Sessions := UpdateUsername token username (Sessions s)\<rparr>"

definition DeleteSession :: "string \<Rightarrow> Server \<Rightarrow> Server" where
  "DeleteSession token s = s\<lparr>Sessions := Delete token (Sessions s)\<rparr>"

text \<open>
  \<^verbatim>\<open>cleanupSessions\<close>: the goroutine starts with \<^verbatim>\<open>time.NewTicker\<close>, which panics for an interval that is
  not positive; then each tick is one turn of the loop.
\<close>

definition cleanupSessions :: "env \<Rightarrow> bool \<Rightarrow> Server \<Rightarrow> Server option" where
  "cleanupSessions ev ticking s =
     (if ticking then Some (s\<lparr>Sessions := Cleanup (ev_now ev) (Sessions s)\<rparr>)
      else if sessionCleanup s \<le> 0 then None
      else Some s)"

end
