(* ===== verification/Delivery.thy ===== *)
theory Delivery
  imports Server_State
begin

text \<open>
  Correctness of message delivery.  A locale states what a mailbox promises (a queue of
  bounded length to which a message is appended or from which it is kept out) and proves
  once what a loop of sends over a set of addresses does; it is interpreted on the TCP users
  and on the WebSocket clients.  The second part is the invariant of the server state and the
  lemmas that delivery keeps it; the third part says who receives what.
\<close>

section \<open>Mailboxes\<close>

fun post_all :: "(nat \<Rightarrow> 'm \<Rightarrow> 'o \<Rightarrow> 'o) \<Rightarrow> 'm \<Rightarrow> nat list \<Rightarrow> (nat \<Rightarrow> 'o) \<Rightarrow> nat \<Rightarrow> 'o" where
  "post_all put m [] h = h"
| "post_all put m (a # as) h = post_all put m as (h(a := put a m (h a)))"

locale mailbox =
  fixes put :: "nat \<Rightarrow> 'm \<Rightarrow> 'o \<Rightarrow> 'o"
    and queue :: "'o \<Rightarrow> 'm list"
    and cap :: "'o \<Rightarrow> nat"
  assumes queue_put: "queue (put a m x) = queue x \<or> queue (put a m x) = queue x @ [m]"
    and cap_put: "cap (put a m x) = cap x"
    and bound_put: "length (queue x) \<le> cap x \<Longrightarrow> length (queue (put a m x)) \<le> cap x"
begin

lemma post_all_at:
  "distinct as \<Longrightarrow> post_all put m as h = (\<lambda>a. if a \<in> set as then put a m (h a) else h a)"
  by (induction as arbitrary: h) (auto simp: fun_eq_iff)

lemma post_all_order:
  "distinct as \<Longrightarrow> mset as = mset bs \<Longrightarrow> post_all put m as h = post_all put m bs h"
proof -
  assume "distinct as" "mset as = mset bs"
  moreover from this have "distinct bs" "set as = set bs"
    using mset_eq_imp_distinct_iff mset_eq_setD by blast+
  ultimately show ?thesis by (simp add: post_all_at)
qed

lemma post_all_queue:
  assumes "distinct as"
  shows "queue (post_all put m as h a) = queue (h a)
    \<or> a \<in> set as \<and> queue (post_all put m as h a) = queue (h a) @ [m]"
  using queue_put [of a m "h a"] by (auto simp: post_all_at [OF assms])

lemma post_all_bound:
  "distinct as \<Longrightarrow> \<forall>a. length (queue (h a)) \<le> cap (h a) \<Longrightarrow>
   length (queue (post_all put m as h a)) \<le> cap (post_all put m as h a)"
  by (auto simp: post_all_at cap_put bound_put)

end

definition enqueue :: "'a \<Rightarrow> 'a chan \<Rightarrow> 'a chan" where
  "enqueue x c = (if length (ch_buf c) < ch_cap c then c\<lparr>ch_buf := ch_buf c @ [x]\<rparr> else c)"

lemma enqueue_fields [simp]:
  "ch_closed (enqueue x c) = ch_closed c" "ch_cap (enqueue x c) = ch_cap c"
  "chan_ok c \<Longrightarrow> chan_ok (enqueue x c)"
  by (auto simp: enqueue_def chan_ok_def)

lemma try_send_enqueue: "try_send x c = (if ch_closed c then None else Some (enqueue x c))"
  by (simp add: try_send_def enqueue_def)

text \<open>A line put into the queue of a user, as \<^verbatim>\<open>fanoutTCP\<close> does it.\<close>

definition put_line :: "nat \<Rightarrow> string \<Rightarrow> User \<Rightarrow> User" where
  "put_line a line u = u\<lparr>us_C := enqueue line (us_C u)\<rparr>"

interpretation tcp: mailbox put_line "\<lambda>u. ch_buf (us_C u)" "\<lambda>u. ch_cap (us_C u)"
  by unfold_locales (auto simp: put_line_def enqueue_def)

interpretation wsb: mailbox "\<lambda>a. ws_send (skip a)" "\<lambda>c. ch_buf (wc_C c)" "\<lambda>c. ch_cap (wc_C c)"
  for skip :: "nat \<Rightarrow> bool"
  by unfold_locales (auto simp: ws_send_def)

lemma fanout_open:
  "\<forall>a \<in> snd ` set es. \<not> ch_closed (us_C (h a)) \<Longrightarrow>
   fanout msg es h = Some (post_all put_line msg (map snd es) h)"
proof (induction es arbitrary: h)
  case (Cons e es)
  obtain k a where e: "e = (k, a)" by (cases e)
  have "\<forall>b \<in> snd ` set es. \<not> ch_closed (us_C ((h(a := put_line a msg (h a))) b))"
    using Cons.prems e by (auto simp: put_line_def)
  from Cons.IH [OF this] show ?case
    using Cons.prems e by (simp add: try_send_enqueue put_line_def fun_upd_def)
qed simp

lemma fanout_closed:
  "a \<in> snd ` set es \<Longrightarrow> ch_closed (us_C (h a)) \<Longrightarrow> fanout msg es h = None"
proof (induction es arbitrary: h)
  case (Cons e es)
  obtain k b where e: "e = (k, b)" by (cases e)
  show ?case
  proof (cases "ch_closed (us_C (h b))")
    case True
    then show ?thesis using e by (simp add: try_send_enqueue)
  next
    case False
    with Cons.prems e have "a \<in> snd ` set es" "b \<noteq> a" by auto
    with Cons.IH [of "h(b := (h b)\<lparr>us_C := enqueue msg (us_C (h b))\<rparr>)"] Cons.prems(2) False e
    show ?thesis by (simp add: try_send_enqueue fun_upd_def)
  qed
qed simp

lemma writeAllWS_post:
  "writeAllWS ev msg s =
     s\<lparr>wsHeap := post_all (\<lambda>a. ws_send (ev_skip ev a)) msg (map snd (ev_order ev (WSConns s))) (wsHeap s)\<rparr>"
proof -
  have "fold (\<lambda>(_, a). writeWS ev a msg) es t =
      t\<lparr>wsHeap := post_all (\<lambda>a. ws_send (ev_skip ev a)) msg (map snd es) (wsHeap t)\<rparr>"
    for es :: "(string \<times> nat) list" and t
    by (induction es arbitrary: t) (auto simp: writeWS_def)
  then show ?thesis by (simp add: writeAllWS_def)
qed

section \<open>The invariant of the server\<close>

text \<open>
  No user is in \<^verbatim>\<open>OnlineMap\<close> under two keys and every user in it has an open channel; every
  entry of \<^verbatim>\<open>WSConns\<close> has the name of its client as the key; no queue is longer than its
  capacity; the database is consistent; the message limit is not negative.
\<close>

definition tcp_ok :: "Server \<Rightarrow> bool" where
  "tcp_ok s =
     (map_ok (OnlineMap s)
      \<and> (\<forall>k a. map_of (OnlineMap s) k = Some a \<longrightarrow>
           a < userNext s \<and> \<not> ch_closed (us_C (userHeap s a))
           \<and> (\<forall>k'. map_of (OnlineMap s) k' = Some a \<longrightarrow> k' = k)))"

definition ws_ok :: "Server \<Rightarrow> bool" where
  "ws_ok s =
     (map_ok (WSConns s)
      \<and> (\<forall>k a. map_of (WSConns s) k = Some a \<longrightarrow> a < wsNext s \<and> wc_Name (wsHeap s a) = k))"

definition queues_ok :: "Server \<Rightarrow> bool" where
  "queues_ok s = ((\<forall>a. chan_ok (us_C (userHeap s a))) \<and> (\<forall>a. chan_ok (wc_C (wsHeap s a))))"

definition server_ok :: "Server \<Rightarrow> bool" where
  "server_ok s = (tcp_ok s \<and> ws_ok s \<and> queues_ok s \<and> db_ok (DB s) \<and> sessions_ok (Sessions s) \<and> 0 \<le> maxMsgLength s)"

lemmas server_ok_defs = server_ok_def tcp_ok_def ws_ok_def queues_ok_def

lemma tcp_one_key:
  "tcp_ok s \<Longrightarrow> map_of (OnlineMap s) k = Some a \<Longrightarrow> map_of (OnlineMap s) k' = Some a \<Longrightarrow> k = k'"
  by (auto simp: tcp_ok_def)

lemma tcp_distinct: "tcp_ok s \<Longrightarrow> distinct (map snd (OnlineMap s))"
proof -
  assume ok: "tcp_ok s"
  then have m: "map_ok (OnlineMap s)" by (simp add: tcp_ok_def)
  then have "distinct (OnlineMap s)" unfolding map_ok_def by (metis distinct_map)
  moreover have "inj_on snd (set (OnlineMap s))"
  proof (rule inj_onI)
    fix x y assume "x \<in> set (OnlineMap s)" "y \<in> set (OnlineMap s)" "snd x = snd y"
    then show "x = y" using tcp_one_key [OF ok] map_ok_in_set [OF m] by (metis prod.collapse)
  qed
  ultimately show ?thesis by (simp add: distinct_map)
qed

lemma ws_distinct: "ws_ok s \<Longrightarrow> distinct (map snd (WSConns s))"
proof -
  assume ok: "ws_ok s"
  then have d: "distinct (map fst (WSConns s))" by (simp add: ws_ok_def map_ok_def)
  have "fst x = wc_Name (wsHeap s (snd x))" if "x \<in> set (WSConns s)" for x
    using ok that d by (cases x) (auto simp: ws_ok_def)
  then have "map fst (WSConns s) = map (\<lambda>a. wc_Name (wsHeap s a)) (map snd (WSConns s))"
    by simp
  with d show ?thesis using distinct_map by metis
qed

lemma tcp_addr: "tcp_ok s \<Longrightarrow> a \<in> snd ` set (OnlineMap s) \<longleftrightarrow> (\<exists>k. map_of (OnlineMap s) k = Some a)"
proof -
  assume "tcp_ok s"
  then have "map_ok (OnlineMap s)" by (simp add: tcp_ok_def)
  then show ?thesis unfolding map_ok_in_set [OF \<open>map_ok (OnlineMap s)\<close>, symmetric] by force
qed

lemma ws_addr: "ws_ok s \<Longrightarrow> a \<in> snd ` set (WSConns s) \<longleftrightarrow> (\<exists>k. map_of (WSConns s) k = Some a)"
proof -
  assume "ws_ok s"
  then have "map_ok (WSConns s)" by (simp add: ws_ok_def)
  then show ?thesis unfolding map_ok_in_set [OF \<open>map_ok (WSConns s)\<close>, symmetric] by force
qed

lemma any_order_snd:
  "any_order f \<Longrightarrow> distinct (map snd es) \<Longrightarrow> distinct (map snd (f es)) \<and> set (map snd (f es)) = set (map snd es)"
proof -
  assume "any_order f" "distinct (map snd es)"
  moreover from this have "mset (map snd (f es)) = mset (map snd es)" by (simp add: any_order_def)
  ultimately show ?thesis using mset_eq_imp_distinct_iff mset_eq_setD by metis
qed

text \<open>What a fan-out does, whatever the order of the loop.\<close>

lemma fanoutTCP_ok:
  assumes "tcp_ok s" "any_order (ev_order ev)"
  shows "fanoutTCP ev msg s = Some (s\<lparr>userHeap :=
     (\<lambda>a. if a \<in> snd ` set (OnlineMap s) then put_line a msg (userHeap s a) else userHeap s a)\<rparr>)"
proof -
  let ?es = "ev_order ev (OnlineMap s)"
  have es: "distinct (map snd ?es)" "snd ` set ?es = snd ` set (OnlineMap s)"
    using any_order_snd [OF assms(2) tcp_distinct [OF assms(1)]] assms(2) by auto
  have "\<forall>a \<in> snd ` set ?es. \<not> ch_closed (us_C (userHeap s a))"
    using assms(1) unfolding es(2) tcp_addr [OF assms(1)] Ball_def by (auto simp: tcp_ok_def)
  then have "fanout msg ?es (userHeap s) = Some (post_all put_line msg (map snd ?es) (userHeap s))"
    by (rule fanout_open)
  then show ?thesis
    using es by (simp add: fanoutTCP_def tcp.post_all_at)
qed

lemma writeAllWS_ok:
  assumes "ws_ok s" "any_order (ev_order ev)"
  shows "writeAllWS ev msg s = s\<lparr>wsHeap :=
     (\<lambda>a. if a \<in> snd ` set (WSConns s) then ws_send (ev_skip ev a) msg (wsHeap s a) else wsHeap s a)\<rparr>"
  using any_order_snd [OF assms(2) ws_distinct [OF assms(1)]] assms(2)
  by (simp add: writeAllWS_post wsb.post_all_at)

section \<open>Delivery changes queues only\<close>

definition same_user :: "User \<Rightarrow> User \<Rightarrow> bool" where
  "same_user u v =
     (\<exists>c xs. v = u\<lparr>us_C := c\<rparr> \<and> ch_closed c = ch_closed (us_C u) \<and> (chan_ok (us_C u) \<longrightarrow> chan_ok c)
        \<and> ch_buf c = ch_buf (us_C u) @ xs)"

definition same_client :: "WSClient \<Rightarrow> WSClient \<Rightarrow> bool" where
  "same_client x y =
     (\<exists>c ms. y = x\<lparr>wc_C := c\<rparr> \<and> (chan_ok (wc_C x) \<longrightarrow> chan_ok c) \<and> ch_buf c = ch_buf (wc_C x) @ ms)"

definition only_queues :: "Server \<Rightarrow> Server \<Rightarrow> bool" where
  "only_queues s s' =
     (\<exists>h w. s' = s\<lparr>userHeap := h, wsHeap := w\<rparr> \<and> (\<forall>a. same_user (userHeap s a) (h a))
        \<and> (\<forall>a. same_client (wsHeap s a) (w a)))"

lemma same_user_refl [simp]: "same_user u u"
  by (auto simp: same_user_def intro: exI [of _ "us_C u"])

lemma same_client_refl [simp]: "same_client x x"
  by (auto simp: same_client_def intro: exI [of _ "wc_C x"])

lemma same_user_trans: "same_user u v \<Longrightarrow> same_user v w \<Longrightarrow> same_user u w"
  by (auto simp: same_user_def)

lemma same_client_trans: "same_client u v \<Longrightarrow> same_client v w \<Longrightarrow> same_client u w"
  by (auto simp: same_client_def)

lemma same_user_put [simp]: "same_user u (put_line a m u)"
proof -
  have "\<exists>xs. ch_buf (enqueue m (us_C u)) = ch_buf (us_C u) @ xs" by (simp add: enqueue_def)
  then show ?thesis by (auto simp: same_user_def put_line_def)
qed

lemma same_client_send [simp]: "same_client c (ws_send k m c)"
proof (cases "ws_send k m c = c")
  case False
  then show ?thesis by (auto simp: same_client_def ws_send_def chan_ok_def split: if_splits)
qed simp

lemma user_send_put:
  "user_send msg u = (if ch_closed (us_C u) then u else put_line a (TrimRightNL msg) u)"
  by (simp add: user_send_def put_line_def try_send_enqueue)

lemma same_user_send [simp]: "same_user u (user_send m u)"
  by (simp add: user_send_put [of _ _ 0])

lemma only_queuesI:
  "(\<And>a. same_user (userHeap s a) (h a)) \<Longrightarrow> (\<And>a. same_client (wsHeap s a) (w a)) \<Longrightarrow>
   only_queues s (s\<lparr>userHeap := h, wsHeap := w\<rparr>)"
  by (auto simp: only_queues_def)

lemma only_queues_refl [simp]: "only_queues s s"
  using only_queuesI [of s "userHeap s" "wsHeap s"] by simp

lemma only_queues_trans: "only_queues s t \<Longrightarrow> only_queues t r \<Longrightarrow> only_queues s r"
proof -
  assume "only_queues s t" "only_queues t r"
  then obtain h w h' w' where "t = s\<lparr>userHeap := h, wsHeap := w\<rparr>" "r = t\<lparr>userHeap := h', wsHeap := w'\<rparr>"
    and same: "\<And>a. same_user (userHeap s a) (h a)" "\<And>a. same_client (wsHeap s a) (w a)"
    "\<And>a. same_user (h a) (h' a)" "\<And>a. same_client (w a) (w' a)"
    by (auto simp: only_queues_def)
  then have r: "r = s\<lparr>userHeap := h', wsHeap := w'\<rparr>" by simp
  show ?thesis
    unfolding r using same by (blast intro: only_queuesI same_user_trans same_client_trans)
qed

lemma only_queues_SendMsg [simp]: "only_queues s (SendMsg a m s)"
  using only_queuesI [of s "(userHeap s)(a := user_send m (userHeap s a))" "wsHeap s"]
  by (simp add: SendMsg_def)

lemma only_queues_writeWS [simp]: "only_queues s (writeWS ev a m s)"
  using only_queuesI [of s "userHeap s" "(wsHeap s)(a := ws_send (ev_skip ev a) m (wsHeap s a))"]
  by (simp add: writeWS_def)

lemma only_queues_fold: "(\<And>x t. only_queues t (f x t)) \<Longrightarrow> only_queues s (fold f xs s)"
proof (induction xs arbitrary: s)
  case (Cons x xs)
  then show ?case using only_queues_trans by fastforce
qed simp

lemma only_queues_writeAllWS [simp]: "only_queues s (writeAllWS ev m s)"
  unfolding writeAllWS_def by (rule only_queues_fold) (simp split: prod.splits)

lemma only_queues_group [simp]:
  "only_queues s (deliverToGroupMembersTCP g from m ms s)"
  "only_queues s (deliverToGroupMembersWS ev g from m av ms s)"
  unfolding deliverToGroupMembersTCP_def deliverToGroupMembersWS_def Let_def
  by (rule only_queues_fold; simp split: option.splits)+

lemma only_queues_private [simp]:
  "only_queues s (deliverPrivateTCP from to m s)" "only_queues s (deliverPrivateWS ev from to m av s)"
  by (auto simp: deliverPrivateTCP_def deliverPrivateWS_def split: option.splits)

lemma only_queues_fanout:
  assumes "tcp_ok s" "any_order (ev_order ev)"
  obtains s' where "fanoutTCP ev m s = Some s'" "only_queues s s'"
  using fanoutTCP_ok [OF assms] only_queuesI [of s _ "wsHeap s"] by simp

lemma same_user_fields:
  "same_user u v \<Longrightarrow> us_Name v = us_Name u \<and> us_Addr v = us_Addr u \<and> us_auth v = us_auth u
     \<and> us_Avatar v = us_Avatar u \<and> us_conn v = us_conn u \<and> ch_closed (us_C v) = ch_closed (us_C u)"
  by (auto simp: same_user_def)

text \<open>
  How the queue of a user develops: lines are only added at its end, and what was written to the
  connection stays.
\<close>

definition grown :: "User \<Rightarrow> User \<Rightarrow> bool" where
  "grown u v =
     (us_sent v = us_sent u \<and> us_conn v = us_conn u \<and> us_listening v = us_listening u
      \<and> ch_closed (us_C v) = ch_closed (us_C u) \<and> (\<exists>xs. ch_buf (us_C v) = ch_buf (us_C u) @ xs))"

lemma grown_refl [simp]: "grown u u"
  by (simp add: grown_def)

lemma grown_trans: "grown u v \<Longrightarrow> grown v w \<Longrightarrow> grown u w"
  by (auto simp: grown_def)

lemma same_user_grown: "same_user u v \<Longrightarrow> grown u v"
  by (auto simp: same_user_def grown_def)

lemma grown_closed: "grown u v \<Longrightarrow> ch_closed (us_C v) = ch_closed (us_C u)"
  by (simp add: grown_def)

definition client_grown :: "WSClient \<Rightarrow> WSClient \<Rightarrow> bool" where
  "client_grown x y =
     (wc_sent y = wc_sent x \<and> wc_writing y = wc_writing x \<and> (wc_done x \<longrightarrow> wc_done y)
      \<and> (\<exists>ms. ch_buf (wc_C y) = ch_buf (wc_C x) @ ms))"

lemma client_grown_refl [simp]: "client_grown x x"
  by (simp add: client_grown_def)

lemma client_grown_trans: "client_grown x y \<Longrightarrow> client_grown y z \<Longrightarrow> client_grown x z"
  by (auto simp: client_grown_def)

lemma same_client_grown: "same_client x y \<Longrightarrow> client_grown x y"
  by (auto simp: same_client_def client_grown_def)

text \<open>What an operation hands to the bus: messages of this server, after those already there.\<close>

definition published :: "Server \<Rightarrow> Server \<Rightarrow> bool" where
  "published s s' =
     (serverID s' = serverID s
      \<and> (\<exists>ms. bus s' = map_option (\<lambda>l. l @ ms) (bus s) \<and> (\<forall>m \<in> set ms. bm_OriginID m = serverID s)))"

lemma published_same: "serverID s' = serverID s \<Longrightarrow> bus s' = bus s \<Longrightarrow> published s s'"
  unfolding published_def by (intro conjI exI [of _ "[]"]) (simp_all add: option.map_ident)

lemma published_fields [simp]:
  "published s (t\<lparr>userHeap := x0\<rparr>) = published s t" "published (s\<lparr>userHeap := x0\<rparr>) t = published s t"
  "published s (t\<lparr>userNext := x1\<rparr>) = published s t" "published (s\<lparr>userNext := x1\<rparr>) t = published s t"
  "published s (t\<lparr>wsHeap := x2\<rparr>) = published s t" "published (s\<lparr>wsHeap := x2\<rparr>) t = published s t"
  "published s (t\<lparr>wsNext := x3\<rparr>) = published s t" "published (s\<lparr>wsNext := x3\<rparr>) t = published s t"
  "published s (t\<lparr>OnlineMap := x4\<rparr>) = published s t" "published (s\<lparr>OnlineMap := x4\<rparr>) t = published s t"
  "published s (t\<lparr>WSConns := x5\<rparr>) = published s t" "published (s\<lparr>WSConns := x5\<rparr>) t = published s t"
  "published s (t\<lparr>Sessions := x6\<rparr>) = published s t" "published (s\<lparr>Sessions := x6\<rparr>) t = published s t"
  "published s (t\<lparr>DB := x7\<rparr>) = published s t" "published (s\<lparr>DB := x7\<rparr>) t = published s t"
  "published s (t\<lparr>loginLimiter := x8\<rparr>) = published s t" "published (s\<lparr>loginLimiter := x8\<rparr>) t = published s t"
  "published s (t\<lparr>registerLimiter := x9\<rparr>) = published s t" "published (s\<lparr>registerLimiter := x9\<rparr>) t = published s t"
  "published s (t\<lparr>sendLimiter := x10\<rparr>) = published s t" "published (s\<lparr>sendLimiter := x10\<rparr>) t = published s t"
  "published s (t\<lparr>tcpLoginLimiter := x11\<rparr>) = published s t" "published (s\<lparr>tcpLoginLimiter := x11\<rparr>) t = published s t"
  "published s (t\<lparr>tcpRegisterLimiter := x12\<rparr>) = published s t" "published (s\<lparr>tcpRegisterLimiter := x12\<rparr>) t = published s t"
  "published s (t\<lparr>avatarFiles := x13\<rparr>) = published s t" "published (s\<lparr>avatarFiles := x13\<rparr>) t = published s t"
  by (simp_all add: published_def)

lemma published_refl [simp]: "published s s"
  by (simp add: published_same)

lemma published_trans: "published s t \<Longrightarrow> published t r \<Longrightarrow> published s r"
proof -
  assume "published s t" "published t r"
  then obtain ms ns where m: "bus t = map_option (\<lambda>l. l @ ms) (bus s)" "bus r = map_option (\<lambda>l. l @ ns) (bus t)"
    "serverID t = serverID s" "serverID r = serverID s"
    "\<forall>m \<in> set ms. bm_OriginID m = serverID s" "\<forall>m \<in> set ns. bm_OriginID m = serverID s"
    by (auto simp: published_def)
  then show ?thesis
    unfolding published_def by (intro conjI exI [of _ "ms @ ns"]) (auto simp: option.map_comp comp_def)
qed

lemma published_Publish: "published s (Publish m s)"
proof (cases "bus s")
  case None
  then show ?thesis by (simp add: Publish_def)
next
  case (Some l)
  then show ?thesis
    unfolding published_def Publish_def by (auto intro: exI [of _ "[m\<lparr>bm_OriginID := serverID s\<rparr>]"])
qed


lemma same_client_fields:
  "same_client x y \<Longrightarrow> wc_Name y = wc_Name x \<and> wc_done y = wc_done x \<and> wc_Avatar y = wc_Avatar x
     \<and> wc_RemoteIP y = wc_RemoteIP x"
  by (auto simp: same_client_def)

lemma only_queues_same:
  "only_queues s s' \<Longrightarrow> same_user (userHeap s a) (userHeap s' a)"
  "only_queues s s' \<Longrightarrow> same_client (wsHeap s a) (wsHeap s' a)"
  by (auto simp: only_queues_def)

lemma only_queues_fields:
  assumes "only_queues s s'"
  shows "OnlineMap s' = OnlineMap s" "WSConns s' = WSConns s" "DB s' = DB s" "Sessions s' = Sessions s"
    "userNext s' = userNext s" "wsNext s' = wsNext s" "bus s' = bus s" "maxMsgLength s' = maxMsgLength s"
    "tcpLoginLimiter s' = tcpLoginLimiter s" "serverID s' = serverID s"
    "us_Name (userHeap s' a) = us_Name (userHeap s a)" "us_auth (userHeap s' a) = us_auth (userHeap s a)"
    "us_Addr (userHeap s' a) = us_Addr (userHeap s a)" "us_conn (userHeap s' a) = us_conn (userHeap s a)"
    "ch_closed (us_C (userHeap s' a)) = ch_closed (us_C (userHeap s a))"
    "wc_Name (wsHeap s' a) = wc_Name (wsHeap s a)" "wc_done (wsHeap s' a) = wc_done (wsHeap s a)"
  using same_user_fields [OF only_queues_same(1) [OF assms, of a]]
    same_client_fields [OF only_queues_same(2) [OF assms, of a]] assms
  by (auto simp: only_queues_def)

lemma only_queues_ok: "only_queues s s' \<Longrightarrow> server_ok s \<Longrightarrow> server_ok s'"
proof -
  assume q: "only_queues s s'" and ok: "server_ok s"
  from q have "chan_ok (us_C (userHeap s a)) \<longrightarrow> chan_ok (us_C (userHeap s' a))"
    "chan_ok (wc_C (wsHeap s a)) \<longrightarrow> chan_ok (wc_C (wsHeap s' a))" for a
    using only_queues_same [OF q, of a] by (auto simp: same_user_def same_client_def)
  with ok show ?thesis
    by (simp add: server_ok_defs only_queues_fields [OF q])
qed

end
