(* ===== verification/Messaging.thy ===== *)
theory Messaging
  imports Delivery
begin

text \<open>
  The messaging operations of the server, \<^verbatim>\<open>internal/server/server.go\<close>: they keep the invariant
  of the state, never panic, and deliver to exactly the right clients.
\<close>

section \<open>The invariant\<close>

lemma server_ok_fields [simp]:
  "server_ok (s\<lparr>bus := b\<rparr>) = server_ok s"
  "server_ok (s\<lparr>loginLimiter := l\<rparr>) = server_ok s" "server_ok (s\<lparr>registerLimiter := l\<rparr>) = server_ok s"
  "server_ok (s\<lparr>sendLimiter := l\<rparr>) = server_ok s" "server_ok (s\<lparr>tcpLoginLimiter := l\<rparr>) = server_ok s"
  "server_ok (s\<lparr>tcpRegisterLimiter := l\<rparr>) = server_ok s"
  "server_ok (s\<lparr>avatarFiles := fs\<rparr>) = server_ok s"
  by (simp_all add: server_ok_defs)

lemma server_ok_DB: "server_ok s \<Longrightarrow> db_ok d \<Longrightarrow> server_ok (s\<lparr>DB := d\<rparr>)"
  by (simp add: server_ok_defs)

lemma server_ok_Sessions: "server_ok s \<Longrightarrow> sessions_ok t \<Longrightarrow> server_ok (s\<lparr>Sessions := t\<rparr>)"
  by (simp add: server_ok_defs)

lemma server_okD:
  "server_ok s \<Longrightarrow> tcp_ok s" "server_ok s \<Longrightarrow> ws_ok s" "server_ok s \<Longrightarrow> queues_ok s"
  "server_ok s \<Longrightarrow> db_ok (DB s)" "server_ok s \<Longrightarrow> sessions_ok (Sessions s)" "server_ok s \<Longrightarrow> 0 \<le> maxMsgLength s"
  by (simp_all add: server_ok_def)

lemma server_ok_Publish [simp]: "server_ok (Publish m s) = server_ok s"
  by (simp add: Publish_def split: option.splits)

text \<open>
  What a messaging operation may change: queues, the database and the bus.
\<close>

definition messaging :: "Server \<Rightarrow> Server \<Rightarrow> bool" where
  "messaging s s' = (published s s' \<and> (\<exists>t d b. only_queues s t \<and> s' = t\<lparr>DB := d, bus := b\<rparr>))"

lemma messaging_queues: "only_queues s t \<Longrightarrow> messaging s t"
  unfolding messaging_def
  by (intro conjI exI [of _ t] exI [of _ "DB t"] exI [of _ "bus t"])
    (simp_all add: published_same only_queues_fields)

lemma messaging_DB: "messaging s (s\<lparr>DB := d\<rparr>)"
  unfolding messaging_def
  by (intro conjI exI [of _ s] exI [of _ d] exI [of _ "bus s"]) (simp_all add: published_same)

lemma messaging_Publish: "messaging s (Publish m s)"
  unfolding messaging_def
  by (intro conjI published_Publish exI [of _ s] exI [of _ "DB s"] exI [of _ "bus (Publish m s)"])
    (simp_all add: Publish_def split: option.splits)

lemma only_queues_DB_bus: "only_queues (s\<lparr>DB := d, bus := b\<rparr>) r \<Longrightarrow> \<exists>t. only_queues s t \<and> r = t\<lparr>DB := d, bus := b\<rparr>"
  unfolding only_queues_def by fastforce

lemma messaging_trans: "messaging s t \<Longrightarrow> messaging t r \<Longrightarrow> messaging s r"
proof -
  assume m: "messaging s t" "messaging t r"
  then have "published s r" using published_trans unfolding messaging_def by blast
  moreover from m obtain x d b y d' b' where "only_queues s x" "t = x\<lparr>DB := d, bus := b\<rparr>" "only_queues t y"
    "r = y\<lparr>DB := d', bus := b'\<rparr>"
    by (auto simp: messaging_def)
  moreover from this obtain z where "only_queues x z" "y = z\<lparr>DB := d, bus := b\<rparr>"
    using only_queues_DB_bus by blast
  ultimately show ?thesis
    unfolding messaging_def using only_queues_trans
    by (intro conjI exI [of _ z] exI [of _ d'] exI [of _ b']) auto
qed

lemma messaging_fields:
  assumes "messaging s s'"
  shows "OnlineMap s' = OnlineMap s" "WSConns s' = WSConns s" "Sessions s' = Sessions s"
    "userNext s' = userNext s" "wsNext s' = wsNext s" "maxMsgLength s' = maxMsgLength s"
    "us_Name (userHeap s' a) = us_Name (userHeap s a)" "us_auth (userHeap s' a) = us_auth (userHeap s a)"
    "us_Addr (userHeap s' a) = us_Addr (userHeap s a)" "us_conn (userHeap s' a) = us_conn (userHeap s a)"
    "ch_closed (us_C (userHeap s' a)) = ch_closed (us_C (userHeap s a))"
    "wc_Name (wsHeap s' a) = wc_Name (wsHeap s a)" "wc_done (wsHeap s' a) = wc_done (wsHeap s a)"
  using assms by (auto simp: messaging_def only_queues_fields)

lemma save_best_effort_ok:
  assumes "server_ok s" "f \<in> set (user_ids (DB s))" "\<forall>j. t = Some j \<longrightarrow> j \<in> set (user_ids (DB s))"
    "\<forall>j. g = Some j \<longrightarrow> j \<in> set (group_ids (DB s))"
  shows "server_ok (save_best_effort ev f t g c ty s)"
  unfolding save_best_effort_def
  using assms by (intro server_ok_DB SaveMessage_db_ok) (auto dest: server_okD)

lemma messaging_save: "messaging s (save_best_effort ev f t g c ty s)"
  by (simp add: save_best_effort_def messaging_DB)

lemma sanitize_ok: "0 \<le> m \<Longrightarrow> \<exists>r. sanitizeInputWithLimit x m = Some r"
  by (simp add: sanitize_some)

lemma server_sanitize:
  assumes "server_ok s"
  obtains r where "sanitizeInputWithLimit x (maxMsgLength s) = Some r"
  using sanitize_ok server_okD(6) [OF assms] by blast

text \<open>What \<^verbatim>\<open>broadcastPublic\<close> sends to the WebSocket clients.\<close>

definition public_out :: "env \<Rightarrow> string \<Rightarrow> string \<Rightarrow> string \<Rightarrow> bool \<Rightarrow> wsOutgoing" where
  "public_out ev name msg avatar isSystem =
     (if isSystem then ws_plain ''system'' (name @ '' '' @ msg)
      else ws_message ''public'' name [] [] avatar msg (nowLabelWS ev))"

text \<open>The state with a public message saved, for a sender that is an account.\<close>

definition saved_public :: "env \<Rightarrow> string \<Rightarrow> string \<Rightarrow> Server \<Rightarrow> Server" where
  "saved_public ev name msg s =
     (case GetUserByUsername (ev_drv ev) (DB s) name of
        Inl _ \<Rightarrow> s
      | Inr u \<Rightarrow> save_best_effort ev (up_ID u) None None msg ''public'' s)"

lemma saved_public_ok: "server_ok s \<Longrightarrow> server_ok (saved_public ev name msg s)"
  by (auto simp: saved_public_def split: sum.splits intro!: save_best_effort_ok dest: GetUserByUsername_InrD)

lemma messaging_saved_public: "messaging s (saved_public ev name msg s)"
  by (auto simp: saved_public_def messaging_save messaging_queues split: sum.splits)

lemma saved_public_heaps [simp]:
  "userHeap (saved_public ev name msg s) = userHeap s" "wsHeap (saved_public ev name msg s) = wsHeap s"
  "OnlineMap (saved_public ev name msg s) = OnlineMap s" "WSConns (saved_public ev name msg s) = WSConns s"
  by (simp_all add: saved_public_def save_best_effort_def split: sum.splits)

text \<open>The state after the two loops of a public message.\<close>

definition public_sent :: "env \<Rightarrow> string \<Rightarrow> string \<Rightarrow> string \<Rightarrow> bool \<Rightarrow> Server \<Rightarrow> Server" where
  "public_sent ev name msg avatar sys s =
     s\<lparr>userHeap := (\<lambda>a. if a \<in> snd ` set (OnlineMap s) then put_line a (name @ '': '' @ msg) (userHeap s a)
           else userHeap s a),
       wsHeap := (\<lambda>a. if a \<in> snd ` set (WSConns s)
           then ws_send (ev_skip ev a) (public_out ev name msg avatar sys) (wsHeap s a) else wsHeap s a)\<rparr>"

lemma broadcastPublic_eq:
  assumes "server_ok s" "any_order (ev_order ev)" "sanitizeInputWithLimit msg0 (maxMsgLength s) = Some msg"
  shows "\<exists>m. broadcastPublic ev name msg0 avatar sys s =
    Some (Publish m (public_sent ev name msg avatar sys (saved_public ev name msg s)))"
proof -
  let ?t = "saved_public ev name msg s"
  let ?h = "\<lambda>a. if a \<in> snd ` set (OnlineMap ?t) then put_line a (name @ '': '' @ msg) (userHeap ?t a) else userHeap ?t a"
  have ok: "tcp_ok ?t" "ws_ok ?t" using saved_public_ok [OF assms(1)] server_okD by blast+
  have f: "fanoutTCP ev (name @ '': '' @ msg) ?t = Some (?t\<lparr>userHeap := ?h\<rparr>)"
    using fanoutTCP_ok [OF ok(1) assms(2)] .
  have "ws_ok (?t\<lparr>userHeap := ?h\<rparr>)" using ok(2) by (simp add: ws_ok_def)
  then have w: "writeAllWS ev out (?t\<lparr>userHeap := ?h\<rparr>) = ?t\<lparr>userHeap := ?h, wsHeap :=
      (\<lambda>a. if a \<in> snd ` set (WSConns ?t) then ws_send (ev_skip ev a) out (wsHeap ?t a) else wsHeap ?t a)\<rparr>" for out
    using writeAllWS_ok [OF _ assms(2)] by (simp cong: if_cong)
  show ?thesis
    using assms(3) f w unfolding broadcastPublic_def saved_public_def [symmetric]
    by (auto simp: Let_def public_sent_def public_out_def cong: if_cong)
qed

lemma only_queues_public_sent: "only_queues s (public_sent ev name msg avatar sys s)"
  unfolding public_sent_def by (rule only_queuesI) simp_all

lemma broadcastPublic_ok:
  assumes "server_ok s" "any_order (ev_order ev)"
  shows "\<exists>s'. broadcastPublic ev name msg0 avatar sys s = Some s' \<and> server_ok s' \<and> messaging s s'"
proof -
  obtain msg where msg: "sanitizeInputWithLimit msg0 (maxMsgLength s) = Some msg"
    using server_sanitize [OF assms(1)] .
  let ?t = "saved_public ev name msg s"
  have "server_ok (public_sent ev name msg avatar sys ?t)"
    using only_queues_ok [OF only_queues_public_sent saved_public_ok [OF assms(1)]] .
  moreover have "messaging s (Publish m (public_sent ev name msg avatar sys ?t))" for m
    by (rule messaging_trans [OF messaging_saved_public])
      (rule messaging_trans [OF messaging_queues [OF only_queues_public_sent] messaging_Publish])
  ultimately show ?thesis
    using broadcastPublic_eq [OF assms msg, of name avatar sys] by auto
qed

lemma BroadCast_ok:
  assumes "server_ok s" "any_order (ev_order ev)"
  shows "\<exists>s'. BroadCast ev a msg s = Some s' \<and> server_ok s' \<and> messaging s s'"
  using broadcastPublic_ok [OF assms] by (simp add: BroadCast_def Let_def)

lemma account_exists: "GetUserByUsername drv d n = Inr u \<Longrightarrow> n \<in> du_Username ` set (db_users d)"
  using GetUserByUsername_InrD [of drv d n u] by (metis image_eqI)

text \<open>Private messages: what the two deliveries do.\<close>

definition private_sent :: "env \<Rightarrow> string \<Rightarrow> string \<Rightarrow> string \<Rightarrow> string \<Rightarrow> Server \<Rightarrow> Server" where
  "private_sent ev from to content avatar s =
     s\<lparr>userHeap := (\<lambda>a. if map_of (OnlineMap s) to = Some a
           then user_send (txt_private @ from @ '': '' @ content @ [CHR 0x0A]) (userHeap s a) else userHeap s a),
       wsHeap := (\<lambda>a. if map_of (WSConns s) to = Some a
           then ws_send (ev_skip ev a) (ws_message ''private'' from to [] avatar content (nowLabelWS ev)) (wsHeap s a)
           else wsHeap s a)\<rparr>"

lemma deliver_private:
  "deliverPrivateWS ev from to content avatar (deliverPrivateTCP from to content s) =
   private_sent ev from to content avatar s"
  by (auto simp: deliverPrivateWS_def deliverPrivateTCP_def private_sent_def SendMsg_def writeWS_def
      fun_upd_def split: option.splits intro!: Server.equality)

lemma only_queues_private_sent: "only_queues s (private_sent ev from to content avatar s)"
  unfolding private_sent_def by (rule only_queuesI) simp_all

lemma sendPrivate_cases:
  assumes "server_ok s"
  obtains e where "sendPrivate ev from to c av s = Some (Inl e, s)"
    "(\<exists>x. GetUserByUsername (ev_drv ev) (DB s) from = Inl x) \<or> (\<exists>x. GetUserByUsername (ev_drv ev) (DB s) to = Inl x)"
  | content u v where "sanitizeInputWithLimit c (maxMsgLength s) = Some content"
    "GetUserByUsername (ev_drv ev) (DB s) from = Inr u" "GetUserByUsername (ev_drv ev) (DB s) to = Inr v"
    "sendPrivate ev from to c av s = Some (Inr (), private_sent ev from to content av
       (save_best_effort ev (up_ID u) (Some (up_ID v)) None content ''private'' s))"
proof -
  obtain content where "sanitizeInputWithLimit c (maxMsgLength s) = Some content"
    using server_sanitize [OF assms] .
  then show thesis
    using that
    by (cases "GetUserByUsername (ev_drv ev) (DB s) from"; cases "GetUserByUsername (ev_drv ev) (DB s) to")
      (simp_all add: sendPrivate_def deliver_private)
qed

lemma sendPrivate_ok:
  assumes "server_ok s"
  shows "\<exists>r s'. sendPrivate ev from to c av s = Some (r, s') \<and> server_ok s' \<and> messaging s s'"
proof (cases rule: sendPrivate_cases [OF assms, of ev "from" to c av])
  case 1
  then show ?thesis using assms messaging_queues [OF only_queues_refl] by blast
next
  case (2 content u v)
  have "server_ok (save_best_effort ev (up_ID u) (Some (up_ID v)) None content ''private'' s)"
    using 2 assms by (intro save_best_effort_ok) (auto dest: GetUserByUsername_InrD)
  moreover have "messaging s (private_sent ev from to content av
      (save_best_effort ev (up_ID u) (Some (up_ID v)) None content ''private'' s))"
    by (rule messaging_trans [OF messaging_save messaging_queues [OF only_queues_private_sent]])
  ultimately show ?thesis using only_queues_ok [OF only_queues_private_sent] 2(4) by simp
qed

text \<open>Group messages.\<close>

definition group_text :: "string \<Rightarrow> string \<Rightarrow> string \<Rightarrow> string" where
  "group_text g from msg = txt_group_open @ g @ ''] '' @ from @ '': '' @ msg @ [CHR 0x0A]"

definition group_sent ::
  "env \<Rightarrow> string \<Rightarrow> string \<Rightarrow> string \<Rightarrow> string \<Rightarrow> string set \<Rightarrow> Server \<Rightarrow> Server" where
  "group_sent ev g from msg avatar names s =
     s\<lparr>userHeap := (\<lambda>a. if \<exists>n \<in> names. map_of (OnlineMap s) n = Some a
           then user_send (group_text g from msg) (userHeap s a) else userHeap s a),
       wsHeap := (\<lambda>a. if \<exists>n \<in> names. map_of (WSConns s) n = Some a
           then ws_send (ev_skip ev a) (ws_message ''group'' from [] g avatar msg (nowLabelWS ev)) (wsHeap s a)
           else wsHeap s a)\<rparr>"

lemma deliver_group_TCP:
  assumes "tcp_ok s" "distinct (map up_Username ms)"
  shows "deliverToGroupMembersTCP g from msg ms s =
    s\<lparr>userHeap := (\<lambda>a. if \<exists>n \<in> up_Username ` set ms. map_of (OnlineMap s) n = Some a
           then user_send (group_text g from msg) (userHeap s a) else userHeap s a)\<rparr>"
proof -
  have inj: "k = k'" if "map_of (OnlineMap s) k = Some a" "map_of (OnlineMap s) k' = Some a" for k k' a
    using tcp_one_key [OF assms(1) that] .
  let ?f = "\<lambda>m t. case map_of (OnlineMap t) (up_Username m) of None \<Rightarrow> t
      | Some a \<Rightarrow> SendMsg a (group_text g from msg) t"
  have "fold ?f xs t = t\<lparr>userHeap := (\<lambda>a. if \<exists>n \<in> up_Username ` set xs. map_of (OnlineMap s) n = Some a
           then user_send (group_text g from msg) (userHeap t a) else userHeap t a)\<rparr>"
    if "OnlineMap t = OnlineMap s" "distinct (map up_Username xs)" for xs t
    using that
  proof (induction xs arbitrary: t)
    case (Cons x xs)
    have *: "OnlineMap (?f x t) = OnlineMap s" using Cons.prems(1) by (simp add: SendMsg_def split: option.splits)
    have "\<not> (\<exists>n \<in> up_Username ` set xs. map_of (OnlineMap s) n = Some a)"
      if "map_of (OnlineMap s) (up_Username x) = Some a" for a
      using inj [OF that] Cons.prems(2) by auto
    then show ?case
      using Cons.IH [OF *] Cons.prems
      by (auto simp: SendMsg_def fun_eq_iff split: option.splits intro!: Server.equality)
  qed simp
  note loop = this
  have "(txt_group_open @ g @ ''] '' @ from @ '': '' @ msg) @ [CHR 0x0A] = group_text g from msg"
    by (simp add: group_text_def)
  then show ?thesis
    unfolding deliverToGroupMembersTCP_def Let_def using loop [OF refl assms(2)] by (simp only:)
qed

lemma deliver_group_WS:
  assumes "ws_ok s" "distinct (map up_Username ms)"
  shows "deliverToGroupMembersWS ev g from msg av ms s =
    s\<lparr>wsHeap := (\<lambda>a. if \<exists>n \<in> up_Username ` set ms. map_of (WSConns s) n = Some a
           then ws_send (ev_skip ev a) (ws_message ''group'' from [] g av msg (nowLabelWS ev)) (wsHeap s a)
           else wsHeap s a)\<rparr>"
proof -
  have inj: "k = k'" if "map_of (WSConns s) k = Some a" "map_of (WSConns s) k' = Some a" for k k' a
    using assms(1) that by (auto simp: ws_ok_def)
  let ?m = "ws_message ''group'' from [] g av msg (nowLabelWS ev)"
  let ?f = "\<lambda>m t. case map_of (WSConns t) (up_Username m) of None \<Rightarrow> t | Some a \<Rightarrow> writeWS ev a ?m t"
  have "fold ?f xs t = t\<lparr>wsHeap := (\<lambda>a. if \<exists>n \<in> up_Username ` set xs. map_of (WSConns s) n = Some a
           then ws_send (ev_skip ev a) ?m (wsHeap t a) else wsHeap t a)\<rparr>"
    if "WSConns t = WSConns s" "distinct (map up_Username xs)" for xs t
    using that
  proof (induction xs arbitrary: t)
    case (Cons x xs)
    have *: "WSConns (?f x t) = WSConns s" using Cons.prems(1) by (simp add: writeWS_def split: option.splits)
    have "\<not> (\<exists>n \<in> up_Username ` set xs. map_of (WSConns s) n = Some a)"
      if "map_of (WSConns s) (up_Username x) = Some a" for a
      using inj [OF that] Cons.prems(2) by auto
    then show ?case
      using Cons.IH [OF *] Cons.prems
      by (auto simp: writeWS_def fun_eq_iff split: option.splits intro!: Server.equality)
  qed simp
  from this [OF refl assms(2)] show ?thesis
    by (simp add: deliverToGroupMembersWS_def)
qed

lemma deliver_group:
  assumes "tcp_ok s" "ws_ok s" "distinct (map up_Username ms)"
  shows "deliverToGroupMembersWS ev g from msg av ms (deliverToGroupMembersTCP g from msg ms s) =
    group_sent ev g from msg av (up_Username ` set ms) s"
proof -
  let ?h = "\<lambda>a. if \<exists>n \<in> up_Username ` set ms. map_of (OnlineMap s) n = Some a
      then user_send (group_text g from msg) (userHeap s a) else userHeap s a"
  have "ws_ok (s\<lparr>userHeap := ?h\<rparr>)" using assms(2) by (simp add: ws_ok_def)
  then show ?thesis
    unfolding deliver_group_TCP [OF assms(1,3)] group_sent_def
    by (simp add: deliver_group_WS [OF _ assms(3)] cong: if_cong)
qed

lemma only_queues_group_sent: "only_queues s (group_sent ev g from msg av names s)"
  unfolding group_sent_def by (rule only_queuesI) simp_all

lemma GetGroupByName_id: "GetGroupByName drv d n = Inr g \<Longrightarrow> dg_ID g \<in> set (group_ids d)"
  by (auto simp: GetGroupByName_def group_ids_def split: option.splits dest: find_group_SomeD)

lemma broadcastToGroup_cases:
  assumes "server_ok s" "delivers_all (ev_drv ev)"
  obtains e where "broadcastToGroup ev g from c av s = Some (Inl e, s)"
  | content u ms grp where "sanitizeInputWithLimit c (maxMsgLength s) = Some content"
    "GetUserByUsername (ev_drv ev) (DB s) from = Inr u" "GetGroupMembers (ev_drv ev) (DB s) g = Inr ms"
    "GetGroupByName (ev_drv ev) (DB s) g = Inr grp" "ms \<noteq> []"
    "server_ok (save_best_effort ev (up_ID u) None (Some (dg_ID grp)) content ''group'' s)"
    "broadcastToGroup ev g from c av s = Some (Inr (), group_sent ev g from content av (up_Username ` set ms)
       (save_best_effort ev (up_ID u) None (Some (dg_ID grp)) content ''group'' s))"
proof -
  obtain content where c: "sanitizeInputWithLimit c (maxMsgLength s) = Some content"
    using server_sanitize [OF assms(1)] .
  show thesis
  proof (cases "\<exists>u ms grp. GetUserByUsername (ev_drv ev) (DB s) from = Inr u
      \<and> GetGroupMembers (ev_drv ev) (DB s) g = Inr ms \<and> ms \<noteq> [] \<and> GetGroupByName (ev_drv ev) (DB s) g = Inr grp")
    case False
    have "\<exists>e. broadcastToGroup ev g from c av s = Some (Inl e, s)"
      using False c unfolding broadcastToGroup_def by (auto split: sum.splits)
    then show thesis using that(1) by blast
  next
    case True
    then obtain u ms grp where *: "GetUserByUsername (ev_drv ev) (DB s) from = Inr u"
      "GetGroupMembers (ev_drv ev) (DB s) g = Inr ms" "ms \<noteq> []" "GetGroupByName (ev_drv ev) (DB s) g = Inr grp"
      by blast
    let ?t = "save_best_effort ev (up_ID u) None (Some (dg_ID grp)) content ''group'' s"
    have t: "server_ok ?t"
      using * assms(1) GetGroupByName_id by (intro save_best_effort_ok) (auto dest: GetUserByUsername_InrD)
    have "distinct (map up_Username ms)"
      using GetGroupMembers_rows(2) [OF _ assms(2) *(2)] server_okD(4) [OF assms(1)] by (simp add: db_ok_def)
    from deliver_group [OF server_okD(1) [OF t] server_okD(2) [OF t] this, of ev g "from" content av] show thesis
      using that(2) [OF c *(1,2,4,3) t] c * by (simp add: broadcastToGroup_def)
  qed
qed

lemma broadcastToGroup_ok:
  assumes "server_ok s" "delivers_all (ev_drv ev)"
  shows "\<exists>r s'. broadcastToGroup ev g from c av s = Some (r, s') \<and> server_ok s' \<and> messaging s s'"
proof (cases rule: broadcastToGroup_cases [OF assms, of g "from" c av])
  case 1
  then show ?thesis using assms messaging_queues [OF only_queues_refl] by blast
next
  case (2 content u ms grp)
  have "messaging s (group_sent ev g from content av (up_Username ` set ms)
      (save_best_effort ev (up_ID u) None (Some (dg_ID grp)) content ''group'' s))"
    by (rule messaging_trans [OF messaging_save messaging_queues [OF only_queues_group_sent]])
  with only_queues_ok [OF only_queues_group_sent 2(6)] 2(7) show ?thesis by simp
qed

text \<open>
  A small server for the witnesses: alice is connected over TCP and over a WebSocket, bob
  over TCP, and an unnamed TCP connection waits at \<open>10.0.0.9:5\<close>; the database is the one of
  the message witnesses.
\<close>

definition demo_user :: "string \<Rightarrow> string \<Rightarrow> bool \<Rightarrow> User" where
  "demo_user name addr auth =
     \<lparr>us_Name = name, us_Addr = addr, us_C = make_chan 100, us_conn = True, us_auth = auth, us_Avatar = [],
      us_sent = [], us_listening = True\<rparr>"

definition demo_client :: "string \<Rightarrow> WSClient" where
  "demo_client name = \<lparr>wc_Name = name, wc_Avatar = ''x'', wc_RemoteIP = ''10.0.0.1'', wc_C = make_chan 100, wc_done = False,
     wc_sent = [], wc_writing = True\<rparr>"

definition demo_server :: Server where
  "demo_server =
     \<lparr>userHeap = (\<lambda>a. if a = 0 then demo_user ''alice'' ''10.0.0.1:5'' True
         else if a = 1 then demo_user ''bob'' ''10.0.0.2:5'' True else demo_user ''10.0.0.9:5'' ''10.0.0.9:5'' False),
      userNext = 3, wsHeap = (\<lambda>a. demo_client ''alice''), wsNext = 1,
      OnlineMap = [(''alice'', 0), (''bob'', 1), (''10.0.0.9:5'', 2)], WSConns = [(''alice'', 0)],
      Sessions = NewMemorySessionStore, DB = chat_db,
      loginLimiter = newRateLimiter 3 60, registerLimiter = newRateLimiter 3 60,
      sendLimiter = newRateLimiter 3 60, tcpLoginLimiter = newRateLimiter 3 60,
      tcpRegisterLimiter = newRateLimiter 3 60, sessionTTL = 3600, sessionCleanup = 60, maxMsgLength = 500, historyLimit = 50,
      historyMax = 200, uploadDir = ''uploads'', serverID = ''s1'', bus = None, avatarFiles = []\<rparr>"

lemma chat_db_ok: "db_ok chat_db"
  by (simp add: db_ok_def chat_db_def demo_db_def empty_db_def keys_ok_def refs_ok_def friends_ok_def
      friend_pairs_def db_ids_defs)

lemma demo_server_ok: "server_ok demo_server"
  using chat_db_ok
  by (simp add: server_ok_defs demo_server_def demo_user_def demo_client_def map_ok_def make_chan_def chan_ok_def)

lemma plain_env_ok [simp]:
  "any_order (ev_order (plain_env t))" "delivers_all (ev_drv (plain_env t))" "fk_enforced (ev_drv (plain_env t))"
  by (simp_all add: plain_env_def any_order_id plain_driver_ok)

section \<open>Properties\<close>

text \<open>
  C15. A public message reaches everybody: \<^verbatim>\<open>broadcastPublic\<close> never panics on a well-formed server, puts
  one copy of the line into the queue of every TCP user and one copy of the event into the
  queue of every WebSocket client, whatever the order of the map loops, and drops it only
  where that queue is full (or that client is cancelled); nobody else's queue changes, and
  the state is well formed again.
\<close>

theorem public_message_reaches_all:
  assumes "server_ok s" "any_order (ev_order ev)"
  shows "\<exists>msg s'. sanitizeInputWithLimit msg0 (maxMsgLength s) = Some msg
    \<and> broadcastPublic ev name msg0 avatar sys s = Some s' \<and> server_ok s'
    \<and> (\<forall>a. us_C (userHeap s' a) = (if \<exists>k. map_of (OnlineMap s) k = Some a
           then enqueue (name @ '': '' @ msg) (us_C (userHeap s a)) else us_C (userHeap s a)))
    \<and> (\<forall>a. wsHeap s' a = (if \<exists>k. map_of (WSConns s) k = Some a
           then ws_send (ev_skip ev a) (public_out ev name msg avatar sys) (wsHeap s a) else wsHeap s a))"
proof -
  obtain msg where msg: "sanitizeInputWithLimit msg0 (maxMsgLength s) = Some msg"
    using server_sanitize [OF assms(1)] .
  obtain m where b: "broadcastPublic ev name msg0 avatar sys s =
      Some (Publish m (public_sent ev name msg avatar sys (saved_public ev name msg s)))"
    using broadcastPublic_eq [OF assms msg] by blast
  have heaps: "userHeap (Publish m t) = userHeap t" "wsHeap (Publish m t) = wsHeap t" for t
    by (simp_all add: Publish_def split: option.splits)
  show ?thesis
    using msg b broadcastPublic_ok [OF assms, of name msg0 avatar sys]
      tcp_addr [OF server_okD(1) [OF assms(1)]] ws_addr [OF server_okD(2) [OF assms(1)]]
    by (auto simp: heaps public_sent_def put_line_def)
qed

theorem public_message_reaches_all_witness:
  "\<exists>msg s'. broadcastPublic (plain_env 9) ''bob'' ''<b>hi</b>'' [] False demo_server = Some s' \<and> server_ok s'
     \<and> us_C (userHeap s' 0) = enqueue (''bob: '' @ msg) (us_C (userHeap demo_server 0))"
proof -
  have "\<exists>k. map_of (OnlineMap demo_server) k = Some 0"
    by (rule exI [of _ "''alice''"]) (simp add: demo_server_def)
  then show ?thesis
    using public_message_reaches_all [OF demo_server_ok plain_env_ok(1), of "''<b>hi</b>''" 9 "''bob''" "[]" False]
    by auto
qed

text \<open>
  C5. A private message is private: \<^verbatim>\<open>sendPrivate\<close> either fails and changes nothing, or sender and
  receiver are accounts, the message is stored (if the database takes it) and it is queued
  for the connections under the receiver's name and for no others.
\<close>

theorem private_message_only_receiver:
  assumes "server_ok s"
  shows "case sendPrivate ev from to c av s of
      None \<Rightarrow> False
    | Some (Inl e, s') \<Rightarrow> s' = s
    | Some (Inr _, s') \<Rightarrow>
        {from, to} \<subseteq> set (map du_Username (db_users (DB s)))
        \<and> (\<exists>content. sanitizeInputWithLimit c (maxMsgLength s) = Some content
            \<and> (\<forall>a. userHeap s' a = (if map_of (OnlineMap s) to = Some a
                 then user_send (txt_private @ from @ '': '' @ content @ [CHR 0x0A]) (userHeap s a)
                 else userHeap s a))
            \<and> (\<forall>a. wsHeap s' a = (if map_of (WSConns s) to = Some a
                 then ws_send (ev_skip ev a) (ws_message ''private'' from to [] av content (nowLabelWS ev)) (wsHeap s a)
                 else wsHeap s a)))"
proof (cases rule: sendPrivate_cases [OF assms, of ev "from" to c av])
  case (1 e)
  then show ?thesis by simp
next
  case (2 content u v)
  have "{from, to} \<subseteq> set (map du_Username (db_users (DB s)))"
    using account_exists [OF 2(2)] account_exists [OF 2(3)] by simp
  then show ?thesis
    using 2 by (simp add: private_sent_def save_best_effort_def)
qed

theorem private_message_only_receiver_witness:
  "\<exists>s'. sendPrivate (plain_env 9) ''alice'' ''bob'' ''hi'' [] demo_server = Some (Inr (), s')
     \<and> userHeap s' 2 = userHeap demo_server 2"
proof -
  have "\<exists>s'. sendPrivate (plain_env 9) ''alice'' ''bob'' ''hi'' [] demo_server = Some (Inr (), s')"
    by (simp add: sendPrivate_def sanitize_some demo_server_def GetUserByUsername_def plain_env_def chat_db_def demo_db_def)
  moreover have "map_of (OnlineMap demo_server) ''bob'' \<noteq> Some 2" by (simp add: demo_server_def)
  ultimately show ?thesis
    using private_message_only_receiver [OF demo_server_ok, of "''alice''" "''bob''" "''hi''" "plain_env 9" "[]"]
    by auto
qed

text \<open>
  C16. A group message goes to the group: \<^verbatim>\<open>broadcastToGroup\<close> either fails and changes nothing, or
  queues one copy for every connection whose name is a member of the group, and changes no
  other queue.
\<close>

theorem group_message_only_members:
  assumes "server_ok s" "delivers_all (ev_drv ev)"
  shows "case broadcastToGroup ev g from c av s of
      None \<Rightarrow> False
    | Some (Inl e, s') \<Rightarrow> s' = s
    | Some (Inr _, s') \<Rightarrow>
        (let names = du_Username ` {v \<in> set (db_users (DB s)). is_member (DB s) g (du_ID v)}
         in \<exists>content. sanitizeInputWithLimit c (maxMsgLength s) = Some content
            \<and> (\<forall>a. userHeap s' a = (if \<exists>n \<in> names. map_of (OnlineMap s) n = Some a
                 then user_send (group_text g from content) (userHeap s a) else userHeap s a))
            \<and> (\<forall>a. wsHeap s' a = (if \<exists>n \<in> names. map_of (WSConns s) n = Some a
                 then ws_send (ev_skip ev a) (ws_message ''group'' from [] g av content (nowLabelWS ev)) (wsHeap s a)
                 else wsHeap s a)))"
proof (cases rule: broadcastToGroup_cases [OF assms, of g "from" c av])
  case (1 e)
  then show ?thesis by simp
next
  case (2 content u ms grp)
  have "up_Username ` set ms = du_Username ` {v \<in> set (db_users (DB s)). is_member (DB s) g (du_ID v)}"
    using GetGroupMembers_rows(1) [OF _ assms(2) 2(3)] server_okD(4) [OF assms(1)]
    by (auto simp: db_ok_def image_iff)
  then have names: "du_Username ` {v \<in> set (db_users (DB s)). is_member (DB s) g (du_ID v)} = up_Username ` set ms" ..
  show ?thesis
    unfolding Let_def names using 2(1,7) by (simp add: group_sent_def save_best_effort_def)
qed

theorem group_message_only_members_witness:
  "\<exists>s'. broadcastToGroup (plain_env 9) ''team'' ''bob'' ''hi'' [] demo_server = Some (Inr (), s')
     \<and> userHeap s' 2 = userHeap demo_server 2"
proof -
  have "\<exists>s'. broadcastToGroup (plain_env 9) ''team'' ''bob'' ''hi'' [] demo_server = Some (Inr (), s')"
    by (simp add: broadcastToGroup_def sanitize_some demo_server_def GetUserByUsername_def GetGroupMembers_def
        GetGroupByName_def scan_rows_def plain_env_def chat_db_def demo_db_def)
  moreover have "\<not> (\<exists>n \<in> du_Username ` {v \<in> set (db_users (DB demo_server)). is_member (DB demo_server) ''team'' (du_ID v)}.
      map_of (OnlineMap demo_server) n = Some 2)"
    by (auto simp: demo_server_def chat_db_def demo_db_def split: if_splits)
  ultimately show ?thesis
    using group_message_only_members [OF demo_server_ok plain_env_ok(2), of "''team''" "''hi''" "''bob''" 9 "[]"]
    by (auto simp: Let_def)
qed

text \<open>A join on a key picks one row.\<close>

lemma join_none: "k x \<notin> k ` set xs \<Longrightarrow> concat (map (\<lambda>y. if k x = k y then h y else []) xs) = []"
  by (induction xs) auto

lemma join_unique:
  "distinct (map k xs) \<Longrightarrow> x \<in> set xs \<Longrightarrow> concat (map (\<lambda>y. if k x = k y then h y else []) xs) = h x"
proof (induction xs)
  case (Cons a xs)
  have a: "k a \<notin> k ` set xs" using Cons.prems(1) by simp
  show ?case
  proof (cases "x = a")
    case True
    then show ?thesis using join_none [of k x xs h] a by (simp del: concat_eq_Nil_conv)
  next
    case False
    then have "x \<in> set xs" using Cons.prems(2) by simp
    moreover from this have "k x \<noteq> k a" using a by (metis imageI)
    ultimately show ?thesis using Cons.IH Cons.prems(1) by simp
  qed
qed simp

lemma join_where:
  assumes "distinct (map k xs)" "x \<in> set xs"
  shows "concat (map (\<lambda>y. if k x = k y \<and> P y then [g y] else []) xs) = (if P x then [g x] else [])"
proof -
  have "(\<lambda>y. if k x = k y \<and> P y then [g y] else []) = (\<lambda>y. if k x = k y then if P y then [g y] else [] else [])" by auto
  then show ?thesis using join_unique [OF assms, of "\<lambda>y. if P y then [g y] else []"] by simp
qed

text \<open>The row that one more private message between two accounts adds to a history.\<close>

lemma private_rows_add:
  assumes "keys_ok d" "u \<in> set (db_users d)" "v \<in> set (db_users d)" "db_messages d' = db_messages d @ [m]" "db_users d' = db_users d"
    and "dm_FromID m = du_ID u" "dm_ToID m = Some (du_ID v)" "dm_Type m = ''private''"
  shows "private_rows d' a b 0 = private_rows d a b 0 @
    (if {a, b} = {du_Username u, du_Username v} then [message_row m u (du_Username v) []] else [])"
proof -
  have k: "distinct (map du_ID (db_users d))" using assms(1) by (simp add: keys_ok_def user_ids_def)
  have p: "{a, b} = {du_Username u, du_Username v} \<longleftrightarrow>
      du_Username u = a \<and> du_Username v = b \<or> du_Username u = b \<and> du_Username v = a" by (auto simp: doubleton_eq_iff)
  show ?thesis
    unfolding private_rows_def p assms(4,5)
    by (simp add: assms(6-8) before_ok_def join_where [OF k assms(3)] join_unique [OF k assms(2)])
qed

lemma private_history_mset:
  assumes "delivers_all drv" "GetPrivateMessages drv d a b (-1) 0 = Inr page"
  shows "mset page = mset (private_rows d a b 0)"
  using page_full message_page_is_page assms by (fastforce simp: GetPrivateMessages_def)

text \<open>
  C12. What is sent privately can be read privately, and by nobody else's history.  After a private
  message was sent, the complete history of any two names holds what it held before, and for the
  names of the sender and the receiver, in either order, exactly one entry more: from the sender to
  the receiver, with the sanitised text and the time of the database.  Only when the storage
  refuses the row the history stays as it was; sending succeeds even then.
\<close>

theorem private_history_grows:
  assumes "server_ok s" "delivers_all drv" "sendPrivate ev from to c av s = Some (Inr (), s')"
    and "GetPrivateMessages drv (DB s) a b (-1) 0 = Inr old" "GetPrivateMessages drv (DB s') a b (-1) 0 = Inr page"
  shows "\<exists>u v content r. u \<in> set (db_users (DB s)) \<and> v \<in> set (db_users (DB s)) \<and> du_Username u = from \<and> du_Username v = to
    \<and> sanitizeInputWithLimit c (maxMsgLength s) = Some content
    \<and> mx_From r = from \<and> mx_To r = to \<and> mx_Type r = ''private'' \<and> mx_Content r = content
    \<and> mx_CreatedAt r = db_time (ev_drv ev)
    \<and> mset page = (if stmt_fault (ev_drv ev) (InsMessage (du_ID u) (Some (du_ID v)) None ''private'') = None \<and> {a, b} = {from, to}
        then add_mset r (mset old) else mset old)"
proof -
  note pages = private_history_mset [OF assms(2,4)] private_history_mset [OF assms(2,5)]
  have k: "keys_ok (DB s)" using server_okD(4) [OF assms(1)] by (simp add: db_ok_def)
  obtain content pu pv where c: "sanitizeInputWithLimit c (maxMsgLength s) = Some content"
    and users: "GetUserByUsername (ev_drv ev) (DB s) from = Inr pu" "GetUserByUsername (ev_drv ev) (DB s) to = Inr pv"
    and s': "s' = private_sent ev from to content av (save_best_effort ev (up_ID pu) (Some (up_ID pv)) None content ''private'' s)"
    using assms(3) by (cases rule: sendPrivate_cases [OF assms(1), of ev "from" to c av]) auto
  obtain u v where u: "u \<in> set (db_users (DB s))" "du_Username u = from" "up_ID pu = du_ID u"
    and v: "v \<in> set (db_users (DB s))" "du_Username v = to" "up_ID pv = du_ID v"
    using users [THEN GetUserByUsername_InrD] by metis
  let ?st = "InsMessage (du_ID u) (Some (du_ID v)) None ''private''"
  have ids: "du_ID u \<in> set (user_ids (DB s))" "du_ID v \<in> set (user_ids (DB s))" using u v by (simp_all add: user_ids_def)
  have db: "DB s' = snd (SaveMessage (ev_drv ev) (du_ID u) (Some (du_ID v)) None content ''private'' (DB s))"
    unfolding s' u(3) v(3) by (simp add: private_sent_def save_best_effort_def)
  let ?m = "\<lparr>dm_ID = seq_messages (DB s) + 1 + int (id_gap (ev_drv ev) ?st), dm_FromID = du_ID u, dm_ToID = Some (du_ID v),
    dm_GroupID = None, dm_Content = content, dm_Type = ''private'', dm_CreatedAt = db_time (ev_drv ev)\<rparr>"
  let ?r = "message_row ?m u to []"
  have "mset page = (if stmt_fault (ev_drv ev) ?st = None \<and> {a, b} = {from, to} then add_mset ?r (mset old) else mset old)"
  proof (cases "stmt_fault (ev_drv ev) ?st")
    case None
    then have "db_messages (DB s') = db_messages (DB s) @ [?m]" "db_users (DB s') = db_users (DB s)"
      using ids unfolding db by (simp_all add: SaveMessage_def insert_message_def Let_def split: option.split)
    from private_rows_add [OF k u(1) v(1) this, of a b] None show ?thesis unfolding pages u(2) v(2) by simp
  next
    case (Some e)
    then have "DB s' = DB s" unfolding db by (simp add: SaveMessage_def insert_message_def)
    then show ?thesis using Some by (simp add: pages)
  qed
  then show ?thesis
    using u v c by (intro exI [of _ u] exI [of _ v] exI [of _ content] exI [of _ ?r]) (simp add: message_row_def)
qed

theorem private_history_grows_witness:
  "\<exists>s' old page r. sendPrivate (plain_env 9) ''alice'' ''bob'' ''hi'' [] demo_server = Some (Inr (), s')
     \<and> GetPrivateMessages (plain_driver 9) (DB demo_server) ''bob'' ''alice'' (-1) 0 = Inr old
     \<and> GetPrivateMessages (plain_driver 9) (DB s') ''bob'' ''alice'' (-1) 0 = Inr page
     \<and> mset page = add_mset r (mset old) \<and> mx_From r = ''alice''"
proof -
  obtain s' where s': "sendPrivate (plain_env 9) ''alice'' ''bob'' ''hi'' [] demo_server = Some (Inr (), s')"
    by (simp add: sendPrivate_def sanitize_some demo_server_def GetUserByUsername_def plain_env_def chat_db_def demo_db_def)
  obtain old page where p: "GetPrivateMessages (plain_driver 9) (DB demo_server) ''bob'' ''alice'' (-1) 0 = Inr old"
    "GetPrivateMessages (plain_driver 9) (DB s') ''bob'' ''alice'' (-1) 0 = Inr page"
    unfolding GetPrivateMessages_def using plain_message_page by metis
  have "stmt_fault (ev_drv (plain_env 9)) st = None" for st by (simp add: plain_env_def plain_driver_def)
  moreover have "{''bob'', ''alice''} = {''alice'', ''bob''}" by auto
  ultimately show ?thesis
    using private_history_grows [OF demo_server_ok plain_driver_ok(1) s' p] s' p by auto
qed

end
