(* ===== verification/Config.thy ===== *)
theory Config
  imports Go_Prelude
begin

text \<open>
  The configuration, \<^verbatim>\<open>internal/config/config.go\<close>, and the flags of \<^verbatim>\<open>main.go\<close> that override it.
  The environment is a lookup function, as in the code; \<^verbatim>\<open>time.ParseDuration\<close> is an argument, and so
  is the effect of a file on the configuration, which the theory \<open>Config_File\<close> defines.
\<close>

section \<open>Definitions\<close>

record ServerConfig =
  sc_IP :: string
  sc_Port :: int
  sc_TLS :: bool
  sc_IdleTimeout :: int

record WebConfig =
  wbc_Addr :: string
  wbc_UploadDir :: string

record AppConfig =
  ac_SessionTTL :: int
  ac_SessionCleanup :: int
  ac_RateLimit :: int
  ac_RateWindow :: int
  ac_MaxMsgLength :: int
  ac_HistoryLimit :: int
  ac_HistoryMax :: int
  ac_SessionBackend :: string
  ac_RedisAddr :: string
  ac_RedisPassword :: string
  ac_RedisDB :: int

record Config =
  cf_Server :: ServerConfig
  cf_Web :: WebConfig
  cf_DBPath :: string
  cf_App :: AppConfig

definition second :: int where
  "second = 1000000000"

definition DefaultConfig :: Config where
  "DefaultConfig =
     \<lparr>cf_Server = \<lparr>sc_IP = ''127.0.0.1'', sc_Port = 8888, sc_TLS = False, sc_IdleTimeout = 10 * 60 * second\<rparr>,
      cf_Web = \<lparr>wbc_Addr = '':8080'', wbc_UploadDir = ''uploads''\<rparr>,
      cf_DBPath = ''im.db'',
      cf_App =
        \<lparr>ac_SessionTTL = 24 * 60 * 60 * second, ac_SessionCleanup = 30 * 60 * second, ac_RateLimit = 10,
         ac_RateWindow = 60 * second, ac_MaxMsgLength = 500, ac_HistoryLimit = 300, ac_HistoryMax = 500,
         ac_SessionBackend = ''memory'', ac_RedisAddr = ''localhost:6379'', ac_RedisPassword = [],
         ac_RedisDB = 0\<rparr>\<rparr>"

type_synonym lookup_env = "string \<Rightarrow> string option"

definition getEnv :: "lookup_env \<Rightarrow> string \<Rightarrow> string" where
  "getEnv look key = (case look key of None \<Rightarrow> [] | Some v \<Rightarrow> v)"

definition getEnvInt :: "lookup_env \<Rightarrow> string \<Rightarrow> int" where
  "getEnvInt look key =
     (case look key of None \<Rightarrow> 0 | Some v \<Rightarrow> (case Atoi v of None \<Rightarrow> 0 | Some n \<Rightarrow> n))"

definition getEnvBool :: "lookup_env \<Rightarrow> string \<Rightarrow> bool" where
  "getEnvBool look key =
     (case look key of
        None \<Rightarrow> False
      | Some v \<Rightarrow> ToLower v \<in> {''1'', ''true'', ''yes'', ''on''})"

definition parseEnvDuration :: "(string \<Rightarrow> int option) \<Rightarrow> lookup_env \<Rightarrow> string \<Rightarrow> int" where
  "parseEnvDuration parse look key =
     (case look key of None \<Rightarrow> 0 | Some v \<Rightarrow> (case parse v of None \<Rightarrow> 0 | Some d \<Rightarrow> d))"

definition upd_server :: "(ServerConfig \<Rightarrow> ServerConfig) \<Rightarrow> Config \<Rightarrow> Config" where
  "upd_server f c = c\<lparr>cf_Server := f (cf_Server c)\<rparr>"

definition upd_web :: "(WebConfig \<Rightarrow> WebConfig) \<Rightarrow> Config \<Rightarrow> Config" where
  "upd_web f c = c\<lparr>cf_Web := f (cf_Web c)\<rparr>"

definition upd_app :: "(AppConfig \<Rightarrow> AppConfig) \<Rightarrow> Config \<Rightarrow> Config" where
  "upd_app f c = c\<lparr>cf_App := f (cf_App c)\<rparr>"

definition overrides :: "(string \<Rightarrow> int option) \<Rightarrow> lookup_env \<Rightarrow> (string \<times> (Config \<Rightarrow> Config)) list" where
  "overrides parse look =
     [(''IM_SERVER_IP'', upd_server (\<lambda>x. x\<lparr>sc_IP := getEnv look ''IM_SERVER_IP''\<rparr>)),
      (''IM_SERVER_PORT'', upd_server (\<lambda>x. x\<lparr>sc_Port := getEnvInt look ''IM_SERVER_PORT''\<rparr>)),
      (''IM_SERVER_TLS'', upd_server (\<lambda>x. x\<lparr>sc_TLS := getEnvBool look ''IM_SERVER_TLS''\<rparr>)),
      (''IM_SERVER_IDLE_TIMEOUT'',
        upd_server (\<lambda>x. x\<lparr>sc_IdleTimeout := parseEnvDuration parse look ''IM_SERVER_IDLE_TIMEOUT''\<rparr>)),
      (''IM_WEB_ADDR'', upd_web (\<lambda>x. x\<lparr>wbc_Addr := getEnv look ''IM_WEB_ADDR''\<rparr>)),
      (''IM_UPLOAD_DIR'', upd_web (\<lambda>x. x\<lparr>wbc_UploadDir := getEnv look ''IM_UPLOAD_DIR''\<rparr>)),
      (''IM_DB_PATH'', (\<lambda>c. c\<lparr>cf_DBPath := getEnv look ''IM_DB_PATH''\<rparr>)),
      (''IM_SESSION_TTL'', upd_app (\<lambda>x. x\<lparr>ac_SessionTTL := parseEnvDuration parse look ''IM_SESSION_TTL''\<rparr>)),
      (''IM_SESSION_CLEANUP'',
        upd_app (\<lambda>x. x\<lparr>ac_SessionCleanup := parseEnvDuration parse look ''IM_SESSION_CLEANUP''\<rparr>)),
      (''IM_RATE_LIMIT'', upd_app (\<lambda>x. x\<lparr>ac_RateLimit := getEnvInt look ''IM_RATE_LIMIT''\<rparr>)),
      (''IM_RATE_WINDOW'', upd_app (\<lambda>x. x\<lparr>ac_RateWindow := parseEnvDuration parse look ''IM_RATE_WINDOW''\<rparr>)),
      (''IM_MAX_MSG_LENGTH'', upd_app (\<lambda>x. x\<lparr>ac_MaxMsgLength := getEnvInt look ''IM_MAX_MSG_LENGTH''\<rparr>)),
      (''IM_HISTORY_LIMIT'', upd_app (\<lambda>x. x\<lparr>ac_HistoryLimit := getEnvInt look ''IM_HISTORY_LIMIT''\<rparr>)),
      (''IM_HISTORY_MAX'', upd_app (\<lambda>x. x\<lparr>ac_HistoryMax := getEnvInt look ''IM_HISTORY_MAX''\<rparr>)),
      (''IM_SESSION_BACKEND'', upd_app (\<lambda>x. x\<lparr>ac_SessionBackend := getEnv look ''IM_SESSION_BACKEND''\<rparr>)),
      (''IM_REDIS_ADDR'', upd_app (\<lambda>x. x\<lparr>ac_RedisAddr := getEnv look ''IM_REDIS_ADDR''\<rparr>)),
      (''IM_REDIS_PASSWORD'', upd_app (\<lambda>x. x\<lparr>ac_RedisPassword := getEnv look ''IM_REDIS_PASSWORD''\<rparr>)),
      (''IM_REDIS_DB'', upd_app (\<lambda>x. x\<lparr>ac_RedisDB := getEnvInt look ''IM_REDIS_DB''\<rparr>))]"

text \<open>The loop over the map of overrides; \<open>order\<close> is the order of the visit.\<close>

definition apply_if_set :: "lookup_env \<Rightarrow> string \<times> (Config \<Rightarrow> Config) \<Rightarrow> Config \<Rightarrow> Config" where
  "apply_if_set look ov cfg = (if look (fst ov) \<noteq> None then snd ov cfg else cfg)"

definition applyEnvOverrides ::
  "((string \<times> (Config \<Rightarrow> Config)) list \<Rightarrow> (string \<times> (Config \<Rightarrow> Config)) list) \<Rightarrow>
   (string \<Rightarrow> int option) \<Rightarrow> lookup_env \<Rightarrow> Config \<Rightarrow> Config" where
  "applyEnvOverrides order parse look cfg = fold (apply_if_set look) (order (overrides parse look)) cfg"

text \<open>
  \<^verbatim>\<open>Load\<close>: \<open>file\<close> is \<^const>\<open>None\<close> if the file cannot be read, otherwise what unmarshalling it into a
  configuration does.
\<close>

definition Load ::
  "((string \<times> (Config \<Rightarrow> Config)) list \<Rightarrow> (string \<times> (Config \<Rightarrow> Config)) list) \<Rightarrow>
   (string \<Rightarrow> int option) \<Rightarrow> lookup_env \<Rightarrow> (Config \<Rightarrow> Config res) option \<Rightarrow> string \<Rightarrow> Config res" where
  "Load order parse look file env =
     (case file of
        None \<Rightarrow> Inr (applyEnvOverrides order parse look DefaultConfig)
      | Some unmarshal \<Rightarrow>
          (case unmarshal DefaultConfig of
             Inl e \<Rightarrow> Inl (''failed to parse config/'' @ env @ ''.json: '' @ e)
           | Inr cfg \<Rightarrow> Inr (applyEnvOverrides order parse look cfg)))"

text \<open>The flags of \<^verbatim>\<open>main\<close>: those that were passed on the command line override the result.\<close>

datatype cmd_flag = FlagIp string | FlagPort int | FlagWeb string | FlagDb string | FlagTls bool | FlagEnv string

fun apply_flag :: "cmd_flag \<Rightarrow> Config \<Rightarrow> Config" where
  "apply_flag (FlagIp v) cfg = upd_server (\<lambda>x. x\<lparr>sc_IP := v\<rparr>) cfg"
| "apply_flag (FlagPort v) cfg = upd_server (\<lambda>x. x\<lparr>sc_Port := v\<rparr>) cfg"
| "apply_flag (FlagWeb v) cfg = upd_web (\<lambda>x. x\<lparr>wbc_Addr := v\<rparr>) cfg"
| "apply_flag (FlagDb v) cfg = cfg\<lparr>cf_DBPath := v\<rparr>"
| "apply_flag (FlagTls v) cfg = upd_server (\<lambda>x. x\<lparr>sc_TLS := v\<rparr>) cfg"
| "apply_flag (FlagEnv v) cfg = cfg"

section \<open>Lemmas\<close>

lemmas upd_defs = upd_server_def upd_web_def upd_app_def

text \<open>
  The value of a field after the loop, if one override sets that field and the others leave
  it alone, whatever the order of the loop.
\<close>

lemma fold_field:
  assumes "\<forall>x \<in> set os. fst x \<noteq> k \<longrightarrow> (\<forall>c. g (snd x c) = g c)"
    and "\<forall>x \<in> set os. fst x = k \<longrightarrow> (\<forall>c. g (snd x c) = v)" "k \<in> fst ` set os"
  shows "g (fold (apply_if_set look) os cfg) = (if look k = None then g cfg else v)"
proof -
  have "g (fold (apply_if_set look) xs c) = (if look k \<noteq> None \<and> k \<in> fst ` set xs then v else g c)"
    if "set xs \<subseteq> set os" for xs c
    using that
  proof (induction xs arbitrary: c)
    case (Cons x xs)
    then show ?case
      using assms(1,2) by (cases "fst x = k") (auto simp: apply_if_set_def)
  qed simp
  from this [OF order_refl] assms(3) show ?thesis by simp
qed

lemma override_field:
  assumes "any_order order"
    and "\<forall>x \<in> set (overrides parse look). fst x \<noteq> k \<longrightarrow> (\<forall>c. g (snd x c) = g c)"
    and "\<forall>x \<in> set (overrides parse look). fst x = k \<longrightarrow> (\<forall>c. g (snd x c) = v)"
    and "k \<in> fst ` set (overrides parse look)"
  shows "g (applyEnvOverrides order parse look cfg) = (if look k = None then g cfg else v)"
  unfolding applyEnvOverrides_def
  by (rule fold_field) (use assms in simp_all)

text \<open>The specification: each field from its variable if that is set, otherwise unchanged.\<close>

definition merged_config :: "(string \<Rightarrow> int option) \<Rightarrow> lookup_env \<Rightarrow> Config \<Rightarrow> Config" where
  "merged_config parse look cfg =
     \<lparr>cf_Server =
          \<lparr>sc_IP = (if look ''IM_SERVER_IP'' = None then sc_IP (cf_Server cfg) else getEnv look ''IM_SERVER_IP''),
           sc_Port = (if look ''IM_SERVER_PORT'' = None then sc_Port (cf_Server cfg) else getEnvInt look ''IM_SERVER_PORT''),
           sc_TLS = (if look ''IM_SERVER_TLS'' = None then sc_TLS (cf_Server cfg) else getEnvBool look ''IM_SERVER_TLS''),
           sc_IdleTimeout = (if look ''IM_SERVER_IDLE_TIMEOUT'' = None then sc_IdleTimeout (cf_Server cfg) else parseEnvDuration parse look ''IM_SERVER_IDLE_TIMEOUT'')\<rparr>,
      cf_Web =
          \<lparr>wbc_Addr = (if look ''IM_WEB_ADDR'' = None then wbc_Addr (cf_Web cfg) else getEnv look ''IM_WEB_ADDR''),
           wbc_UploadDir = (if look ''IM_UPLOAD_DIR'' = None then wbc_UploadDir (cf_Web cfg) else getEnv look ''IM_UPLOAD_DIR'')\<rparr>,
      cf_DBPath = (if look ''IM_DB_PATH'' = None then cf_DBPath cfg else getEnv look ''IM_DB_PATH''),
      cf_App =
          \<lparr>ac_SessionTTL = (if look ''IM_SESSION_TTL'' = None then ac_SessionTTL (cf_App cfg) else parseEnvDuration parse look ''IM_SESSION_TTL''),
           ac_SessionCleanup = (if look ''IM_SESSION_CLEANUP'' = None then ac_SessionCleanup (cf_App cfg) else parseEnvDuration parse look ''IM_SESSION_CLEANUP''),
           ac_RateLimit = (if look ''IM_RATE_LIMIT'' = None then ac_RateLimit (cf_App cfg) else getEnvInt look ''IM_RATE_LIMIT''),
           ac_RateWindow = (if look ''IM_RATE_WINDOW'' = None then ac_RateWindow (cf_App cfg) else parseEnvDuration parse look ''IM_RATE_WINDOW''),
           ac_MaxMsgLength = (if look ''IM_MAX_MSG_LENGTH'' = None then ac_MaxMsgLength (cf_App cfg) else getEnvInt look ''IM_MAX_MSG_LENGTH''),
           ac_HistoryLimit = (if look ''IM_HISTORY_LIMIT'' = None then ac_HistoryLimit (cf_App cfg) else getEnvInt look ''IM_HISTORY_LIMIT''),
           ac_HistoryMax = (if look ''IM_HISTORY_MAX'' = None then ac_HistoryMax (cf_App cfg) else getEnvInt look ''IM_HISTORY_MAX''),
           ac_SessionBackend = (if look ''IM_SESSION_BACKEND'' = None then ac_SessionBackend (cf_App cfg) else getEnv look ''IM_SESSION_BACKEND''),
           ac_RedisAddr = (if look ''IM_REDIS_ADDR'' = None then ac_RedisAddr (cf_App cfg) else getEnv look ''IM_REDIS_ADDR''),
           ac_RedisPassword = (if look ''IM_REDIS_PASSWORD'' = None then ac_RedisPassword (cf_App cfg) else getEnv look ''IM_REDIS_PASSWORD''),
           ac_RedisDB = (if look ''IM_REDIS_DB'' = None then ac_RedisDB (cf_App cfg) else getEnvInt look ''IM_REDIS_DB'')\<rparr>\<rparr>"

lemma overrides_server:
  assumes "any_order order"
  shows "cf_Server (applyEnvOverrides order parse look cfg) = cf_Server (merged_config parse look cfg)"
  unfolding merged_config_def
  by (rule ServerConfig.equality)
    (simp_all add: overrides_def upd_defs
      override_field [OF assms, where g = "\<lambda>c. sc_IP (cf_Server c)" and k = "''IM_SERVER_IP''"
         and v = "getEnv look ''IM_SERVER_IP''"]
      override_field [OF assms, where g = "\<lambda>c. sc_Port (cf_Server c)" and k = "''IM_SERVER_PORT''"
         and v = "getEnvInt look ''IM_SERVER_PORT''"]
      override_field [OF assms, where g = "\<lambda>c. sc_TLS (cf_Server c)" and k = "''IM_SERVER_TLS''"
         and v = "getEnvBool look ''IM_SERVER_TLS''"]
      override_field [OF assms, where g = "\<lambda>c. sc_IdleTimeout (cf_Server c)" and k = "''IM_SERVER_IDLE_TIMEOUT''"
         and v = "parseEnvDuration parse look ''IM_SERVER_IDLE_TIMEOUT''"])

lemma overrides_web:
  assumes "any_order order"
  shows "cf_Web (applyEnvOverrides order parse look cfg) = cf_Web (merged_config parse look cfg)"
  unfolding merged_config_def
  by (rule WebConfig.equality)
    (simp_all add: overrides_def upd_defs
      override_field [OF assms, where g = "\<lambda>c. wbc_Addr (cf_Web c)" and k = "''IM_WEB_ADDR''"
         and v = "getEnv look ''IM_WEB_ADDR''"]
      override_field [OF assms, where g = "\<lambda>c. wbc_UploadDir (cf_Web c)" and k = "''IM_UPLOAD_DIR''"
         and v = "getEnv look ''IM_UPLOAD_DIR''"])

lemma overrides_app:
  assumes "any_order order"
  shows "cf_App (applyEnvOverrides order parse look cfg) = cf_App (merged_config parse look cfg)"
  unfolding merged_config_def
  by (rule AppConfig.equality)
    (simp_all add: overrides_def upd_defs
      override_field [OF assms, where g = "\<lambda>c. ac_SessionTTL (cf_App c)" and k = "''IM_SESSION_TTL''"
         and v = "parseEnvDuration parse look ''IM_SESSION_TTL''"]
      override_field [OF assms, where g = "\<lambda>c. ac_SessionCleanup (cf_App c)" and k = "''IM_SESSION_CLEANUP''"
         and v = "parseEnvDuration parse look ''IM_SESSION_CLEANUP''"]
      override_field [OF assms, where g = "\<lambda>c. ac_RateLimit (cf_App c)" and k = "''IM_RATE_LIMIT''"
         and v = "getEnvInt look ''IM_RATE_LIMIT''"]
      override_field [OF assms, where g = "\<lambda>c. ac_RateWindow (cf_App c)" and k = "''IM_RATE_WINDOW''"
         and v = "parseEnvDuration parse look ''IM_RATE_WINDOW''"]
      override_field [OF assms, where g = "\<lambda>c. ac_MaxMsgLength (cf_App c)" and k = "''IM_MAX_MSG_LENGTH''"
         and v = "getEnvInt look ''IM_MAX_MSG_LENGTH''"]
      override_field [OF assms, where g = "\<lambda>c. ac_HistoryLimit (cf_App c)" and k = "''IM_HISTORY_LIMIT''"
         and v = "getEnvInt look ''IM_HISTORY_LIMIT''"]
      override_field [OF assms, where g = "\<lambda>c. ac_HistoryMax (cf_App c)" and k = "''IM_HISTORY_MAX''"
         and v = "getEnvInt look ''IM_HISTORY_MAX''"]
      override_field [OF assms, where g = "\<lambda>c. ac_SessionBackend (cf_App c)" and k = "''IM_SESSION_BACKEND''"
         and v = "getEnv look ''IM_SESSION_BACKEND''"]
      override_field [OF assms, where g = "\<lambda>c. ac_RedisAddr (cf_App c)" and k = "''IM_REDIS_ADDR''"
         and v = "getEnv look ''IM_REDIS_ADDR''"]
      override_field [OF assms, where g = "\<lambda>c. ac_RedisPassword (cf_App c)" and k = "''IM_REDIS_PASSWORD''"
         and v = "getEnv look ''IM_REDIS_PASSWORD''"]
      override_field [OF assms, where g = "\<lambda>c. ac_RedisDB (cf_App c)" and k = "''IM_REDIS_DB''"
         and v = "getEnvInt look ''IM_REDIS_DB''"])

lemma overrides_path:
  assumes "any_order order"
  shows "cf_DBPath (applyEnvOverrides order parse look cfg) = cf_DBPath (merged_config parse look cfg)"
  unfolding merged_config_def
  by (simp add: overrides_def upd_defs
      override_field [OF assms, where g = cf_DBPath and k = "''IM_DB_PATH''" and v = "getEnv look ''IM_DB_PATH''"])

lemma overrides_merged:
  "any_order order \<Longrightarrow> applyEnvOverrides order parse look cfg = merged_config parse look cfg"
  by (rule Config.equality) (simp_all add: overrides_server overrides_web overrides_app overrides_path)

section \<open>Properties\<close>

text \<open>
  C36. Loading merges field by field: the result of \<^verbatim>\<open>Load\<close> takes each field from its environment
  variable if that is set, else from the file if there is one, else from the defaults, and
  does not depend on the order in which Go visits the map of overrides.
\<close>

theorem load_merges_fields:
  assumes "any_order order"
  shows "Load order parse look file env =
    (case file of
       None \<Rightarrow> Inr (merged_config parse look DefaultConfig)
     | Some unmarshal \<Rightarrow>
         (case unmarshal DefaultConfig of
            Inl e \<Rightarrow> Inl (''failed to parse config/'' @ env @ ''.json: '' @ e)
          | Inr cfg \<Rightarrow> Inr (merged_config parse look cfg)))"
  by (simp add: Load_def overrides_merged [OF assms] split: option.splits sum.splits)

theorem load_merges_fields_witness:
  "Load rev (\<lambda>_. None) [''IM_RATE_LIMIT'' \<mapsto> ''25''] None ''dev'' =
     Inr (DefaultConfig\<lparr>cf_App := (cf_App DefaultConfig)\<lparr>ac_RateLimit := 25\<rparr>\<rparr>)"
proof -
  have "any_order rev" by (simp add: any_order_def)
  from load_merges_fields [OF this, of "\<lambda>_. None" "[''IM_RATE_LIMIT'' \<mapsto> ''25'']" None "''dev''"]
  show ?thesis
    by (simp add: merged_config_def DefaultConfig_def getEnvInt_def Atoi_def is_digit_def digits_val_def)
qed

end
