(* ===== verification/Tcp_User.thy ===== *)
theory Tcp_User
  imports Messaging Config
begin

text \<open>
  The TCP side of the server: \<^verbatim>\<open>internal/server/user.go\<close> and the connection handler of
  \<^verbatim>\<open>internal/server/server.go\<close>.  A connection is the address of its \<^verbatim>\<open>User\<close>; the handler keeps
  for each connection whether its reader and its idle watcher run and whether \<^verbatim>\<open>offlineOnce\<close>
  has fired.  One step of the system handles one event of one connection: a new connection,
  a line, the end of the input, the idle timeout, or one turn of the writer loop; a login that is
  accepted is two events, up to \<^verbatim>\<open>Online\<close> and from there.  The idle timeout does not stop the reader.
\<close>

section \<open>A new server\<close>

text \<open>
  \<^verbatim>\<open>New\<close>: opens the database, makes the limiters and the id, and picks the session back end.  The
  results of connecting to Redis and of making a certificate are arguments; \<open>rawID\<close> are the 8
  random bytes of the id, \<open>file\<close> and \<open>files\<close> the database and the avatars on disk.  The model keeps the sessions of either back end in the same way.
\<close>

definition New ::
  "driver \<Rightarrow> unit res \<Rightarrow> unit res \<Rightarrow> unit res \<Rightarrow> 8 word list \<Rightarrow> Config \<Rightarrow> Database \<Rightarrow> files \<Rightarrow> Server res" where
  "New drv redisStore redisBus cert rawID cfg file files =
     (case InitDatabase drv file of
        Inl e \<Rightarrow> Inl (''failed to initialize database: '' @ e)
      | Inr database \<Rightarrow>
     (let app = cf_App cfg; limiter = newRateLimiter (ac_RateLimit app) (ac_RateWindow app);
          redis = (ac_SessionBackend app = ''redis'');
          server =
            \<lparr>userHeap = (\<lambda>_. \<lparr>us_Name = [], us_Addr = [], us_C = make_chan 0, us_conn = False, us_auth = False,
                us_Avatar = [], us_sent = [], us_listening = False\<rparr>),
             userNext = 0,
             wsHeap = (\<lambda>_. \<lparr>wc_Name = [], wc_Avatar = [], wc_RemoteIP = [], wc_C = make_chan 0, wc_done = True,
                wc_sent = [], wc_writing = False\<rparr>),
             wsNext = 0, OnlineMap = [], WSConns = [], Sessions = NewMemorySessionStore, DB = database,
             loginLimiter = limiter, registerLimiter = limiter, sendLimiter = limiter,
             tcpLoginLimiter = limiter, tcpRegisterLimiter = limiter,
             sessionTTL = ac_SessionTTL app, sessionCleanup = ac_SessionCleanup app, maxMsgLength = ac_MaxMsgLength app,
             historyLimit = ac_HistoryLimit app, historyMax = ac_HistoryMax app,
             uploadDir = wbc_UploadDir (cf_Web cfg), serverID = EncodeToString rawID,
             bus = (if redis then Some [] else None), avatarFiles = files\<rparr>
      in case (if redis then redisStore else Inr ()) of
           Inl e \<Rightarrow> Inl (''redis session store: '' @ e)
         | Inr _ \<Rightarrow>
         (case (if redis then redisBus else Inr ()) of
            Inl e \<Rightarrow> Inl (''redis message bus: '' @ e)
          | Inr _ \<Rightarrow>
         (case (if sc_TLS (cf_Server cfg) then cert else Inr ()) of
            Inl e \<Rightarrow> Inl (''failed to generate TLS cert: '' @ e)
          | Inr _ \<Rightarrow> Inr server))))"

section \<open>A user\<close>

definition NewUser :: "string \<Rightarrow> Server \<Rightarrow> nat \<times> Server" where
  "NewUser addr s =
     (userNext s,
      s\<lparr>userHeap := (userHeap s)(userNext s :=
           \<lparr>us_Name = addr, us_Addr = addr, us_C = make_chan 100, us_conn = True, us_auth = False,
            us_Avatar = [], us_sent = [], us_listening = True\<rparr>),
        userNext := userNext s + 1\<rparr>)"

text \<open>The part of \<^verbatim>\<open>Online\<close> under the map lock.\<close>

definition enter_map :: "nat \<Rightarrow> Server \<Rightarrow> Server" where
  "enter_map a s =
     (let name = us_Name (userHeap s a)
      in s\<lparr>OnlineMap := AList.update name a (delete_where (\<lambda>k v. v = a \<and> k \<noteq> name) (OnlineMap s))\<rparr>)"

definition Online :: "env \<Rightarrow> nat \<Rightarrow> Server \<Rightarrow> Server option" where
  "Online ev a s = BroadCast ev a sysOnline (enter_map a s)"

definition upd_user :: "nat \<Rightarrow> (User \<Rightarrow> User) \<Rightarrow> Server \<Rightarrow> Server" where
  "upd_user a f s = s\<lparr>userHeap := (userHeap s)(a := f (userHeap s a))\<rparr>"

text \<open>
  The two commands of a user that is not logged in.  A login is cut where \<^verbatim>\<open>Online\<close> is called: another
  goroutine may work in between.  \<open>login_check\<close> says whether the login goes on to \<^verbatim>\<open>Online\<close>.
\<close>

definition login_check :: "env \<Rightarrow> nat \<Rightarrow> string \<Rightarrow> Server \<Rightarrow> bool \<times> Server" where
  "login_check ev a msg s0 =
     (case Allow (ev_now ev) (tcpLoginLimiter s0) (us_Addr (userHeap s0 a)) of
        (ok, rl) \<Rightarrow>
     (let s = s0\<lparr>tcpLoginLimiter := rl\<rparr>; parts = Split (CHR ''|'') msg
      in if \<not> ok then (False, SendMsg a txt_login_limited s)
         else if length parts \<noteq> 3 then (False, SendMsg a txt_login_format s)
         else
     (let username = TrimSpace (parts ! 1); password = TrimSpace (parts ! 2)
      in if \<not> isValidUsername username then (False, SendMsg a txt_bad_name s)
         else
     (case Authenticate ev username password s of
        None \<Rightarrow> (False, SendMsg a txt_login_wrong s)
      | Some avatar \<Rightarrow>
     (case (if us_Name (userHeap s a) \<noteq> username then RenameUser (us_Name (userHeap s a)) username s
            else (True, s)) of
        (renamed, s1) \<Rightarrow>
          if \<not> renamed then (False, SendMsg a txt_login_taken s1)
          else (True, upd_user a (\<lambda>u. u\<lparr>us_Name := username, us_Avatar := avatar, us_auth := True\<rparr>) s1))))))"

definition login_end :: "env \<Rightarrow> nat \<Rightarrow> Server \<Rightarrow> Server option" where
  "login_end ev a s = map_option (SendMsg a txt_login_ok) (Online ev a s)"

definition do_login :: "env \<Rightarrow> nat \<Rightarrow> string \<Rightarrow> Server \<Rightarrow> Server option" where
  "do_login ev a msg s0 =
     (case login_check ev a msg s0 of (goes_online, s) \<Rightarrow> if goes_online then login_end ev a s else Some s)"

definition do_register :: "env \<Rightarrow> nat \<Rightarrow> string \<Rightarrow> Server \<Rightarrow> Server option" where
  "do_register ev a msg s0 =
     (case Allow (ev_now ev) (tcpRegisterLimiter s0) (us_Addr (userHeap s0 a)) of
        (ok, rl) \<Rightarrow>
     (let s = s0\<lparr>tcpRegisterLimiter := rl\<rparr>; parts = Split (CHR ''|'') msg
      in if \<not> ok then Some (SendMsg a txt_register_limited s)
         else if length parts \<noteq> 3 then Some (SendMsg a txt_register_format s)
         else
     (let username = TrimSpace (parts ! 1); password = TrimSpace (parts ! 2)
      in if \<not> isValidUsername username then Some (SendMsg a txt_bad_name s)
         else
     (case Register ev username password txt_default_avatar s of
        (Inl e, s1) \<Rightarrow> Some (SendMsg a (txt_register_failed @ e @ [CHR 0x0A]) s1)
      | (Inr _, s1) \<Rightarrow> Some (SendMsg a txt_register_ok s1)))))"

text \<open>The commands of a user that is logged in.\<close>

definition do_who :: "env \<Rightarrow> nat \<Rightarrow> Server \<Rightarrow> Server" where
  "do_who ev a s =
     fold (\<lambda>(_, b) t.
         if us_Name (userHeap t b) = us_Name (userHeap t a) then t
         else SendMsg a (''['' @ us_Addr (userHeap t b) @ '']'' @ us_Name (userHeap t b) @ '':'' @ txt_online_line) t)
       (ev_order ev (OnlineMap s)) s"

definition do_rename :: "nat \<Rightarrow> string \<Rightarrow> Server \<Rightarrow> Server" where
  "do_rename a msg s =
     (let parts = SplitN (CHR ''|'') msg 2
      in if length parts \<noteq> 2 \<or> TrimSpace (parts ! 1) = [] then SendMsg a txt_rename_format s
         else
           (let newName = TrimSpace (parts ! 1)
            in case RenameUser (us_Name (userHeap s a)) newName s of
                 (True, s1) \<Rightarrow>
                   SendMsg a (txt_renamed @ newName @ [CHR 0x0A]) (upd_user a (\<lambda>u. u\<lparr>us_Name := newName\<rparr>) s1)
               | (False, s1) \<Rightarrow> SendMsg a txt_rename_taken s1))"

definition do_to :: "env \<Rightarrow> nat \<Rightarrow> string \<Rightarrow> Server \<Rightarrow> Server option" where
  "do_to ev a msg s =
     (let parts = SplitN (CHR ''|'') msg 3
      in if length parts \<noteq> 3 \<or> TrimSpace (parts ! 1) = [] \<or> TrimSpace (parts ! 2) = []
         then Some (SendMsg a txt_to_format s)
         else
           (let targetName = TrimSpace (parts ! 1); content = TrimSpace (parts ! 2)
            in case sendPrivate ev (us_Name (userHeap s a)) targetName content (us_Avatar (userHeap s a)) s of
                 None \<Rightarrow> None
               | Some (Inl e, s1) \<Rightarrow> Some (SendMsg a (e @ [CHR 0x0A]) s1)
               | Some (Inr _, s1) \<Rightarrow> Some (SendMsg a (txt_sent @ content @ [CHR 0x0A]) s1)))"

text \<open>Reply to a group command: the error text, or the confirmation.\<close>

definition group_reply :: "nat \<Rightarrow> string \<Rightarrow> unit res \<times> Server \<Rightarrow> Server" where
  "group_reply a done_text r =
     (case r of (Inl e, s) \<Rightarrow> SendMsg a (e @ [CHR 0x0A]) s | (Inr _, s) \<Rightarrow> SendMsg a done_text s)"

definition do_group :: "env \<Rightarrow> nat \<Rightarrow> string \<Rightarrow> Server \<Rightarrow> Server option" where
  "do_group ev a msg s =
     (let parts = SplitN (CHR ''|'') msg 4; name = us_Name (userHeap s a)
      in if length parts < 2 then Some (SendMsg a txt_group_format s)
         else
     (let cmd = TrimSpace (parts ! 1)
      in if cmd = ''create'' then
           (if length parts \<noteq> 3 then Some (SendMsg a txt_create_format s)
            else let groupName = TrimSpace (parts ! 2)
                 in Some (group_reply a (txt_group_word @ groupName @ txt_created) (srvCreateGroup ev groupName name s)))
         else if cmd = ''join'' then
           (if length parts \<noteq> 3 then Some (SendMsg a txt_join_format s)
            else let groupName = TrimSpace (parts ! 2)
                 in Some (group_reply a (txt_joined @ groupName @ [CHR 0x0A]) (srvJoinGroup ev groupName name s)))
         else if cmd = ''leave'' then
           (if length parts \<noteq> 3 then Some (SendMsg a txt_leave_format s)
            else let groupName = TrimSpace (parts ! 2)
                 in Some (group_reply a (txt_left @ groupName @ [CHR 0x0A]) (srvLeaveGroup ev groupName name s)))
         else if cmd = ''send'' then
           (if length parts \<noteq> 4 then Some (SendMsg a txt_send_format s)
            else let groupName = TrimSpace (parts ! 2); content = TrimSpace (parts ! 3)
                 in case broadcastToGroup ev groupName name content (us_Avatar (userHeap s a)) s of
                      None \<Rightarrow> None
                    | Some (Inl e, s1) \<Rightarrow> Some (SendMsg a (e @ [CHR 0x0A]) s1)
                    | Some (Inr _, s1) \<Rightarrow> Some s1)
         else Some (SendMsg a txt_group_unknown s)))"

definition DoMessage :: "env \<Rightarrow> nat \<Rightarrow> string \<Rightarrow> Server \<Rightarrow> Server option" where
  "DoMessage ev a msg0 s =
     (if \<not> us_auth (userHeap s a) then
        (if HasPrefix msg0 ''login|'' then do_login ev a msg0 s
         else if HasPrefix msg0 ''register|'' then do_register ev a msg0 s
         else Some (SendMsg a txt_please_login s))
      else
        (let msg = TrimSpace msg0; lower = ToLower msg
         in if lower = ''who'' then Some (do_who ev a s)
            else if HasPrefix lower ''rename|'' then Some (do_rename a msg s)
            else if HasPrefix lower ''to|'' then do_to ev a msg s
            else if HasPrefix lower ''group|'' then do_group ev a msg s
            else BroadCast ev a msg s))"

text \<open>
  \<^verbatim>\<open>Offline\<close>: leave the map, tell the others, close the connection, drain and close the channel
  (closing it twice would panic).
\<close>

definition leave_map :: "nat \<Rightarrow> Server \<Rightarrow> Server" where
  "leave_map a s = s\<lparr>OnlineMap := delete_where (\<lambda>k v. v = a) (OnlineMap s)\<rparr>"

definition Offline :: "env \<Rightarrow> nat \<Rightarrow> Server \<Rightarrow> Server option" where
  "Offline ev a s =
     (case BroadCast ev a sysOffline (leave_map a s) of
        None \<Rightarrow> None
      | Some s1 \<Rightarrow>
          if ch_closed (us_C (userHeap s1 a)) then None
          else Some (upd_user a (\<lambda>u. u\<lparr>us_conn := False, us_C := (us_C u)\<lparr>ch_buf := [], ch_closed := True\<rparr>\<rparr>) s1))"

text \<open>One turn of the loop of \<^verbatim>\<open>ListenMessage\<close>; \<open>wok\<close> says whether the write succeeds.\<close>

definition listen_turn :: "bool \<Rightarrow> User \<Rightarrow> User" where
  "listen_turn wok u =
     (if \<not> us_listening u then u
      else
        (case ch_buf (us_C u) of
           [] \<Rightarrow> if ch_closed (us_C u) then u\<lparr>us_listening := False\<rparr> else u
         | msg # rest \<Rightarrow>
             (let u1 = u\<lparr>us_C := (us_C u)\<lparr>ch_buf := rest\<rparr>\<rparr>
              in if \<not> us_conn u1 then u1\<lparr>us_listening := False\<rparr>
                 else if wok then u1\<lparr>us_sent := us_sent u1 @ [msg @ [CHR 0x0A]]\<rparr>
                 else u1\<lparr>us_listening := False\<rparr>)))"

definition ListenMessage :: "bool \<Rightarrow> nat \<Rightarrow> Server \<Rightarrow> Server" where
  "ListenMessage wok a s = upd_user a (listen_turn wok) s"

section \<open>The connection handler\<close>

text \<open>
  Of a connection: whether its reader and its idle watcher run, whether \<^verbatim>\<open>offlineOnce\<close> has fired, and
  whether its reader is in a login, before \<^verbatim>\<open>Online\<close>.
\<close>

record handler =
  ho_reading :: bool
  ho_watching :: bool
  ho_offline :: bool
  ho_login :: bool

text \<open>The goroutine that \<^verbatim>\<open>New\<close> starts for the sessions in memory: none, not yet at its ticker, or ticking.\<close>

datatype cleaner = NoCleaner | CleanerStarting | CleanerTicking

record tcp_system =
  ts_server :: Server
  ts_handlers :: "nat \<Rightarrow> handler"
  ts_cleaner :: cleaner

definition new_cleaner :: "Config \<Rightarrow> cleaner" where
  "new_cleaner cfg = (if ac_SessionBackend (cf_App cfg) = ''redis'' then NoCleaner else CleanerStarting)"

text \<open>The events: each carries what the outside world contributes.\<close>

datatype tcp_event =
    Accept string
  | Line nat string
  | LoginOnline nat
  | InputEnd nat
  | IdleTimeout nat
  | Written nat bool

definition set_handler :: "nat \<Rightarrow> (handler \<Rightarrow> handler) \<Rightarrow> tcp_system \<Rightarrow> tcp_system" where
  "set_handler a f t = t\<lparr>ts_handlers := (ts_handlers t)(a := f (ts_handlers t a))\<rparr>"

text \<open>\<^verbatim>\<open>offlineOnce.Do(func() { user.Offline() })\<close>.\<close>

definition offline_once :: "env \<Rightarrow> nat \<Rightarrow> tcp_system \<Rightarrow> tcp_system option" where
  "offline_once ev a t =
     (if ho_offline (ts_handlers t a) then Some t
      else map_option (\<lambda>s. (set_handler a (\<lambda>h. h\<lparr>ho_offline := True\<rparr>) t)\<lparr>ts_server := s\<rparr>)
        (Offline ev a (ts_server t)))"

fun Handler :: "env \<Rightarrow> tcp_event \<Rightarrow> tcp_system \<Rightarrow> tcp_system option" where
  "Handler ev (Accept addr) t =
     (case NewUser addr (ts_server t) of
        (a, s) \<Rightarrow> map_option (\<lambda>s1. t\<lparr>ts_server := s1, ts_handlers := (ts_handlers t)(a :=
             \<lparr>ho_reading = True, ho_watching = True, ho_offline = False, ho_login = False\<rparr>)\<rparr>) (Online ev a s))"
| "Handler ev (Line a text) t =
     (let msg = TrimSpace text
      in if msg = [] then Some t
         else if \<not> us_auth (userHeap (ts_server t) a) \<and> HasPrefix msg ''login|''
         then (case login_check ev a msg (ts_server t) of (goes_online, s) \<Rightarrow>
                 Some ((set_handler a (\<lambda>h. h\<lparr>ho_login := goes_online\<rparr>) t)\<lparr>ts_server := s\<rparr>))
         else map_option (\<lambda>s. t\<lparr>ts_server := s\<rparr>) (DoMessage ev a msg (ts_server t)))"
| "Handler ev (LoginOnline a) t =
     map_option (\<lambda>s. (set_handler a (\<lambda>h. h\<lparr>ho_login := False\<rparr>) t)\<lparr>ts_server := s\<rparr>) (login_end ev a (ts_server t))"
| "Handler ev (InputEnd a) t =
     offline_once ev a (set_handler a (\<lambda>h. h\<lparr>ho_reading := False\<rparr>) t)"
| "Handler ev (IdleTimeout a) t =
     map_option (set_handler a (\<lambda>h. h\<lparr>ho_watching := False\<rparr>))
       (offline_once ev a (t\<lparr>ts_server := SendMsg a txt_kicked (ts_server t)\<rparr>))"
| "Handler ev (Written a wok) t = Some (t\<lparr>ts_server := ListenMessage wok a (ts_server t)\<rparr>)"

text \<open>
  When an event can happen: the connection exists and the goroutine that handles it runs and is there.
  The idle watcher does not stop the reader: lines that are read or were buffered are handled, and a login
  goes on to \<^verbatim>\<open>Online\<close>, also after the idle timeout took the connection offline.
\<close>

fun enabled :: "tcp_event \<Rightarrow> tcp_system \<Rightarrow> bool" where
  "enabled (Accept addr) t = True"
| "enabled (Line a text) t = (a < userNext (ts_server t) \<and> ho_reading (ts_handlers t a) \<and> \<not> ho_login (ts_handlers t a))"
| "enabled (LoginOnline a) t = (a < userNext (ts_server t) \<and> ho_reading (ts_handlers t a) \<and> ho_login (ts_handlers t a))"
| "enabled (InputEnd a) t = (a < userNext (ts_server t) \<and> ho_reading (ts_handlers t a) \<and> \<not> ho_login (ts_handlers t a))"
| "enabled (IdleTimeout a) t = (a < userNext (ts_server t) \<and> ho_watching (ts_handlers t a))"
| "enabled (Written a wok) t = (a < userNext (ts_server t))"

section \<open>The invariant\<close>

text \<open>
  \<open>safe s r\<close>: the operation did not panic, the new state is well formed, no connection was
  opened or closed, and the queues of the connections only grew at their ends.
\<close>

definition keeps :: "Server \<Rightarrow> Server \<Rightarrow> bool" where
  "keeps s s' = (userNext s' = userNext s
     \<and> (\<forall>a. grown (userHeap s a) (userHeap s' a))
     \<and> wsNext s \<le> wsNext s' \<and> (\<forall>a < wsNext s. client_grown (wsHeap s a) (wsHeap s' a))
     \<and> published s s')"

definition safe :: "Server \<Rightarrow> Server option \<Rightarrow> bool" where
  "safe s r = (\<exists>s'. r = Some s' \<and> server_ok s' \<and> keeps s s')"

named_theorems safe_intros "rules for safe operations"

lemma keeps_refl [simp]: "keeps s s"
  by (simp add: keeps_def)

lemma keeps_trans: "keeps s t \<Longrightarrow> keeps t r \<Longrightarrow> keeps s r"
  unfolding keeps_def
  by (intro conjI) (auto intro: grown_trans client_grown_trans published_trans)

lemma keeps_published: "keeps s t \<Longrightarrow> published s t"
  by (simp add: keeps_def)

lemma keeps_closed: "keeps s t \<Longrightarrow> ch_closed (us_C (userHeap t a)) = ch_closed (us_C (userHeap s a))"
  by (simp add: keeps_def grown_closed)

lemma keeps_next: "keeps s t \<Longrightarrow> userNext t = userNext s"
  by (simp add: keeps_def)

lemmas keeps_facts = keeps_closed keeps_next

lemma queues_keeps: "only_queues s t \<Longrightarrow> keeps s t"
  by (simp add: keeps_def only_queues_fields only_queues_same same_user_grown same_client_grown published_same)

lemma messaging_keeps: "messaging s t \<Longrightarrow> keeps s t"
  unfolding messaging_def by (auto dest!: queues_keeps simp: keeps_def)

lemma keeps_SendMsg [simp]: "keeps s t \<Longrightarrow> keeps s (SendMsg a m t)"
  using keeps_trans queues_keeps [OF only_queues_SendMsg] by blast

lemma server_ok_SendMsg [simp]: "server_ok s \<Longrightarrow> server_ok (SendMsg a m s)"
  by (rule only_queues_ok [OF only_queues_SendMsg])

lemma keeps_fields [simp]:
  "keeps s (t\<lparr>tcpLoginLimiter := l\<rparr>) = keeps s t" "keeps s (t\<lparr>tcpRegisterLimiter := l\<rparr>) = keeps s t"
  "keeps s (t\<lparr>DB := d\<rparr>) = keeps s t" "keeps s (t\<lparr>OnlineMap := m\<rparr>) = keeps s t"
  "keeps (s\<lparr>tcpLoginLimiter := l\<rparr>) t = keeps s t" "keeps (s\<lparr>tcpRegisterLimiter := l\<rparr>) t = keeps s t"
  "keeps (s\<lparr>OnlineMap := m\<rparr>) t = keeps s t"
  by (simp_all add: keeps_def)

lemma safe_reply [safe_intros]: "server_ok t \<Longrightarrow> keeps s t \<Longrightarrow> safe s (Some (SendMsg a m t))"
  by (simp add: safe_def)

lemma safe_then_reply: "safe s r \<Longrightarrow> safe s (map_option (SendMsg a m) r)"
  by (auto simp: safe_def)

lemma safe_broadcast:
  assumes "server_ok s" "any_order (ev_order ev)"
  shows "safe s (BroadCast ev a m s)"
  using BroadCast_ok [OF assms] messaging_keeps by (fastforce simp: safe_def)

lemma upd_user_ok:
  assumes "\<And>u. us_C (f u) = us_C u" "\<And>u. us_sent (f u) = us_sent u" "\<And>u. us_conn (f u) = us_conn u"
    "\<And>u. us_listening (f u) = us_listening u"
  shows "server_ok (upd_user a f s) = server_ok s" "keeps s (upd_user a f t) = keeps s t"
proof -
  show "server_ok (upd_user a f s) = server_ok s"
    using assms(1) by (auto simp: upd_user_def server_ok_defs)
  have "grown u (f v) = grown u v" for u v by (simp add: grown_def assms)
  then have "grown (userHeap s b) (userHeap (upd_user a f t) b) = grown (userHeap s b) (userHeap t b)" for b
    by (simp add: upd_user_def)
  moreover have "userNext (upd_user a f t) = userNext t" "wsNext (upd_user a f t) = wsNext t"
    "wsHeap (upd_user a f t) = wsHeap t" "published s (upd_user a f t) = published s t"
    by (simp_all add: upd_user_def)
  ultimately show "keeps s (upd_user a f t) = keeps s t" by (simp add: keeps_def)
qed

lemma online_addr: "server_ok s \<Longrightarrow> map_of (OnlineMap s) k = Some a \<Longrightarrow> a < userNext s \<and> \<not> ch_closed (us_C (userHeap s a))"
  by (auto simp: server_ok_def tcp_ok_def)

lemma server_ok_OnlineMap:
  assumes "server_ok s" "map_ok m"
    and "\<And>k a. map_of m k = Some a \<Longrightarrow> a < userNext s \<and> \<not> ch_closed (us_C (userHeap s a))"
    and "\<And>k k' a. map_of m k = Some a \<Longrightarrow> map_of m k' = Some a \<Longrightarrow> k = k'"
  shows "server_ok (s\<lparr>OnlineMap := m\<rparr>)"
  using assms unfolding server_ok_def by (auto simp: tcp_ok_def ws_ok_def queues_ok_def)

lemma RenameUser_ok:
  assumes "server_ok s"
  shows "server_ok (snd (RenameUser old new s))" "keeps t (snd (RenameUser old new s)) = keeps t s"
proof -
  note ok = assms [unfolded server_ok_def tcp_ok_def]
  have "server_ok (s\<lparr>OnlineMap := move_key old new a (OnlineMap s)\<rparr>)" if "map_of (OnlineMap s) old = Some a" for a
  proof (rule server_ok_OnlineMap [OF assms])
    show "map_ok (move_key old new a (OnlineMap s))" using ok by (simp add: gomap_simps)
  next
    fix k b assume "map_of (move_key old new a (OnlineMap s)) k = Some b"
    then show "b < userNext s \<and> \<not> ch_closed (us_C (userHeap s b))"
      using online_addr [OF assms] that by (auto simp: gomap_simps split: if_splits)
  next
    fix k k' b
    assume "map_of (move_key old new a (OnlineMap s)) k = Some b" "map_of (move_key old new a (OnlineMap s)) k' = Some b"
    then show "k = k'"
      using tcp_one_key [OF server_okD(1) [OF assms]] that by (auto simp: gomap_simps split: if_splits)
  qed
  then show "server_ok (snd (RenameUser old new s))" "keeps t (snd (RenameUser old new s)) = keeps t s"
    using assms by (simp_all add: RenameUser_def split: option.splits)
qed

lemma RenameUser_okD:
  "RenameUser old new s = (b, s') \<Longrightarrow> server_ok s \<Longrightarrow> server_ok s'"
  "RenameUser old new s = (b, s') \<Longrightarrow> keeps t s' = keeps t s"
  using RenameUser_ok(1) [of s old new] by (auto simp: RenameUser_def split: option.splits if_splits)

lemma RenameUser_heap [simp]:
  "userHeap (snd (RenameUser old new s)) = userHeap s" "userNext (snd (RenameUser old new s)) = userNext s"
  by (simp_all add: RenameUser_def split: option.splits)

lemma enter_map_ok:
  assumes "server_ok s" "a < userNext s" "\<not> ch_closed (us_C (userHeap s a))"
  shows "server_ok (enter_map a s)"
proof -
  let ?n = "us_Name (userHeap s a)"
  let ?m = "AList.update ?n a (delete_where (\<lambda>k v. v = a \<and> k \<noteq> ?n) (OnlineMap s))"
  have m: "map_ok (OnlineMap s)" using assms(1) by (simp add: server_ok_def tcp_ok_def)
  have look: "map_of ?m k = (if k = ?n then Some a else if map_of (OnlineMap s) k = Some a then None
      else map_of (OnlineMap s) k)" for k
    using m by (simp add: gomap_simps split: option.splits)
  have "server_ok (s\<lparr>OnlineMap := ?m\<rparr>)"
  proof (rule server_ok_OnlineMap [OF assms(1)])
    show "map_ok ?m" using m by (simp add: gomap_simps)
  next
    fix k b assume "map_of ?m k = Some b"
    then show "b < userNext s \<and> \<not> ch_closed (us_C (userHeap s b))"
      using online_addr [OF assms(1)] assms(2,3) unfolding look by (auto split: if_splits)
  next
    fix k k' b assume "map_of ?m k = Some b" "map_of ?m k' = Some b"
    then show "k = k'"
      using tcp_one_key [OF server_okD(1) [OF assms(1)]] unfolding look by (auto split: if_splits)
  qed
  then show ?thesis by (simp add: enter_map_def Let_def)
qed

lemma keeps_enter_map [simp]: "keeps s (enter_map a t) = keeps s t" "keeps (enter_map a t) s = keeps t s"
  by (simp_all add: enter_map_def keeps_def Let_def)

lemma safe_Online:
  assumes "server_ok s" "a < userNext s" "\<not> ch_closed (us_C (userHeap s a))" "any_order (ev_order ev)"
  shows "safe s (Online ev a s)"
  using safe_broadcast [OF enter_map_ok [OF assms(1-3)] assms(4), of a sysOnline]
  by (simp add: Online_def safe_def)

lemma safe_keeps: "safe t r \<Longrightarrow> keeps s t \<Longrightarrow> safe s r"
  by (auto simp: safe_def intro: keeps_trans)

lemma login_check_ok:
  assumes "server_ok s" "login_check ev a msg s = (go, s')"
  shows "server_ok s'" "keeps s s'"
  using assms RenameUser_okD
  by (auto simp: login_check_def Let_def upd_user_ok split: prod.splits option.splits if_splits)

lemma safe_login_end:
  assumes "server_ok s" "a < userNext s" "\<not> ch_closed (us_C (userHeap s a))" "any_order (ev_order ev)"
  shows "safe s (login_end ev a s)"
  unfolding login_end_def by (rule safe_then_reply [OF safe_Online [OF assms]])

lemma safe_login:
  assumes "server_ok s" "a < userNext s" "\<not> ch_closed (us_C (userHeap s a))" "any_order (ev_order ev)"
  shows "safe s (do_login ev a msg s)"
proof -
  obtain go t where t: "login_check ev a msg s = (go, t)" by fastforce
  note ok = login_check_ok [OF assms(1) t]
  have "safe s (login_end ev a t)"
    using assms(2,3) ok by (intro safe_keeps [OF safe_login_end [OF ok(1) _ _ assms(4)] ok(2)]) (auto simp: keeps_facts)
  then show ?thesis using t ok by (auto simp: do_login_def safe_def)
qed

lemma safe_register:
  assumes "server_ok s"
  shows "safe s (do_register ev a msg s)"
proof -
  have "server_ok t'" "keeps s t'" if "Register ev n p av (s\<lparr>tcpRegisterLimiter := l\<rparr>) = (r, t')" for n p av l r t'
    using that assms RegisterUser_db_ok [OF server_okD(4) [OF assms], of "ev_drv ev" n p av]
    by (auto simp: Register_def intro!: server_ok_DB split: prod.splits)
  then show ?thesis
    unfolding do_register_def Let_def using assms
    by (auto split: prod.splits sum.splits if_splits intro!: safe_reply)
qed

lemma do_who_ok: "only_queues s (do_who ev a s)"
  unfolding do_who_def by (rule only_queues_fold) (simp split: prod.splits)

lemma safe_who: "server_ok s \<Longrightarrow> safe s (Some (do_who ev a s))"
  using only_queues_ok [OF do_who_ok] messaging_keeps [OF messaging_queues [OF do_who_ok]]
  by (simp add: safe_def)

lemma safe_rename:
  assumes "server_ok s"
  shows "safe s (Some (do_rename a msg s))"
proof -
  have "server_ok (upd_user a (\<lambda>u. u\<lparr>us_Name := n\<rparr>) t)" "keeps s (upd_user a (\<lambda>u. u\<lparr>us_Name := n\<rparr>) t)"
    if "RenameUser old n s = (True, t)" for old n t
    using RenameUser_okD [OF that] assms by (simp_all add: upd_user_ok)
  then show ?thesis
    unfolding do_rename_def Let_def using assms RenameUser_okD
    by (auto split: prod.splits bool.splits intro!: safe_reply)
qed

lemma safe_to:
  assumes "server_ok s"
  shows "safe s (do_to ev a msg s)"
proof -
  have send: "\<exists>r s'. sendPrivate ev f t c av s = Some (r, s') \<and> server_ok s' \<and> keeps s s'" for f t c av
    using sendPrivate_ok [OF assms] messaging_keeps by blast
  have "safe s (case sendPrivate ev f t c av s of
                 None \<Rightarrow> None
               | Some (Inl e, s1) \<Rightarrow> Some (SendMsg a (e @ [CHR 0x0A]) s1)
               | Some (Inr _, s1) \<Rightarrow> Some (SendMsg a m s1))" for f t c av m
    using send [of f t c av] by (auto split: sum.splits intro: safe_reply)
  then show ?thesis
    unfolding do_to_def Let_def using assms by (auto intro: safe_reply)
qed

lemma srv_group_ok:
  assumes "server_ok s"
  shows "srvCreateGroup ev g n s = (r, s') \<Longrightarrow> server_ok s' \<and> keeps s s'"
    "srvJoinGroup ev g n s = (r, s') \<Longrightarrow> server_ok s' \<and> keeps s s'"
    "srvLeaveGroup ev g n s = (r, s') \<Longrightarrow> server_ok s' \<and> keeps s s'"
proof -
  have d: "db_ok (DB s)" using server_okD(4) [OF assms] .
  have u: "up_ID x \<in> set (user_ids (DB s))" if "GetUserByUsername (ev_drv ev) (DB s) n = Inr x" for x
    using GetUserByUsername_InrD [OF that] by blast
  show "srvCreateGroup ev g n s = (r, s') \<Longrightarrow> server_ok s' \<and> keeps s s'"
    using CreateGroup_db_ok [OF d, of "ev_drv ev" _ g "[]"] u assms
    by (fastforce simp: srvCreateGroup_def intro!: server_ok_DB split: sum.splits prod.splits)
  show "srvJoinGroup ev g n s = (r, s') \<Longrightarrow> server_ok s' \<and> keeps s s'"
    using JoinGroup_db_ok [OF d, of "ev_drv ev" _ g] u assms
    by (fastforce simp: srvJoinGroup_def intro!: server_ok_DB split: sum.splits prod.splits)
  show "srvLeaveGroup ev g n s = (r, s') \<Longrightarrow> server_ok s' \<and> keeps s s'"
    using assms
    by (auto simp: srvLeaveGroup_def case_prod_beta intro!: server_ok_DB LeaveGroup_db_ok d split: sum.splits)
qed

lemma safe_group_reply: "(\<And>r s'. x = (r, s') \<Longrightarrow> server_ok s' \<and> keeps s s') \<Longrightarrow> safe s (Some (group_reply a m x))"
  by (cases x; cases "fst x") (auto simp: group_reply_def intro!: safe_reply)

lemma safe_group:
  assumes "server_ok s" "delivers_all (ev_drv ev)"
  shows "safe s (do_group ev a msg s)"
proof -
  have send: "\<exists>r s'. broadcastToGroup ev g f c av s = Some (r, s') \<and> server_ok s' \<and> keeps s s'" for g f c av
    using broadcastToGroup_ok [OF assms] messaging_keeps by blast
  have "safe s (case broadcastToGroup ev g f c av s of
                      None \<Rightarrow> None
                    | Some (Inl e, s1) \<Rightarrow> Some (SendMsg a (e @ [CHR 0x0A]) s1)
                    | Some (Inr _, s1) \<Rightarrow> Some s1)" for g f c av
    using send [of g f c av] by (auto split: sum.splits intro: safe_reply simp: safe_def)
  moreover note srv_group_ok [OF assms(1), THEN safe_group_reply]
  ultimately show ?thesis
    unfolding do_group_def Let_def using assms(1)
    by (auto intro: safe_reply)
qed

text \<open>Only a login needs an open channel.\<close>

lemma safe_other_line:
  assumes "server_ok s" "us_auth (userHeap s a) \<or> \<not> HasPrefix msg ''login|''"
    and "any_order (ev_order ev)" "delivers_all (ev_drv ev)"
  shows "safe s (DoMessage ev a msg s)"
  unfolding DoMessage_def Let_def
  using assms safe_register safe_who safe_rename safe_to safe_group safe_broadcast safe_reply
  by (auto simp del: not_None_eq)

lemma safe_DoMessage:
  assumes "server_ok s" "a < userNext s" "\<not> ch_closed (us_C (userHeap s a))"
    and "any_order (ev_order ev)" "delivers_all (ev_drv ev)"
  shows "safe s (DoMessage ev a msg s)"
proof (cases "us_auth (userHeap s a) \<or> \<not> HasPrefix msg ''login|''")
  case True
  then show ?thesis using safe_other_line assms by blast
next
  case False
  then show ?thesis using safe_login [OF assms(1-4)] by (simp add: DoMessage_def)
qed

lemma leave_map_ok:
  assumes "server_ok s"
  shows "server_ok (leave_map a s)" "map_of (OnlineMap (leave_map a s)) k \<noteq> Some a"
proof -
  have m: "map_ok (OnlineMap s)" using assms by (simp add: server_ok_def tcp_ok_def)
  have look: "map_of (delete_where (\<lambda>k v. v = a) (OnlineMap s)) k =
      (if map_of (OnlineMap s) k = Some a then None else map_of (OnlineMap s) k)" for k
    using m by (simp add: gomap_simps split: option.splits)
  show "map_of (OnlineMap (leave_map a s)) k \<noteq> Some a" by (simp add: leave_map_def look)
  show "server_ok (leave_map a s)"
    unfolding leave_map_def
  proof (rule server_ok_OnlineMap [OF assms])
    show "map_ok (delete_where (\<lambda>k v. v = a) (OnlineMap s))" using m by (simp add: gomap_simps)
  next
    fix k b assume "map_of (delete_where (\<lambda>k v. v = a) (OnlineMap s)) k = Some b"
    then show "b < userNext s \<and> \<not> ch_closed (us_C (userHeap s b))"
      using online_addr [OF assms] unfolding look by (auto split: if_splits)
  next
    fix k k' b assume "map_of (delete_where (\<lambda>k v. v = a) (OnlineMap s)) k = Some b"
      "map_of (delete_where (\<lambda>k v. v = a) (OnlineMap s)) k' = Some b"
    then show "k = k'"
      using tcp_one_key [OF server_okD(1) [OF assms]] unfolding look by (auto split: if_splits)
  qed
qed

lemma leave_map_fields [simp]:
  "userHeap (leave_map a s) = userHeap s" "userNext (leave_map a s) = userNext s"
  by (simp_all add: leave_map_def)

lemma Offline_ok:
  assumes "server_ok s" "\<not> ch_closed (us_C (userHeap s a))" "any_order (ev_order ev)"
  shows "\<exists>s'. Offline ev a s = Some s' \<and> server_ok s' \<and> userNext s' = userNext s
    \<and> (\<forall>b. ch_closed (us_C (userHeap s' b)) \<longleftrightarrow> b = a \<or> ch_closed (us_C (userHeap s b)))
    \<and> (\<forall>k. map_of (OnlineMap s') k \<noteq> Some a)"
proof -
  obtain t where t: "BroadCast ev a sysOffline (leave_map a s) = Some t" "server_ok t" "messaging (leave_map a s) t"
    using BroadCast_ok [OF leave_map_ok(1) [OF assms(1)] assms(3)] by blast
  note f = messaging_fields [OF t(3)]
  have out: "map_of (OnlineMap t) k \<noteq> Some a" for k
    using leave_map_ok(2) [OF assms(1)] by (simp add: f)
  let ?u = "upd_user a (\<lambda>u. u\<lparr>us_conn := False, us_C := (us_C u)\<lparr>ch_buf := [], ch_closed := True\<rparr>\<rparr>) t"
  have "server_ok ?u"
    using t(2) out by (auto simp: server_ok_defs upd_user_def chan_ok_def)
  then show ?thesis
    using t(1) assms(2) out by (auto simp: Offline_def upd_user_def f split: if_splits)
qed

text \<open>The invariant of the system: a channel is closed exactly if its connection went offline.\<close>

definition tcp_sys_ok :: "tcp_system \<Rightarrow> bool" where
  "tcp_sys_ok t =
     (server_ok (ts_server t)
      \<and> (\<forall>a < userNext (ts_server t). ch_closed (us_C (userHeap (ts_server t) a)) \<longleftrightarrow> ho_offline (ts_handlers t a)))"

definition env_ok :: "env \<Rightarrow> bool" where
  "env_ok ev = (any_order (ev_order ev) \<and> delivers_all (ev_drv ev))"

lemma NewUser_ok:
  assumes "server_ok s" "NewUser addr s = (a, s')"
  shows "server_ok s'" "a = userNext s" "userNext s' = userNext s + 1"
    "\<not> ch_closed (us_C (userHeap s' a))" "\<And>b. b \<noteq> a \<Longrightarrow> userHeap s' b = userHeap s b"
  using assms by (auto simp: NewUser_def server_ok_defs make_chan_def chan_ok_def less_Suc_eq split: if_splits)

lemma offline_once_ok:
  assumes "tcp_sys_ok t" "a < userNext (ts_server t)" "any_order (ev_order ev)"
  shows "\<exists>t'. offline_once ev a t = Some t' \<and> tcp_sys_ok t' \<and> ho_offline (ts_handlers t' a)"
proof (cases "ho_offline (ts_handlers t a)")
  case True
  then show ?thesis using assms by (simp add: offline_once_def)
next
  case False
  then obtain s' where s': "Offline ev a (ts_server t) = Some s'" "server_ok s'" "userNext s' = userNext (ts_server t)"
    "\<And>b. ch_closed (us_C (userHeap s' b)) \<longleftrightarrow> b = a \<or> ch_closed (us_C (userHeap (ts_server t) b))"
    using Offline_ok [of "ts_server t" a ev] assms by (auto simp: tcp_sys_ok_def)
  then show ?thesis
    using False assms(1) by (auto simp: offline_once_def set_handler_def tcp_sys_ok_def)
qed

lemma listen_turn_fields:
  "ch_closed (us_C (listen_turn wok u)) = ch_closed (us_C u)" "chan_ok (us_C u) \<Longrightarrow> chan_ok (us_C (listen_turn wok u))"
  "us_Name (listen_turn wok u) = us_Name u"
  by (auto simp: listen_turn_def chan_ok_def Let_def split: list.splits)

lemma Line_ok:
  assumes "server_ok (ts_server t)" "env_ok ev"
  shows "\<exists>t'. Handler ev (Line a l) t = Some t' \<and> server_ok (ts_server t') \<and> keeps (ts_server t) (ts_server t')
    \<and> (\<forall>b. ho_offline (ts_handlers t' b) = ho_offline (ts_handlers t b))"
proof (cases "\<not> us_auth (userHeap (ts_server t) a) \<and> HasPrefix (TrimSpace l) ''login|''")
  case True
  obtain go s where s: "login_check ev a (TrimSpace l) (ts_server t) = (go, s)" by fastforce
  with True login_check_ok [OF assms(1) s] assms(1) show ?thesis by (auto simp: Let_def set_handler_def)
next
  case False
  then have "safe (ts_server t) (DoMessage ev a (TrimSpace l) (ts_server t))"
    using assms by (intro safe_other_line) (auto simp: env_ok_def)
  with False assms(1) show ?thesis by (auto simp: Let_def safe_def)
qed

lemma online_closed:
  assumes "server_ok s" "ch_closed (us_C (userHeap s a))" "any_order (ev_order ev)"
  shows "Online ev a s = None"
proof -
  let ?e = "enter_map a s"
  obtain msg where msg: "sanitizeInputWithLimit sysOnline (maxMsgLength s) = Some msg"
    using server_sanitize [OF assms(1)] .
  let ?t = "saved_public ev (us_Name (userHeap s a)) msg ?e"
  have "map_of (OnlineMap ?e) (us_Name (userHeap s a)) = Some a"
    by (simp add: enter_map_def Let_def gomap_simps)
  then have "a \<in> snd ` set (ev_order ev (OnlineMap ?t))"
    using assms(3) by (force dest: map_of_SomeD)
  moreover have "ch_closed (us_C (userHeap ?t a))" using assms(2) by (simp add: enter_map_def Let_def)
  ultimately have "fanoutTCP ev m ?t = None" for m
    by (simp add: fanoutTCP_def fanout_closed)
  then show ?thesis
    using msg unfolding Online_def BroadCast_def Let_def broadcastPublic_def saved_public_def [symmetric]
    by (simp add: enter_map_def Let_def)
qed

text \<open>The one event of a connection that panics: a login goes on to \<^verbatim>\<open>Online\<close> after the connection went offline.\<close>

definition late_online :: "tcp_event \<Rightarrow> tcp_system \<Rightarrow> bool" where
  "late_online e t = (\<exists>a. e = LoginOnline a \<and> ho_offline (ts_handlers t a))"

lemma late_online_panics:
  assumes "tcp_sys_ok t" "enabled e t" "env_ok ev" "late_online e t"
  shows "Handler ev e t = None"
  using assms online_closed [of "ts_server t" _ ev]
  by (auto simp: late_online_def tcp_sys_ok_def env_ok_def login_end_def)

lemma LoginOnline_ok:
  assumes "tcp_sys_ok t" "enabled (LoginOnline a) t" "env_ok ev" "\<not> late_online (LoginOnline a) t"
  shows "\<exists>t'. Handler ev (LoginOnline a) t = Some t' \<and> server_ok (ts_server t') \<and> keeps (ts_server t) (ts_server t')
    \<and> (\<forall>b. ho_offline (ts_handlers t' b) = ho_offline (ts_handlers t b))"
proof -
  have "safe (ts_server t) (login_end ev a (ts_server t))"
    using assms by (intro safe_login_end) (auto simp: tcp_sys_ok_def env_ok_def late_online_def)
  then show ?thesis by (auto simp: safe_def set_handler_def)
qed

lemma Handler_ok:
  assumes "tcp_sys_ok t" "enabled e t" "env_ok ev" "\<not> late_online e t"
  shows "\<exists>t'. Handler ev e t = Some t' \<and> tcp_sys_ok t'"
proof (cases e)
  case (Accept addr)
  obtain a s where n: "NewUser addr (ts_server t) = (a, s)" by (cases "NewUser addr (ts_server t)")
  have ok: "server_ok (ts_server t)" using assms(1) by (simp add: tcp_sys_ok_def)
  note nu = NewUser_ok [OF ok n]
  obtain s' where s': "Online ev a s = Some s'" "server_ok s'" "keeps s s'"
    using safe_Online [of s a ev] nu assms(3) by (auto simp: safe_def env_ok_def)
  then show ?thesis
    using Accept n nu assms(1) by (auto simp: tcp_sys_ok_def keeps_facts less_Suc_eq)
next
  case (Line a l)
  then show ?thesis using Line_ok [of t ev a l] assms(1,3) by (auto simp: tcp_sys_ok_def keeps_facts simp del: Handler.simps)
next
  case (LoginOnline a)
  then show ?thesis
    using LoginOnline_ok [of t a ev] assms by (auto simp: tcp_sys_ok_def keeps_facts simp del: Handler.simps)
next
  case (InputEnd a)
  have "tcp_sys_ok (set_handler a (\<lambda>h. h\<lparr>ho_reading := False\<rparr>) t)"
    using assms(1) by (auto simp: tcp_sys_ok_def set_handler_def)
  from offline_once_ok [OF this, of a ev] show ?thesis
    using InputEnd assms(2,3) by (auto simp: env_ok_def set_handler_def)
next
  case (IdleTimeout a)
  have "tcp_sys_ok (t\<lparr>ts_server := SendMsg a txt_kicked (ts_server t)\<rparr>)"
    using assms(1) by (auto simp: tcp_sys_ok_def only_queues_fields [OF only_queues_SendMsg])
  from offline_once_ok [OF this, of a ev] obtain t'
    where "offline_once ev a (t\<lparr>ts_server := SendMsg a txt_kicked (ts_server t)\<rparr>) = Some t'" "tcp_sys_ok t'"
    using IdleTimeout assms(2,3) by (auto simp: env_ok_def only_queues_fields [OF only_queues_SendMsg])
  then show ?thesis using IdleTimeout by (auto simp: tcp_sys_ok_def set_handler_def)
next
  case (Written a wok)
  then show ?thesis
    using assms(1) by (auto simp: ListenMessage_def upd_user_def tcp_sys_ok_def server_ok_defs listen_turn_fields)
qed

lemma New_ok:
  assumes "New drv rs rb cert rawID cfg file fs = Inr s" "db_ok file" "0 \<le> ac_MaxMsgLength (cf_App cfg)"
  shows "server_ok s" "userNext s = 0" "sessionCleanup s = ac_SessionCleanup (cf_App cfg)"
  using assms InitDatabase_db_ok [of drv "file"]
  by (auto simp: New_def Let_def server_ok_defs make_chan_def chan_ok_def split: sum.splits)

lemma Authenticate_limiter [simp]: "Authenticate ev u p (s\<lparr>tcpLoginLimiter := l\<rparr>) = Authenticate ev u p s"
  by (simp add: Authenticate_def)

lemma Online_effect:
  assumes "server_ok s" "a < userNext s" "\<not> ch_closed (us_C (userHeap s a))" "any_order (ev_order ev)"
    "Online ev a s = Some s'"
  shows "map_of (OnlineMap s') (us_Name (userHeap s a)) = Some a" "messaging (enter_map a s) s'"
proof -
  show m: "messaging (enter_map a s) s'"
    using BroadCast_ok [OF enter_map_ok [OF assms(1-3)] assms(4), of a sysOnline] assms(5) by (simp add: Online_def)
  show "map_of (OnlineMap s') (us_Name (userHeap s a)) = Some a"
    by (simp add: messaging_fields [OF m] enter_map_def Let_def gomap_simps)
qed

text \<open>What a user that is not logged in can change: the reply in its own queue, the accounts, a limiter.\<close>

definition own_reply :: "nat \<Rightarrow> Server \<Rightarrow> Server \<Rightarrow> bool" where
  "own_reply a s s' =
     ((\<forall>b. b \<noteq> a \<longrightarrow> userHeap s' b = userHeap s b) \<and> wsHeap s' = wsHeap s \<and> OnlineMap s' = OnlineMap s
      \<and> WSConns s' = WSConns s \<and> bus s' = bus s \<and> db_messages (DB s') = db_messages (DB s))"

lemma own_reply_SendMsg: "own_reply a s t \<Longrightarrow> own_reply a s (SendMsg a m t)"
  by (simp add: own_reply_def SendMsg_def)

lemma own_reply_refl: "own_reply a s s" "own_reply a s (s\<lparr>tcpLoginLimiter := l\<rparr>)" "own_reply a s (s\<lparr>tcpRegisterLimiter := l\<rparr>)"
  by (simp_all add: own_reply_def)

lemma Register_reply:
  assumes "Register ev n p av (s\<lparr>tcpRegisterLimiter := l\<rparr>) = (r, t)"
  shows "own_reply a s t"
proof -
  have "db_messages d' = db_messages d" if "insert_user drv ig x y z g q d = Inr d'" for drv ig x y z g q d d'
    using that by (auto elim: insert_userE)
  with assms show ?thesis
    by (auto simp: own_reply_def Register_def RegisterUser_def split: prod.splits if_splits sum.splits sql_err.splits)
qed

lemma RenameUser_cases:
  "RenameUser old new s = (b, t) \<Longrightarrow> (\<not> b \<and> t = s) \<or> b \<and> (\<exists>m. t = s\<lparr>OnlineMap := m\<rparr>)"
  by (auto simp: RenameUser_def split: if_splits option.splits)

lemma three_parts: "length ps = 3 \<Longrightarrow> \<exists>w x y. ps = [w, x, y]"
  by (simp add: numeral_3_eq_3 length_Suc_conv) blast

text \<open>The two outcomes of a command before login.\<close>

text \<open>
  A line logs a connection in: it has three parts, the database accepts the last one as the password of
  the account that the second one names, and the connection is online under that name.
\<close>

definition logged_in :: "env \<Rightarrow> nat \<Rightarrow> string \<Rightarrow> Server \<Rightarrow> Server \<Rightarrow> bool" where
  "logged_in ev a msg s s' =
     (\<exists>w x y av. msg = w @ CHR ''|'' # x @ CHR ''|'' # y \<and> CHR ''|'' \<notin> set w \<union> set x \<union> set y
        \<and> isValidUsername (TrimSpace x) \<and> Authenticate ev (TrimSpace x) (TrimSpace y) s = Some av
        \<and> us_auth (userHeap s' a) \<and> us_Name (userHeap s' a) = TrimSpace x
        \<and> map_of (OnlineMap s') (TrimSpace x) = Some a)"

lemma login_outcome:
  assumes "server_ok s" "a < userNext s" "\<not> ch_closed (us_C (userHeap s a))" "any_order (ev_order ev)"
    "do_login ev a msg s = Some s'"
  shows "own_reply a s s' \<and> us_auth (userHeap s' a) = us_auth (userHeap s a)
    \<or> logged_in ev a msg s s'"
proof -
  obtain ok rl where al: "Allow (ev_now ev) (tcpLoginLimiter s) (us_Addr (userHeap s a)) = (ok, rl)" by fastforce
  let ?s = "s\<lparr>tcpLoginLimiter := rl\<rparr>" and ?parts = "Split (CHR ''|'') msg"
  let ?u = "TrimSpace (?parts ! 1)" and ?p = "TrimSpace (?parts ! 2)"
  have reply: "own_reply a s (SendMsg a m ?s) \<and> us_auth (userHeap (SendMsg a m ?s) a) = us_auth (userHeap s a)" for m
    using own_reply_SendMsg [OF own_reply_refl(2)] by (simp add: only_queues_fields [OF only_queues_SendMsg])
  show ?thesis
  proof (cases "ok \<and> length ?parts = 3 \<and> isValidUsername ?u \<and> Authenticate ev ?u ?p s \<noteq> None")
    case False
    then show ?thesis
      using assms(5) al reply unfolding do_login_def login_check_def Let_def
      by (auto split: if_splits option.splits prod.splits)
  next
    case True
    then obtain av where av: "Authenticate ev ?u ?p s = Some av" by blast
    obtain b t where t: "(if us_Name (userHeap ?s a) \<noteq> ?u then RenameUser (us_Name (userHeap ?s a)) ?u ?s else (True, ?s)) = (b, t)"
      by fastforce
    let ?t = "upd_user a (\<lambda>u. u\<lparr>us_Name := ?u, us_Avatar := av, us_auth := True\<rparr>) t"
    have res: "do_login ev a msg s = (if \<not> b then Some (SendMsg a txt_login_taken t)
        else map_option (SendMsg a txt_login_ok) (Online ev a ?t))"
      using True av al t unfolding do_login_def login_check_def login_end_def Let_def by simp
    show ?thesis
    proof (cases b)
      case False
      then have "t = ?s" using t by (auto split: if_splits dest: RenameUser_cases)
      then show ?thesis using res False assms(5) reply by simp
    next
      case True
      have "server_ok t" "keeps ?s t" using t assms(1) RenameUser_okD [of _ _ ?s b t] by (auto split: if_splits)
      then have k: "server_ok ?t" "keeps s ?t" by (simp_all add: upd_user_ok)
      then have open_t: "a < userNext ?t" "\<not> ch_closed (us_C (userHeap ?t a))" using assms(2,3) by (auto simp: keeps_facts)
      obtain r where r: "Online ev a ?t = Some r" "s' = SendMsg a txt_login_ok r"
        using res True assms(5) by (cases "Online ev a ?t") simp_all
      note on = Online_effect [OF k(1) open_t assms(4) r(1)]
      have name: "us_Name (userHeap ?t a) = ?u" "us_auth (userHeap (enter_map a ?t) a)" "us_Name (userHeap (enter_map a ?t) a) = ?u"
        by (simp_all add: upd_user_def enter_map_def Let_def)
      have res': "us_auth (userHeap s' a)" "us_Name (userHeap s' a) = ?u"
        "map_of (OnlineMap s') ?u = Some a"
        using on(1) name by (simp_all add: r(2) only_queues_fields [OF only_queues_SendMsg] messaging_fields [OF on(2)])
      obtain w x y where w: "?parts = [w, x, y]"
        using three_parts [of ?parts] \<open>ok \<and> _\<close> by blast
      then have "msg = w @ CHR ''|'' # x @ CHR ''|'' # y" using join_Split [of "CHR ''|''" msg] by (simp add: join_with_Cons)
      moreover have "CHR ''|'' \<notin> set w" "CHR ''|'' \<notin> set x" "CHR ''|'' \<notin> set y"
        using w Split_pieces [of _ "CHR ''|''" msg] by simp_all
      moreover have "isValidUsername (TrimSpace x)" "Authenticate ev (TrimSpace x) (TrimSpace y) s = Some av"
        using \<open>ok \<and> _\<close> av unfolding w by simp_all
      ultimately have "logged_in ev a msg s s'"
        unfolding logged_in_def using res' [unfolded w]
        by (intro exI [of _ w] exI [of _ x] exI [of _ y] exI [of _ av] conjI) simp_all
      then show ?thesis by blast
    qed
  qed
qed

lemma register_outcome:
  assumes "do_register ev a msg s = Some s'"
  shows "own_reply a s s' \<and> us_auth (userHeap s' a) = us_auth (userHeap s a)"
proof -
  have auth: "us_auth (userHeap (SendMsg a m t) a) = us_auth (userHeap t a)" for m t
    by (simp add: only_queues_fields [OF only_queues_SendMsg])
  have reg: "own_reply a s t" "us_auth (userHeap t a) = us_auth (userHeap s a)"
    if "Register ev n p av (s\<lparr>tcpRegisterLimiter := l\<rparr>) = (r, t)" for n p av l r t
    using Register_reply [OF that] that by (auto simp: Register_def split: prod.splits)
  show ?thesis
    using assms own_reply_SendMsg [OF own_reply_refl(3)] own_reply_SendMsg [OF reg(1)] reg(2) auth
    unfolding do_register_def Let_def
    by (auto split: if_splits prod.splits sum.splits)
qed

lemma not_logged_in_outcome:
  assumes "server_ok s" "a < userNext s" "\<not> ch_closed (us_C (userHeap s a))" "any_order (ev_order ev)"
    "\<not> us_auth (userHeap s a)" "DoMessage ev a msg s = Some s'"
  shows "own_reply a s s' \<and> \<not> us_auth (userHeap s' a) \<or> HasPrefix msg ''login|'' \<and> logged_in ev a msg s s'"
proof (cases "HasPrefix msg ''login|''")
  case True
  then have "do_login ev a msg s = Some s'" using assms(5,6) by (simp add: DoMessage_def)
  from login_outcome [OF assms(1-4) this] True assms(5) show ?thesis by blast
next
  case False
  then show ?thesis
    using register_outcome [of ev a msg s s'] own_reply_SendMsg [OF own_reply_refl(1)] assms(5,6)
    by (auto simp: DoMessage_def only_queues_fields [OF only_queues_SendMsg] split: if_splits)
qed

lemma logged_in_parts:
  assumes "HasPrefix msg ''login|''" "logged_in ev a msg s s'"
  shows "\<exists>x y av. msg = ''login|'' @ x @ ''|'' @ y \<and> CHR ''|'' \<notin> set x \<union> set y
        \<and> isValidUsername (TrimSpace x) \<and> Authenticate ev (TrimSpace x) (TrimSpace y) s = Some av
        \<and> us_auth (userHeap s' a) \<and> us_Name (userHeap s' a) = TrimSpace x
        \<and> map_of (OnlineMap s') (TrimSpace x) = Some a"
proof -
  obtain w x y av where w: "msg = w @ CHR ''|'' # x @ CHR ''|'' # y" "CHR ''|'' \<notin> set w \<union> set x \<union> set y"
      "isValidUsername (TrimSpace x)" "Authenticate ev (TrimSpace x) (TrimSpace y) s = Some av"
      "us_auth (userHeap s' a)" "us_Name (userHeap s' a) = TrimSpace x"
      "map_of (OnlineMap s') (TrimSpace x) = Some a"
    using assms(2) unfolding logged_in_def by blast
  obtain r where "msg = ''login'' @ CHR ''|'' # r" using assms(1) by (auto simp: HasPrefix_iff)
  then have "takeWhile (\<lambda>c. c \<noteq> CHR ''|'') msg = ''login''" by simp
  moreover have "takeWhile (\<lambda>c. c \<noteq> CHR ''|'') msg = w"
    unfolding w(1) using w(2) by (subst takeWhile_append2) auto
  ultimately show ?thesis using w by (intro exI [of _ x] exI [of _ y] exI [of _ av]) simp
qed

section \<open>Properties\<close>

text \<open>
  C17. Without a login nothing gets out: a line from a connection that is not logged in either logs it
  in, or it reaches nobody: no other queue, no map, no stored message changes.  It logs in only
  as \<^verbatim>\<open>login|name|password\<close>, where the trimmed name is a valid user name and the database accepts the
  trimmed password for exactly that account; the connection is then online under that name.
\<close>

theorem tcp_login_gate:
  assumes "server_ok s" "a < userNext s" "\<not> ch_closed (us_C (userHeap s a))" "env_ok ev"
    "\<not> us_auth (userHeap s a)" "DoMessage ev a msg s = Some s'"
  shows "own_reply a s s' \<and> \<not> us_auth (userHeap s' a)
    \<or> (\<exists>x y av. msg = ''login|'' @ x @ ''|'' @ y \<and> CHR ''|'' \<notin> set x \<union> set y
          \<and> isValidUsername (TrimSpace x) \<and> Authenticate ev (TrimSpace x) (TrimSpace y) s = Some av
          \<and> us_auth (userHeap s' a) \<and> us_Name (userHeap s' a) = TrimSpace x
          \<and> map_of (OnlineMap s') (TrimSpace x) = Some a)"
  using not_logged_in_outcome [of s a ev msg s'] logged_in_parts assms unfolding env_ok_def by metis

theorem tcp_login_gate_witness:
  "\<exists>s'. DoMessage (plain_env 9) 2 ''hello everybody'' demo_server = Some s' \<and> own_reply 2 demo_server s'"
proof -
  let ?s = "SendMsg 2 txt_please_login demo_server"
  have d: "DoMessage (plain_env 9) 2 ''hello everybody'' demo_server = Some ?s"
    by (simp add: DoMessage_def demo_server_def demo_user_def)
  have "\<not> us_auth (userHeap ?s 2)"
    by (simp add: only_queues_fields [OF only_queues_SendMsg]) (simp add: demo_server_def demo_user_def)
  moreover have "2 < userNext demo_server" "\<not> ch_closed (us_C (userHeap demo_server 2))" "\<not> us_auth (userHeap demo_server 2)"
    by (simp_all add: demo_server_def demo_user_def make_chan_def)
  ultimately show ?thesis
    using tcp_login_gate [OF demo_server_ok _ _ _ _ d] d by (auto simp: env_ok_def)
qed

text \<open>
  C39. A race the code does not exclude: if the idle timeout takes a user offline while a login line
  of the same connection is being handled, the login ends with \<^verbatim>\<open>Online\<close> after \<^verbatim>\<open>Offline\<close>, and the
  broadcast of \<^verbatim>\<open>Online\<close> then sends on the closed channel of that user: the server panics.
\<close>

theorem online_after_offline_panics:
  assumes "server_ok s" "\<not> ch_closed (us_C (userHeap s a))" "any_order (ev_order ev)" "any_order (ev_order ev')"
    "Offline ev a s = Some s1"
  shows "Online ev' a s1 = None"
proof -
  obtain s1' where "Offline ev a s = Some s1'" "server_ok s1'" "ch_closed (us_C (userHeap s1' a))"
    using Offline_ok [OF assms(1-3)] by blast
  then show ?thesis using online_closed [of s1 a ev'] assms(4,5) by simp
qed

theorem online_after_offline_panics_witness:
  "\<exists>s1. Offline (plain_env 9) 1 demo_server = Some s1 \<and> Online (plain_env 10) 1 s1 = None"
proof -
  have o: "\<not> ch_closed (us_C (userHeap demo_server 1))" by (simp add: demo_server_def demo_user_def make_chan_def)
  from Offline_ok [OF demo_server_ok o, of "plain_env 9"] obtain s1 where "Offline (plain_env 9) 1 demo_server = Some s1"
    by auto
  with online_after_offline_panics [OF demo_server_ok o plain_env_ok(1) plain_env_ok(1) this] show ?thesis by blast
qed

end
