(* ===== verification/Web_Socket.thy ===== *)
theory Web_Socket
  imports Tcp_User
begin

text \<open>
  The WebSocket side of the server, \<^verbatim>\<open>internal/server/wss.go\<close>.  A connection goes through
  \<^verbatim>\<open>handleWebSocket\<close>: the first message must authenticate it, then the read loop handles one
  message after the other and the write goroutine empties the queue.  A message is the decoded
  value, or \<^const>\<open>None\<close> if it does not decode; the theory \<open>Wire\<close> has the JSON text.  The answer
  \<^verbatim>\<open>auth_ok\<close> is handed to the connection before anything is queued.
\<close>

section \<open>Definitions\<close>

definition AddWSClient :: "nat \<Rightarrow> Server \<Rightarrow> Server" where
  "AddWSClient a s = s\<lparr>WSConns := AList.update (wc_Name (wsHeap s a)) a (WSConns s)\<rparr>"

definition cancel_client :: "nat \<Rightarrow> Server \<Rightarrow> Server" where
  "cancel_client a s = s\<lparr>wsHeap := (wsHeap s)(a := (wsHeap s a)\<lparr>wc_done := True\<rparr>)\<rparr>"

definition RemoveWSClient :: "string \<Rightarrow> Server \<Rightarrow> Server" where
  "RemoveWSClient name s =
     (case map_of (WSConns s) name of
        None \<Rightarrow> s
      | Some a \<Rightarrow> (cancel_client a s)\<lparr>WSConns := AList.delete name (WSConns s)\<rparr>)"

definition SendPrivateWS :: "env \<Rightarrow> string \<Rightarrow> string \<Rightarrow> string \<Rightarrow> string \<Rightarrow> Server \<Rightarrow> (unit res \<times> Server) option" where
  "SendPrivateWS ev from to content avatar s = sendPrivate ev from to content avatar s"

definition BroadCastToGroupWS :: "env \<Rightarrow> string \<Rightarrow> string \<Rightarrow> string \<Rightarrow> string \<Rightarrow> Server \<Rightarrow> (unit res \<times> Server) option" where
  "BroadCastToGroupWS ev groupName from msg avatar s = broadcastToGroup ev groupName from msg avatar s"

definition BroadCastFromWS :: "env \<Rightarrow> string \<Rightarrow> string \<Rightarrow> string \<Rightarrow> Server \<Rightarrow> Server option" where
  "BroadCastFromWS ev name msg avatar s = broadcastPublic ev name msg avatar False s"

definition ws_sent_reply :: "env \<Rightarrow> string \<Rightarrow> string \<Rightarrow> wsOutgoing" where
  "ws_sent_reply ev to content =
     \<lparr>wo_Type = ''sent'', wo_Mode = ''private'', wo_From = [], wo_To = to, wo_Group = [], wo_Avatar = [],
      wo_Content = content, wo_Time = nowLabelWS ev\<rparr>"

definition handleWSMessage :: "env \<Rightarrow> nat \<Rightarrow> wsIncoming \<Rightarrow> Server \<Rightarrow> Server option" where
  "handleWSMessage ev a data s0 =
     (case Allow (ev_now ev) (sendLimiter s0) (wc_RemoteIP (wsHeap s0 a)) of
        (ok, rl) \<Rightarrow>
     (let s = s0\<lparr>sendLimiter := rl\<rparr>; trimmed = TrimSpace (wi_Message data)
      in if \<not> ok then Some (writeWS ev a (ws_plain ''error'' txt_ws_limited) s)
         else if trimmed = [] then Some s
         else
     (case sanitizeInputWithLimit trimmed (maxMsgLength s) of
        None \<Rightarrow> None
      | Some content \<Rightarrow>
     (let name = wc_Name (wsHeap s a); avatar = wc_Avatar (wsHeap s a)
      in if wi_Mode data = ''private'' then
           (let to = TrimSpace (wi_To data)
            in if to = [] then Some (writeWS ev a (ws_plain ''error'' ''missing recipient'') s)
               else
                 (case SendPrivateWS ev name to content avatar s of
                    None \<Rightarrow> None
                  | Some (Inl e, s1) \<Rightarrow> Some (writeWS ev a (ws_plain ''error'' e) s1)
                  | Some (Inr _, s1) \<Rightarrow> Some (writeWS ev a (ws_sent_reply ev to content) s1)))
         else if wi_Mode data = ''group'' then
           (let groupName = TrimSpace (wi_To data)
            in if groupName = [] then Some (writeWS ev a (ws_plain ''error'' ''missing group name'') s)
               else
                 (case BroadCastToGroupWS ev groupName name content avatar s of
                    None \<Rightarrow> None
                  | Some (Inl e, s1) \<Rightarrow> Some (writeWS ev a (ws_plain ''error'' e) s1)
                  | Some (Inr _, s1) \<Rightarrow> Some s1))
         else BroadCastFromWS ev name content avatar s))))"

text \<open>
  The start of \<^verbatim>\<open>handleWebSocket\<close>: \<open>first\<close> is \<^const>\<open>None\<close> if reading the first message fails and
  otherwise its decoding, a type and a token.
\<close>

datatype ws_start = Refused string | Connected nat string

definition ws_connect ::
  "env \<Rightarrow> string \<Rightarrow> (string \<times> string) option option \<Rightarrow> Server \<Rightarrow> ws_start \<times> Server" where
  "ws_connect ev ip first s =
     (case first of
        None \<Rightarrow> (Refused ''auth required'', s)
      | Some None \<Rightarrow> (Refused ''invalid auth'', s)
      | Some (Some (type, token)) \<Rightarrow>
     (if type \<noteq> ''auth'' \<or> token = [] then (Refused ''invalid auth'', s)
      else
     (case GetUsernameByToken ev token s of
        (None, s1) \<Rightarrow> (Refused ''auth failed'', s1)
      | (Some username, s1) \<Rightarrow>
     (let s2 = RemoveWSClient username s1
      in case GetUserByUsername (ev_drv ev) (DB s2) username of
           Inl e \<Rightarrow> (Refused ''user not found'', s2)
         | Inr userInfo \<Rightarrow>
             (Connected (wsNext s2) username,
              AddWSClient (wsNext s2)
                (s2\<lparr>wsHeap := (wsHeap s2)(wsNext s2 :=
                      \<lparr>wc_Name = username, wc_Avatar = up_Avatar userInfo, wc_RemoteIP = ip, wc_C = make_chan 100,
                       wc_done = False, wc_sent = [ws_plain ''auth_ok'' []], wc_writing = True\<rparr>),
                    wsNext := wsNext s2 + 1\<rparr>))))))"

text \<open>One turn of the read loop that read a message.\<close>

definition ws_frame :: "env \<Rightarrow> nat \<Rightarrow> wsIncoming option \<Rightarrow> Server \<Rightarrow> Server option" where
  "ws_frame ev a msg s =
     (case msg of
        None \<Rightarrow> Some (writeWS ev a (ws_plain ''error'' ''invalid message format'') s)
      | Some data \<Rightarrow>
          if wi_Type data = ''send'' then handleWSMessage ev a data s
          else if wi_Type data = ''ping'' then Some (writeWS ev a (ws_plain ''pong'' []) s)
          else Some (writeWS ev a (ws_plain ''error'' ''unknown message type'') s))"

text \<open>
  The end of the read loop: the context is cancelled and the deferred call removes the entry of
  the name the connection had when it was opened.
\<close>

definition ws_end :: "nat \<Rightarrow> string \<Rightarrow> Server \<Rightarrow> Server" where
  "ws_end a username s = RemoveWSClient username (cancel_client a s)"

text \<open>
  One turn of the write goroutine: \<open>stop\<close> is the choice of the \<^verbatim>\<open>select\<close> when the context is
  cancelled and a message waits, \<open>wok\<close> whether the write succeeds.
\<close>

definition write_turn :: "bool \<Rightarrow> bool \<Rightarrow> WSClient \<Rightarrow> WSClient" where
  "write_turn stop wok c =
     (if \<not> wc_writing c then c
      else
        (case ch_buf (wc_C c) of
           [] \<Rightarrow> if wc_done c then c\<lparr>wc_writing := False\<rparr> else c
         | msg # rest \<Rightarrow>
             if wc_done c \<and> stop then c\<lparr>wc_writing := False\<rparr>
             else if wok then c\<lparr>wc_C := (wc_C c)\<lparr>ch_buf := rest\<rparr>, wc_sent := wc_sent c @ [msg]\<rparr>
             else c\<lparr>wc_C := (wc_C c)\<lparr>ch_buf := rest\<rparr>, wc_writing := False\<rparr>))"

definition ws_write :: "bool \<Rightarrow> bool \<Rightarrow> nat \<Rightarrow> Server \<Rightarrow> Server" where
  "ws_write stop wok a s = s\<lparr>wsHeap := (wsHeap s)(a := write_turn stop wok (wsHeap s a))\<rparr>"

section \<open>Lemmas\<close>

lemma map_ok_ws: "server_ok s \<Longrightarrow> map_ok (WSConns s)"
  by (simp add: server_ok_def ws_ok_def)

lemma server_ok_writeWS [simp]: "server_ok s \<Longrightarrow> server_ok (writeWS ev a m s)"
  by (rule only_queues_ok [OF only_queues_writeWS])

lemma cancel_client_ok [simp]: "server_ok (cancel_client a s) = server_ok s"
  by (auto simp: server_ok_defs cancel_client_def)

lemma RemoveWSClient_ok: "server_ok s \<Longrightarrow> server_ok (RemoveWSClient n s)"
  by (auto simp: RemoveWSClient_def server_ok_defs cancel_client_def gomap_simps split: option.splits)

lemma GetUsernameByToken_ok: "server_ok s \<Longrightarrow> GetUsernameByToken ev tok s = (r, s') \<Longrightarrow> server_ok s'"
  by (auto simp: GetUsernameByToken_def GetUsername_def sessions_ok_def gomap_simps
      intro!: server_ok_Sessions dest: server_okD(5) split: option.splits prod.splits if_splits)

lemma ws_connect_ok:
  assumes "server_ok s"
  shows "server_ok (snd (ws_connect ev ip first s))"
proof -
  have new: "server_ok (AddWSClient (wsNext t) (t\<lparr>wsHeap := (wsHeap t)(wsNext t :=
      \<lparr>wc_Name = n, wc_Avatar = av, wc_RemoteIP = ip, wc_C = make_chan 100, wc_done = False, wc_sent = [ws_plain ''auth_ok'' []],
       wc_writing = True\<rparr>), wsNext := wsNext t + 1\<rparr>))" if "server_ok t" for t n av
    using that by (auto simp: AddWSClient_def server_ok_defs gomap_simps make_chan_def chan_ok_def less_Suc_eq split: if_splits)
  show ?thesis
    unfolding ws_connect_def Let_def
    using assms GetUsernameByToken_ok RemoveWSClient_ok new
    by (auto split: option.splits prod.splits sum.splits)
qed

lemma handleWSMessage_ok:
  assumes "server_ok s" "env_ok ev"
  shows "\<exists>s'. handleWSMessage ev a data s = Some s' \<and> server_ok s'"
proof -
  obtain ok rl where al: "Allow (ev_now ev) (sendLimiter s) (wc_RemoteIP (wsHeap s a)) = (ok, rl)" by fastforce
  let ?s = "s\<lparr>sendLimiter := rl\<rparr>"
  have s: "server_ok ?s" using assms(1) by simp
  have e: "any_order (ev_order ev)" "delivers_all (ev_drv ev)" using assms(2) by (simp_all add: env_ok_def)
  obtain c where c: "sanitizeInputWithLimit (TrimSpace (wi_Message data)) (maxMsgLength ?s) = Some c"
    using server_sanitize [OF s] .
  have p: "\<exists>r t. SendPrivateWS ev n to c av ?s = Some (r, t) \<and> server_ok t" for n to av
    unfolding SendPrivateWS_def using sendPrivate_ok [OF s] by blast
  have g: "\<exists>r t. BroadCastToGroupWS ev g n c av ?s = Some (r, t) \<and> server_ok t" for g n av
    unfolding BroadCastToGroupWS_def using broadcastToGroup_ok [OF s e(2)] by blast
  have b: "\<exists>t. BroadCastFromWS ev n c av ?s = Some t \<and> server_ok t" for n av
    unfolding BroadCastFromWS_def using broadcastPublic_ok [OF s e(1)] by blast
  have rp: "\<exists>t. (case x of None \<Rightarrow> None | Some (Inl e, s1) \<Rightarrow> Some (writeWS ev a (ws_plain ''error'' e) s1)
      | Some (Inr _, s1) \<Rightarrow> Some (f s1)) = Some t \<and> server_ok t"
    if "\<exists>r t. x = Some (r, t) \<and> server_ok t" "\<And>t. server_ok t \<Longrightarrow> server_ok (f t)"
    for x :: "(unit res \<times> Server) option" and f
    using that by (auto split: sum.splits)
  show ?thesis
    unfolding handleWSMessage_def Let_def al
    using s c b rp [OF p] rp [OF g, of "\<lambda>t. t"] by simp
qed

lemma ws_frame_ok:
  assumes "server_ok s" "env_ok ev"
  shows "\<exists>s'. ws_frame ev a msg s = Some s' \<and> server_ok s'"
  using assms handleWSMessage_ok [OF assms] by (simp add: ws_frame_def split: option.splits)

lemma ws_end_ok: "server_ok s \<Longrightarrow> server_ok (ws_end a n s)"
  by (simp add: ws_end_def RemoveWSClient_ok)

lemma write_turn_fields:
  "wc_Name (write_turn stop wok c) = wc_Name c" "chan_ok (wc_C c) \<Longrightarrow> chan_ok (wc_C (write_turn stop wok c))"
  by (auto simp: write_turn_def chan_ok_def split: list.splits)

lemma ws_write_ok: "server_ok s \<Longrightarrow> server_ok (ws_write stop wok a s)"
  by (auto simp: ws_write_def server_ok_defs write_turn_fields)

text \<open>What a connection that was accepted has gone through.\<close>

lemma ws_connect_Connected:
  assumes "ws_connect ev ip first s = (Connected a u, s')"
  obtains tok s1 info where "first = Some (Some (''auth'', tok))" "GetUsernameByToken ev tok s = (Some u, s1)"
    "GetUserByUsername (ev_drv ev) (DB s1) u = Inr info" "a = wsNext s"
    "WSConns s' = AList.update u a (WSConns (RemoveWSClient u s1))"
    "wsHeap s' = (wsHeap (RemoveWSClient u s1))(a := \<lparr>wc_Name = u, wc_Avatar = up_Avatar info, wc_RemoteIP = ip,
       wc_C = make_chan 100, wc_done = False, wc_sent = [ws_plain ''auth_ok'' []], wc_writing = True\<rparr>)"
    "wsNext s' = wsNext s + 1"
proof -
  have r: "DB (RemoveWSClient u t) = DB t" "wsNext (RemoveWSClient u t) = wsNext t" for u t
    by (simp_all add: RemoveWSClient_def cancel_client_def split: option.splits)
  have g: "wsNext s1 = wsNext s" if "GetUsernameByToken ev tok s = (x, s1)" for tok x s1
    using that by (auto simp: GetUsernameByToken_def split: prod.splits)
  show thesis
    using assms that g unfolding ws_connect_def Let_def
    by (auto simp: AddWSClient_def r split: option.splits prod.splits if_splits sum.splits)
qed

lemma RemoveWSClient_look:
  "map_of (WSConns (RemoveWSClient n s)) k = (if k = n then None else map_of (WSConns s) k)"
  "map_of (WSConns s) n = Some a \<Longrightarrow> wc_done (wsHeap (RemoveWSClient n s) a)"
  by (auto simp: RemoveWSClient_def cancel_client_def gomap_simps split: option.splits)

text \<open>The server of the witnesses with a session for alice.\<close>

definition session_server :: Server where
  "session_server = demo_server\<lparr>Sessions :=
     \<lparr>ms_tokens = [(''t1'', \<lparr>se_Username = ''alice'', se_CreatedAt = 0, se_ExpiresAt = 3600\<rparr>)]\<rparr>\<rparr>"

lemma session_server_ok: "server_ok session_server"
  unfolding session_server_def
  by (rule server_ok_Sessions [OF demo_server_ok]) (simp add: sessions_ok_def map_ok_def)

lemma connect_alice:
  "wsNext s = n \<Longrightarrow> Sessions s = Sessions session_server \<Longrightarrow> DB s = DB session_server \<Longrightarrow>
   \<exists>s'. ws_connect (plain_env 9) ip (Some (Some (''auth'', ''t1''))) s = (Connected n ''alice'', s')
     \<and> wsNext s' = n + 1 \<and> Sessions s' = Sessions session_server \<and> DB s' = DB session_server"
  by (auto simp: ws_connect_def GetUsernameByToken_def GetUsername_def session_server_def IsExpired_def plain_env_def
      RemoveWSClient_def cancel_client_def AddWSClient_def GetUserByUsername_def demo_server_def chat_db_def demo_db_def Let_def
      split: option.splits)

section \<open>Properties\<close>

text \<open>
  C35. A WebSocket connection is accepted only with a valid session: if \<^verbatim>\<open>handleWebSocket\<close> accepts a
  connection for a name, its first message was an authentication whose token stood for that
  name, the name is an account, the new connection is the one under that name, and the
  previous one, if any, is cancelled.
\<close>

theorem ws_accepts_valid_session:
  assumes "ws_connect ev ip first s = (Connected a u, s')" "server_ok s"
  shows "(\<exists>tok. first = Some (Some (''auth'', tok)) \<and> session_user (ev_now ev) (Sessions s) tok = Some u)
    \<and> u \<in> du_Username ` set (db_users (DB s))
    \<and> map_of (WSConns s') u = Some a \<and> \<not> wc_done (wsHeap s' a)
    \<and> (\<forall>b. map_of (WSConns s) u = Some b \<longrightarrow> b \<noteq> a \<and> wc_done (wsHeap s' b))"
proof -
  obtain tok s1 info where *: "first = Some (Some (''auth'', tok))" "GetUsernameByToken ev tok s = (Some u, s1)"
    "GetUserByUsername (ev_drv ev) (DB s1) u = Inr info" "a = wsNext s"
    "WSConns s' = AList.update u a (WSConns (RemoveWSClient u s1))"
    "wsHeap s' = (wsHeap (RemoveWSClient u s1))(a := \<lparr>wc_Name = u, wc_Avatar = up_Avatar info, wc_RemoteIP = ip,
       wc_C = make_chan 100, wc_done = False, wc_sent = [ws_plain ''auth_ok'' []], wc_writing = True\<rparr>)"
    using ws_connect_Connected [OF assms(1)] by metis
  have s1: "DB s1 = DB s" "WSConns s1 = WSConns s" "wsHeap s1 = wsHeap s"
    "session_user (ev_now ev) (Sessions s) tok = Some u"
    using *(2) by (auto simp: GetUsernameByToken_def GetUsername_def session_user_def split: prod.splits option.splits if_splits)
  have "b < wsNext s" if "map_of (WSConns s) u = Some b" for b
    using assms(2) that by (auto simp: server_ok_def ws_ok_def)
  then have "b \<noteq> a \<and> wc_done (wsHeap s' b)" if "map_of (WSConns s) u = Some b" for b
    using that RemoveWSClient_look(2) [of s1 u b] by (auto simp: *(4,6) s1)
  then show ?thesis
    using * s1 account_exists [OF *(3)] by (auto simp: gomap_simps)
qed

theorem ws_accepts_valid_session_witness:
  "\<exists>s'. ws_connect (plain_env 9) ''10.0.0.3'' (Some (Some (''auth'', ''t1''))) session_server = (Connected 1 ''alice'', s')
     \<and> map_of (WSConns s') ''alice'' = Some 1 \<and> wc_done (wsHeap s' 0)"
proof -
  have w: "wsNext session_server = 1" "map_of (WSConns session_server) ''alice'' = Some 0"
    by (simp_all add: session_server_def demo_server_def)
  obtain s' where c: "ws_connect (plain_env 9) ''10.0.0.3'' (Some (Some (''auth'', ''t1''))) session_server = (Connected 1 ''alice'', s')"
    using connect_alice [OF w(1)] by blast
  from ws_accepts_valid_session [OF c session_server_ok] c w(2) show ?thesis by blast
qed

text \<open>
  C40. Reconnecting disconnects: when a user opens a second connection, the first one is cancelled, its
  read loop ends, and its deferred \<^verbatim>\<open>RemoveWSClient\<close> removes the entry of the user's name, which
  by then is the second connection: the user is left with no connection at all.
\<close>

theorem reconnect_disconnects:
  assumes "ws_connect ev ip first s = (Connected a u, s1)" "ws_connect ev' ip' first' s1 = (Connected b u, s2)"
  shows "map_of (WSConns (ws_end a u s2)) u = None \<and> wc_done (wsHeap (ws_end a u s2) a)
    \<and> wc_done (wsHeap (ws_end a u s2) b)"
proof -
  have "map_of (WSConns s2) u = Some b"
    by (rule ws_connect_Connected [OF assms(2)]) (simp add: gomap_simps)
  then have "map_of (WSConns (cancel_client a s2)) u = Some b" by (simp add: cancel_client_def)
  moreover have "wc_done (wsHeap (RemoveWSClient u t) a)" if "wc_done (wsHeap t a)" for t
    using that by (simp add: RemoveWSClient_def cancel_client_def split: option.splits)
  ultimately show ?thesis
    using RemoveWSClient_look(1) [of u "cancel_client a s2" u] RemoveWSClient_look(2) [of "cancel_client a s2" u b] by (simp add: ws_end_def cancel_client_def)
qed

theorem reconnect_disconnects_witness:
  "\<exists>s1 s2. ws_connect (plain_env 9) ''10.0.0.3'' (Some (Some (''auth'', ''t1''))) session_server = (Connected 1 ''alice'', s1)
     \<and> ws_connect (plain_env 9) ''10.0.0.3'' (Some (Some (''auth'', ''t1''))) s1 = (Connected 2 ''alice'', s2)
     \<and> map_of (WSConns (ws_end 1 ''alice'' s2)) ''alice'' = None"
proof -
  have w: "wsNext session_server = 1" by (simp add: session_server_def demo_server_def)
  obtain s1 where s1: "ws_connect (plain_env 9) ''10.0.0.3'' (Some (Some (''auth'', ''t1''))) session_server = (Connected 1 ''alice'', s1)"
    "wsNext s1 = 2" "Sessions s1 = Sessions session_server" "DB s1 = DB session_server"
    using connect_alice [OF w refl refl, of "''10.0.0.3''"] by auto
  obtain s2 where s2: "ws_connect (plain_env 9) ''10.0.0.3'' (Some (Some (''auth'', ''t1''))) s1 = (Connected 2 ''alice'', s2)"
    using connect_alice [OF s1(2-4)] by blast
  from reconnect_disconnects [OF s1(1) s2] s1(1) s2 show ?thesis by blast
qed

text \<open>
  A renamed WebSocket connection is never removed: after a rename the deferred \<^verbatim>\<open>RemoveWSClient\<close> looks
  for the old name, so when the connection ends its cancelled client stays in \<^verbatim>\<open>WSConns\<close> under
  the new name.
\<close>

theorem renamed_client_stays:
  assumes "RenameWSClient old new s = (Inr (), s1)" "map_of (WSConns s) old = Some a" "old \<noteq> new"
  shows "map_of (WSConns (ws_end a old s1)) new = Some a \<and> wc_done (wsHeap (ws_end a old s1) a)"
proof -
  have "map_of (WSConns s1) new = Some a" "map_of (WSConns s1) old = None"
    using assms by (auto simp: RenameWSClient_def gomap_simps split: if_splits option.splits)
  then show ?thesis by (simp add: ws_end_def RemoveWSClient_def cancel_client_def)
qed

theorem renamed_client_stays_witness:
  "map_of (WSConns (ws_end 0 ''alice'' (snd (RenameWSClient ''alice'' ''zoe'' demo_server)))) ''zoe'' = Some 0"
  using renamed_client_stays [of "''alice''" "''zoe''" demo_server "snd (RenameWSClient ''alice'' ''zoe'' demo_server)" 0]
  by (simp add: RenameWSClient_def demo_server_def)

end
