(* ===== verification/Bus.thy ===== *)
theory Bus
  imports Web_Socket
begin

text \<open>
  Messages between servers: \<^verbatim>\<open>startBusReceiver\<close> and \<^verbatim>\<open>deliverBusMessage\<close> of
  \<^verbatim>\<open>internal/server/server.go\<close>, with \<^verbatim>\<open>Publish\<close> of \<^verbatim>\<open>internal/server/redis_bus.go\<close> (in the theory of
  the server state).  What is received here is a decoded message or an error; the theory \<open>Wire\<close> has
  \<^verbatim>\<open>Receive\<close>, and \<open>Cluster\<close> connects several servers.
\<close>

section \<open>Definitions\<close>

definition bus_ws :: "string \<Rightarrow> BusMessage \<Rightarrow> wsOutgoing" where
  "bus_ws mode msg =
     (if mode = ''public'' then ws_message ''public'' (bm_From msg) [] [] (bm_Avatar msg) (bm_Content msg) (bm_Time msg)
      else if mode = ''private'' then
        ws_message ''private'' (bm_From msg) (bm_To msg) [] (bm_Avatar msg) (bm_Content msg) (bm_Time msg)
      else ws_message ''group'' (bm_From msg) [] (bm_To msg) (bm_Avatar msg) (bm_Content msg) (bm_Time msg))"

definition deliverBusMessage :: "env \<Rightarrow> BusMessage \<Rightarrow> Server \<Rightarrow> Server option" where
  "deliverBusMessage ev msg s =
     (if bm_Type msg = ''public'' then
        map_option (writeAllWS ev (bus_ws ''public'' msg)) (fanoutTCP ev (bm_Content msg) s)
      else if bm_Type msg = ''private'' then
        (let s1 = (case map_of (WSConns s) (bm_To msg) of
                     None \<Rightarrow> s
                   | Some a \<Rightarrow> writeWS ev a (bus_ws ''private'' msg) s)
         in Some (case map_of (OnlineMap s1) (bm_To msg) of
                    None \<Rightarrow> s1
                  | Some a \<Rightarrow> SendMsg a (''[priv] '' @ bm_From msg @ '': '' @ bm_Content msg @ [CHR 0x0A]) s1))
      else if bm_Type msg = ''group'' then
        (let textMsg = ''[group '' @ bm_To msg @ ''] '' @ bm_From msg @ '': '' @ bm_Content msg @ [CHR 0x0A];
             s1 = writeAllWS ev (bus_ws ''group'' msg) s
         in Some (fold (\<lambda>(_, a). SendMsg a textMsg) (ev_order ev (OnlineMap s1)) s1))
      else if bm_Type msg = ''system'' then Some (writeAllWS ev (ws_plain ''system'' (bm_Content msg)) s)
      else Some s)"

text \<open>
  One turn of the receive loop: an error is skipped, and so is a message of this server.
\<close>

definition startBusReceiver :: "env \<Rightarrow> BusMessage res \<Rightarrow> Server \<Rightarrow> Server option" where
  "startBusReceiver ev r s =
     (case r of
        Inl _ \<Rightarrow> Some s
      | Inr msg \<Rightarrow> if bm_OriginID msg = serverID s then Some s else deliverBusMessage ev msg s)"

section \<open>Lemmas\<close>

lemma deliverBusMessage_ok:
  assumes "server_ok s" "any_order (ev_order ev)"
  shows "\<exists>s'. deliverBusMessage ev msg s = Some s' \<and> only_queues s s'"
proof -
  obtain t where "fanoutTCP ev (bm_Content msg) s = Some t" "only_queues s t"
    using only_queues_fanout [OF server_okD(1) [OF assms(1)] assms(2)] .
  moreover have "only_queues s (fold (\<lambda>(_, a). SendMsg a m) es (writeAllWS ev w s))" for m es w
    by (rule only_queues_trans [OF only_queues_writeAllWS only_queues_fold]) (simp split: prod.splits)
  moreover have "only_queues s (SendMsg a m (writeWS ev b w s))" for a b m w
    by (rule only_queues_trans [OF only_queues_writeWS only_queues_SendMsg])
  ultimately show ?thesis
    using only_queues_trans [OF _ only_queues_writeAllWS]
    by (auto simp: deliverBusMessage_def Let_def split: option.splits)
qed

lemma startBusReceiver_ok:
  assumes "server_ok s" "any_order (ev_order ev)"
  shows "\<exists>s'. startBusReceiver ev r s = Some s' \<and> server_ok s'"
  using deliverBusMessage_ok [OF assms] only_queues_ok [OF _ assms(1)] assms(1)
  by (fastforce simp: startBusReceiver_def split: sum.splits)

text \<open>What \<^verbatim>\<open>broadcastPublic\<close> hands to the bus.\<close>

definition public_bus :: "env \<Rightarrow> string \<Rightarrow> string \<Rightarrow> string \<Rightarrow> bool \<Rightarrow> string \<Rightarrow> BusMessage" where
  "public_bus ev name msg avatar sys origin =
     (if sys then \<lparr>bm_OriginID = origin, bm_Type = ''system'', bm_From = name, bm_To = [], bm_Avatar = [],
           bm_Content = name @ '' '' @ msg, bm_Time = []\<rparr>
      else \<lparr>bm_OriginID = origin, bm_Type = ''public'', bm_From = name, bm_To = [], bm_Avatar = avatar,
           bm_Content = msg, bm_Time = nowLabelWS ev\<rparr>)"

lemma broadcastPublic_bus:
  assumes "server_ok s" "any_order (ev_order ev)" "bus s = Some sent"
    "sanitizeInputWithLimit msg0 (maxMsgLength s) = Some msg" "broadcastPublic ev name msg0 avatar sys s = Some s'"
  shows "bus s' = Some (sent @ [public_bus ev name msg avatar sys (serverID s)])"
proof -
  let ?t = "saved_public ev name msg s"
  have t: "bus ?t = bus s" "serverID ?t = serverID s"
    by (simp_all add: saved_public_def save_best_effort_def split: sum.splits)
  obtain r where r: "fanoutTCP ev (name @ '': '' @ msg) ?t = Some r" "only_queues ?t r"
    using only_queues_fanout [OF server_okD(1) [OF saved_public_ok [OF assms(1)]] assms(2)] .
  have q: "bus (writeAllWS ev w r) = bus s" "serverID (writeAllWS ev w r) = serverID s" for w
    using only_queues_fields [OF only_queues_trans [OF r(2) only_queues_writeAllWS]] t by simp_all
  have pub: "bus (Publish m (writeAllWS ev w r)) = Some (sent @ [m\<lparr>bm_OriginID := serverID s\<rparr>])" for m w
    using assms(3) q by (simp add: Publish_def)
  show ?thesis
    using assms(4,5) r(1) unfolding broadcastPublic_def saved_public_def [symmetric]
    by (auto simp: Let_def pub public_bus_def)
qed

section \<open>Properties\<close>

text \<open>
  Public messages cross servers and do not echo: a public (or presence) message on one server is
  published once; the publishing server ignores its own message, and another server queues
  for each of its WebSocket clients the same event that the first server queued for its own.
\<close>

theorem public_message_crosses_servers:
  assumes "server_ok s" "any_order (ev_order ev)" "bus s = Some sent"
    "broadcastPublic ev name msg0 avatar sys s = Some s'"
    "server_ok r" "any_order (ev_order ev')" "serverID r \<noteq> serverID s"
  shows "\<exists>m msg. bus s' = Some (sent @ [m]) \<and> startBusReceiver ev' (Inr m) s' = Some s'
    \<and> sanitizeInputWithLimit msg0 (maxMsgLength s) = Some msg
    \<and> (\<exists>r'. startBusReceiver ev' (Inr m) r = Some r'
        \<and> (\<forall>a. wsHeap r' a = (if \<exists>k. map_of (WSConns r) k = Some a
              then ws_send (ev_skip ev' a) (public_out ev name msg avatar sys) (wsHeap r a) else wsHeap r a)))"
proof -
  obtain msg where msg: "sanitizeInputWithLimit msg0 (maxMsgLength s) = Some msg"
    using server_sanitize [OF assms(1)] .
  let ?m = "public_bus ev name msg avatar sys (serverID s)"
  have b: "bus s' = Some (sent @ [?m])" using broadcastPublic_bus [OF assms(1-3) msg assms(4)] .
  have "serverID s' = serverID s"
  proof -
    have "serverID (Publish x t) = serverID t" "serverID (public_sent ev name msg avatar sys t) = serverID t"
      "serverID (saved_public ev name msg t) = serverID t" for x t
      by (simp_all add: Publish_def public_sent_def saved_public_def save_best_effort_def split: option.splits sum.splits)
    then show ?thesis using broadcastPublic_eq [OF assms(1,2) msg, of name avatar sys] assms(4) by auto
  qed
  then have own: "startBusReceiver ev' (Inr ?m) s' = Some s'"
    by (simp add: startBusReceiver_def public_bus_def)
  let ?h = "\<lambda>a. if a \<in> snd ` set (OnlineMap r) then put_line a (bm_Content ?m) (userHeap r a) else userHeap r a"
  have ws: "ws_ok (r\<lparr>userHeap := ?h\<rparr>)" "ws_ok r" using server_okD(2) [OF assms(5)] by (simp_all add: ws_ok_def)
  have "startBusReceiver ev' (Inr ?m) r = Some (if sys then writeAllWS ev' (public_out ev name msg avatar sys) r
      else writeAllWS ev' (public_out ev name msg avatar sys) (r\<lparr>userHeap := ?h\<rparr>))"
    using assms(7) fanoutTCP_ok [OF server_okD(1) [OF assms(5)] assms(6), of "bm_Content ?m"]
    by (auto simp: startBusReceiver_def deliverBusMessage_def public_bus_def public_out_def bus_ws_def)
  then show ?thesis
    using b own msg writeAllWS_ok [OF ws(1) assms(6)] writeAllWS_ok [OF ws(2) assms(6)] ws_addr [OF ws(2)]
    by (intro exI [of _ ?m] exI [of _ msg]) (auto cong: if_cong)
qed

theorem public_message_crosses_servers_witness:
  "\<exists>m s' r'. broadcastPublic (plain_env 9) ''bob'' ''hi'' [] False (demo_server\<lparr>bus := Some []\<rparr>) = Some s'
     \<and> bus s' = Some [m] \<and> startBusReceiver (plain_env 9) (Inr m) (demo_server\<lparr>serverID := ''s2''\<rparr>) = Some r'
     \<and> (\<exists>msg. wsHeap r' 0 = ws_send False (public_out (plain_env 9) ''bob'' msg [] False) (wsHeap demo_server 0))"
proof -
  let ?s = "demo_server\<lparr>bus := Some []\<rparr>" and ?r = "demo_server\<lparr>serverID := ''s2''\<rparr>"
  have ok: "server_ok ?s" "server_ok ?r" using demo_server_ok by (simp_all add: server_ok_defs)
  obtain s' where s': "broadcastPublic (plain_env 9) ''bob'' ''hi'' [] False ?s = Some s'"
    using broadcastPublic_ok [OF ok(1) plain_env_ok(1)] by blast
  have w: "\<exists>k. map_of (WSConns ?r) k = Some 0" by (rule exI [of _ "''alice''"]) (simp add: demo_server_def)
  have "serverID ?r \<noteq> serverID ?s" by (simp add: demo_server_def)
  from public_message_crosses_servers [OF ok(1) plain_env_ok(1) _ s' ok(2) plain_env_ok(1) [of 9] this, of "[]"] w
  show ?thesis using s' by (force simp: plain_env_def)
qed

text \<open>
  Private and group messages stay on one server: \<^verbatim>\<open>sendPrivate\<close> and \<^verbatim>\<open>broadcastToGroup\<close> publish nothing,
  so a receiver that is connected to another server does not get the message.
\<close>

theorem private_and_group_not_published:
  assumes "server_ok s" "delivers_all (ev_drv ev)"
  shows "(\<exists>r s'. sendPrivate ev from to c av s = Some (r, s') \<and> bus s' = bus s)
    \<and> (\<exists>r s'. broadcastToGroup ev g from c av s = Some (r, s') \<and> bus s' = bus s)"
proof -
  have "\<exists>r s'. sendPrivate ev from to c av s = Some (r, s') \<and> bus s' = bus s"
    by (cases rule: sendPrivate_cases [OF assms(1), of ev "from" to c av])
      (auto simp: private_sent_def save_best_effort_def)
  moreover have "\<exists>r s'. broadcastToGroup ev g from c av s = Some (r, s') \<and> bus s' = bus s"
    by (cases rule: broadcastToGroup_cases [OF assms, of g "from" c av])
      (auto simp: group_sent_def save_best_effort_def)
  ultimately show ?thesis by blast
qed

theorem private_and_group_not_published_witness:
  "\<exists>r s'. sendPrivate (plain_env 9) ''alice'' ''bob'' ''hi'' [] (demo_server\<lparr>bus := Some []\<rparr>) = Some (r, s') \<and> bus s' = Some []"
  using private_and_group_not_published [of "demo_server\<lparr>bus := Some []\<rparr>" "plain_env 9" "''alice''" "''bob''" "''hi''" "[]"]
    demo_server_ok by simp

end

