(* ===== verification/Lchat_Assets.thy ===== *)
theory Lchat_Assets
  imports Lchat_Texts
begin

text \<open>
  The sticker packs of \<^verbatim>\<open>internal/server/lchat_assets.go\<close>: the data that \<^verbatim>\<open>/api/lchat/meta\<close> and
  \<^verbatim>\<open>/api/stickers\<close> answer with.
\<close>

record stickerItem =
  si_ID :: string
  si_Label :: string
  si_URL :: string
  si_Tone :: string

record stickerPack =
  sp_ID :: string
  sp_Name :: string
  sp_Description :: string
  sp_Items :: "stickerItem list"

definition lchatStickerPacks :: "stickerPack list" where
  "lchatStickerPacks =
     [\<lparr>sp_ID = ''luminous-daily'', sp_Name = txt_pack_name, sp_Description = txt_pack_desc, sp_Items =
       [\<lparr>si_ID = ''moon-note'', si_Label = txt_moon_note, si_URL = ''/assets/stickers/moon-note.svg'', si_Tone = ''calm''\<rparr>,
        \<lparr>si_ID = ''ribbon-heart'', si_Label = txt_ribbon_heart, si_URL = ''/assets/stickers/ribbon-heart.svg'', si_Tone = ''warm''\<rparr>,
        \<lparr>si_ID = ''tea-break'', si_Label = txt_tea_break, si_URL = ''/assets/stickers/tea-break.svg'', si_Tone = ''soft''\<rparr>,
        \<lparr>si_ID = ''stellar-letter'', si_Label = txt_stellar_letter, si_URL = ''/assets/stickers/stellar-letter.svg'', si_Tone = ''bright''\<rparr>,
        \<lparr>si_ID = ''spark-call'', si_Label = txt_spark_call, si_URL = ''/assets/stickers/spark-call.svg'', si_Tone = ''active''\<rparr>,
        \<lparr>si_ID = ''lucky-ticket'', si_Label = txt_lucky_ticket, si_URL = ''/assets/stickers/lucky-ticket.svg'', si_Tone = ''playful''\<rparr>,
        \<lparr>si_ID = ''rain-window'', si_Label = txt_rain_window, si_URL = ''/assets/stickers/rain-window.svg'', si_Tone = ''quiet''\<rparr>,
        \<lparr>si_ID = ''neon-badge'', si_Label = txt_neon_badge, si_URL = ''/assets/stickers/neon-badge.svg'', si_Tone = ''celebrate''\<rparr>,
        \<lparr>si_ID = ''soft-check'', si_Label = txt_soft_check, si_URL = ''/assets/stickers/soft-check.svg'', si_Tone = ''confirm''\<rparr>]\<rparr>]"

text \<open>Stickers are identified by their id, and the image of a sticker is the file of that name.\<close>

lemma stickers_identified:
  assumes "p \<in> set lchatStickerPacks"
  shows "distinct (map si_ID (sp_Items p))"
    and "i \<in> set (sp_Items p) \<Longrightarrow> si_URL i = ''/assets/stickers/'' @ si_ID i @ ''.svg''"
  using assms by (auto simp: lchatStickerPacks_def)

end
