(* ===== verification/Listen.thy ===== *)
theory Listen
  imports Go_Prelude
begin

text \<open>
  Opening a listening socket, \<^verbatim>\<open>listenWithFallback\<close> and \<^verbatim>\<open>isAddrInUseErr\<close> of \<^verbatim>\<open>internal/server/web.go\<close> and
  the parts of \<^verbatim>\<open>Start\<close> (\<^verbatim>\<open>internal/server/server.go\<close>) and \<^verbatim>\<open>StartWeb\<close> that listen and store the port or
  the address, with the address functions of the Go library they use, and the certificate for TLS.  The operating system is the argument \<open>listen\<close>: for an
  address, the error text or the listener.
\<close>

section \<open>Addresses\<close>

text \<open>\<^verbatim>\<open>net.SplitHostPort\<close>.\<close>

definition SplitHostPort :: "string \<Rightarrow> (string \<times> string) option" where
  "SplitHostPort hp =
     (if CHR '':'' \<notin> set hp then None
      else
        (let port = rev (takeWhile (\<lambda>c. c \<noteq> CHR '':'') (rev hp));
             front = take (length hp - length port - 1) hp
         in if HasPrefix hp ''['' then
              (if front = [] \<or> last front \<noteq> CHR '']'' \<or> CHR '']'' \<in> set (butlast front)
                  \<or> CHR ''['' \<in> set (drop 1 hp) \<or> CHR '']'' \<in> set port then None
               else Some (drop 1 (butlast front), port))
            else if CHR '':'' \<in> set front \<or> CHR ''['' \<in> set hp \<or> CHR '']'' \<in> set hp then None
            else Some (front, port)))"

text \<open>\<^verbatim>\<open>net.JoinHostPort\<close>.\<close>

definition JoinHostPort :: "string \<Rightarrow> string \<Rightarrow> string" where
  "JoinHostPort host port =
     (if CHR '':'' \<in> set host \<or> CHR ''%'' \<in> set host then ''['' @ host @ '']:'' @ port else host @ '':'' @ port)"

text \<open>
  \<^verbatim>\<open>fmt.Sscanf(s, "%d", &n)\<close> into a variable that is 0: spaces, a sign and the digits that
  follow; 0 if there are none or the number does not fit.
\<close>

definition Sscanf_d :: "string \<Rightarrow> int" where
  "Sscanf_d s =
     (let t = trim_left (filter (\<lambda>e. e \<noteq> [CHR 0x0A]) ws_encs) s;
          sign = (if HasPrefix t ''-'' \<or> HasPrefix t ''+'' then take 1 t else []);
          ds = takeWhile is_digit (drop (length sign) t)
      in case Atoi (sign @ ds) of None \<Rightarrow> 0 | Some n \<Rightarrow> n)"

section \<open>Listening\<close>

datatype listen_error = BadAddress | ListenFailed string | AllInUse int string

definition isAddrInUseErr :: "string \<Rightarrow> bool" where
  "isAddrInUseErr err =
     (let msg = ToLower err in Contains msg ''address already in use'' \<or> Contains msg ''only one usage'')"

text \<open>
  The loop over the ports from \<open>port + i\<close> on, with \<open>n\<close> attempts left.
\<close>

fun try_ports :: "(string \<Rightarrow> string + 'l) \<Rightarrow> string \<Rightarrow> int \<Rightarrow> nat \<Rightarrow> nat \<Rightarrow> string \<Rightarrow> int \<Rightarrow>
    listen_error + 'l \<times> string" where
  "try_ports listen host port i 0 lastErr maxAttempts = Inl (AllInUse maxAttempts lastErr)"
| "try_ports listen host port i (Suc n) lastErr maxAttempts =
     (let tryAddr = JoinHostPort host (Itoa (port + int i))
      in case listen tryAddr of
           Inr ln \<Rightarrow> Inr (ln, tryAddr)
         | Inl listenErr \<Rightarrow>
             if \<not> isAddrInUseErr listenErr then Inl (ListenFailed listenErr)
             else try_ports listen host port (Suc i) n listenErr maxAttempts)"

definition listenWithFallback :: "(string \<Rightarrow> string + 'l) \<Rightarrow> string \<Rightarrow> int \<Rightarrow> listen_error + 'l \<times> string" where
  "listenWithFallback listen addr maxAttempts0 =
     (let maxAttempts = (if maxAttempts0 < 1 then 1 else maxAttempts0)
      in case SplitHostPort addr of
           None \<Rightarrow> Inl BadAddress
         | Some (host, portStr) \<Rightarrow>
             (let port = Sscanf_d portStr
              in if port \<le> 0 then
                   (case listen addr of Inl e \<Rightarrow> Inl (ListenFailed e) | Inr ln \<Rightarrow> Inr (ln, addr))
                 else try_ports listen host port 0 (nat maxAttempts) [] maxAttempts))"

text \<open>What \<^verbatim>\<open>Start\<close> makes of \<^verbatim>\<open>s.Port\<close> once it listens without TLS.\<close>

definition start_port :: "(string \<Rightarrow> string + 'l) \<Rightarrow> string \<Rightarrow> int \<Rightarrow> listen_error + 'l \<times> int" where
  "start_port listen ip port =
     (case listenWithFallback listen (ip @ '':'' @ Itoa port) 20 of
        Inl e \<Rightarrow> Inl e
      | Inr (ln, addr) \<Rightarrow>
          (case SplitHostPort addr of
             None \<Rightarrow> Inr (ln, port)
           | Some (_, p) \<Rightarrow>
               (let parsedPort = Sscanf_d p in Inr (ln, if parsedPort > 0 then parsedPort else port))))"

text \<open>
  The listener of \<^verbatim>\<open>Start\<close> and the port it keeps: with TLS one attempt at its own address,
  otherwise the search for a free port.
\<close>

definition start_listener ::
  "bool \<Rightarrow> (string \<Rightarrow> string + 'l) \<Rightarrow> (string \<Rightarrow> string + 'l) \<Rightarrow> string \<Rightarrow> int \<Rightarrow> listen_error + 'l \<times> int" where
  "start_listener tls tlsListen listen ip port =
     (if tls then
        (case tlsListen (ip @ '':'' @ Itoa port) of Inl e \<Rightarrow> Inl (ListenFailed e) | Inr ln \<Rightarrow> Inr (ln, port))
      else start_port listen ip port)"

text \<open>The listener of \<^verbatim>\<open>StartWeb\<close> and the address it keeps as \<^verbatim>\<open>s.webAddr\<close>.\<close>

definition web_listener :: "(string \<Rightarrow> string + 'l) \<Rightarrow> string \<Rightarrow> listen_error + 'l \<times> string" where
  "web_listener listen addr = listenWithFallback listen addr 20"

section \<open>The certificate\<close>

text \<open>
  \<^verbatim>\<open>generateSelfSignedCert\<close>: a new key and a certificate for it that it signs itself.  Key generation
  and signing are arguments; times are in seconds.
\<close>

record cert_template =
  ct_SerialNumber :: int
  ct_CommonName :: string
  ct_Organization :: "string list"
  ct_NotBefore :: int
  ct_NotAfter :: int
  ct_KeyUsage :: "string list"
  ct_ExtKeyUsage :: "string list"
  ct_BasicConstraintsValid :: bool
  ct_DNSNames :: "string list"

definition dev_template :: "int \<Rightarrow> cert_template" where
  "dev_template now =
     \<lparr>ct_SerialNumber = 1, ct_CommonName = ''localhost'', ct_Organization = [''IM-system Dev''],
      ct_NotBefore = now - 60 * 60, ct_NotAfter = now + 365 * 24 * 60 * 60,
      ct_KeyUsage = [''KeyEncipherment'', ''DigitalSignature''], ct_ExtKeyUsage = [''ServerAuth''],
      ct_BasicConstraintsValid = True, ct_DNSNames = [''localhost'', ''127.0.0.1'']\<rparr>"

definition generateSelfSignedCert ::
  "string + 'k \<Rightarrow> (cert_template \<Rightarrow> cert_template \<Rightarrow> 'k \<Rightarrow> string + string) \<Rightarrow> int \<Rightarrow> string + string list \<times> 'k" where
  "generateSelfSignedCert GenerateKey CreateCertificate now =
     (case GenerateKey of
        Inl err \<Rightarrow> Inl (''failed to generate key: '' @ err)
      | Inr key \<Rightarrow>
          (let template = dev_template now
           in case CreateCertificate template template key of
                Inl err \<Rightarrow> Inl (''failed to create certificate: '' @ err)
              | Inr certDER \<Rightarrow> Inr ([certDER], key)))"

text \<open>The certificate is signed for its own template, with the key it comes with, and valid now.\<close>

lemma self_signed_cert:
  assumes "generateSelfSignedCert GenerateKey CreateCertificate now = Inr (chain, key)"
  shows "GenerateKey = Inr key \<and> (\<exists>t der. CreateCertificate t t key = Inr der \<and> chain = [der]
    \<and> ct_NotBefore t < now \<and> now < ct_NotAfter t \<and> ''localhost'' \<in> set (ct_DNSNames t))"
proof -
  obtain der where "GenerateKey = Inr key" "CreateCertificate (dev_template now) (dev_template now) key = Inr der" "chain = [der]"
    using assms by (auto simp: generateSelfSignedCert_def Let_def split: sum.splits)
  moreover have "ct_NotBefore (dev_template now) < now" "now < ct_NotAfter (dev_template now)"
    "''localhost'' \<in> set (ct_DNSNames (dev_template now))" by (simp_all add: dev_template_def)
  ultimately show ?thesis by blast
qed

section \<open>Numbers\<close>

lemma digit_chars: "n < 10 \<Longrightarrow> is_digit (char_of (48 + n))" "n < 10 \<Longrightarrow> int (of_char (char_of (48 + n) :: char)) = 48 + int n" for n :: nat
  by (simp_all add: is_digit_def)

lemma nat_digits_digits: "list_all is_digit (nat_digits n)" "nat_digits n \<noteq> []"
proof -
  show "nat_digits n \<noteq> []" by (subst nat_digits.simps) simp
  show "list_all is_digit (nat_digits n)"
    by (induction n rule: nat_digits.induct) (subst nat_digits.simps, simp add: digit_chars)
qed

lemma digits_val_nat: "digits_val (nat_digits n) = int n"
proof (induction n rule: nat_digits.induct)
  case (1 n)
  moreover have "int (n div 10) * 10 + int (n mod 10) = int n" by presburger
  ultimately show ?case
    by (subst nat_digits.simps) (simp add: digits_val_def digit_chars)
qed

lemma nat_digits_no_sign: "\<not> HasPrefix (nat_digits n) ''-''" "\<not> HasPrefix (nat_digits n) ''+''"
  using nat_digits_digits [of n] by (cases "nat_digits n"; auto simp: is_digit_def)+

lemma Atoi_Itoa: "0 \<le> n \<Longrightarrow> n < 2 ^ 63 \<Longrightarrow> Atoi (Itoa n) = Some n"
  using nat_digits_digits [of "nat n"] nat_digits_no_sign [of "nat n"] digits_val_nat [of "nat n"]
  by (simp add: Atoi_def Itoa_def Let_def)

lemma drop_enc_digit: "is_digit c \<Longrightarrow> drop_enc (filter P ws_encs) (c # s) = None"
proof -
  assume "is_digit c"
  then have "\<forall>e \<in> set ws_encs. \<not> HasPrefix (c # s) e" by (auto simp: ws_encs_def is_digit_def)
  then show ?thesis by (auto simp: drop_enc_def find_None_iff split: option.split)
qed

lemma Sscanf_Itoa: "0 \<le> n \<Longrightarrow> n < 2 ^ 63 \<Longrightarrow> Sscanf_d (Itoa n) = n"
proof -
  assume n: "0 \<le> n" "n < 2 ^ 63"
  let ?d = "nat_digits (nat n)"
  obtain c r where d: "?d = c # r" using nat_digits_digits(2) [of "nat n"] by (cases ?d) auto
  have dig: "list_all is_digit ?d" using nat_digits_digits(1) .
  then have "trim_left (filter (\<lambda>e. e \<noteq> [CHR 0x0A]) ws_encs) ?d = ?d"
    unfolding d by (subst trim_left.simps) (simp add: drop_enc_digit)
  moreover have digits: "takeWhile is_digit ?d = ?d" using dig by (simp add: takeWhile_eq_all_conv list_all_iff)
  moreover have "Itoa n = ?d" using n(1) by (simp add: Itoa_def)
  ultimately show ?thesis
    using Atoi_Itoa [OF n] nat_digits_no_sign [of "nat n"] by (simp add: Sscanf_d_def Let_def digits)
qed

lemma Itoa_plain: "0 \<le> n \<Longrightarrow> c \<in> set (Itoa n) \<Longrightarrow> is_digit c"
  using nat_digits_digits(1) [of "nat n"] by (auto simp: Itoa_def list_all_iff)

section \<open>Printing and parsing an address\<close>

lemma last_part:
  assumes "c \<notin> set p"
  shows "rev (takeWhile (\<lambda>x. x \<noteq> c) (rev (h @ c # p))) = p"
proof -
  have "takeWhile (\<lambda>x. x \<noteq> c) (rev p @ c # rev h) = rev p"
    using assms by (subst takeWhile_append2) auto
  then show ?thesis by simp
qed

lemma Split_Join:
  assumes "CHR ''['' \<notin> set h" "CHR '']'' \<notin> set h" "\<forall>c \<in> set p. is_digit c"
  shows "SplitHostPort (JoinHostPort h p) = Some (h, p)"
proof -
  have p: "CHR '':'' \<notin> set p" "CHR ''['' \<notin> set p" "CHR '']'' \<notin> set p" using assms(3) by (auto simp: is_digit_def)
  show ?thesis
  proof (cases "CHR '':'' \<in> set h \<or> CHR ''%'' \<in> set h")
    case True
    have port: "rev (takeWhile (\<lambda>c. c \<noteq> CHR '':'') (rev ((''['' @ h @ '']'') @ CHR '':'' # p))) = p"
      using last_part [OF p(1)] .
    show ?thesis
      using True assms p port by (simp add: SplitHostPort_def JoinHostPort_def Let_def butlast_append)
  next
    case False
    have port: "rev (takeWhile (\<lambda>c. c \<noteq> CHR '':'') (rev (h @ CHR '':'' # p))) = p" using last_part [OF p(1)] .
    have "\<not> HasPrefix (h @ CHR '':'' # p) ''[''" using assms(1) by (cases h) auto
    then show ?thesis
      using False assms p port by (simp add: SplitHostPort_def JoinHostPort_def Let_def)
  qed
qed

section \<open>The search for a free port\<close>

text \<open>The address of the \<open>i\<close>-th attempt, and whether the attempt finds the port taken.\<close>

definition attempt_addr :: "string \<Rightarrow> int \<Rightarrow> nat \<Rightarrow> string" where
  "attempt_addr host port i = JoinHostPort host (Itoa (port + int i))"

definition port_taken :: "(string \<Rightarrow> string + 'l) \<Rightarrow> string \<Rightarrow> int \<Rightarrow> nat \<Rightarrow> bool" where
  "port_taken listen host port i =
     (case listen (attempt_addr host port i) of Inl e \<Rightarrow> isAddrInUseErr e | Inr _ \<Rightarrow> False)"

lemma try_ports_taken:
  "\<forall>j < k. port_taken listen host port (i + j) \<Longrightarrow> k \<le> n \<Longrightarrow>
   \<exists>e. try_ports listen host port i n le m = try_ports listen host port (i + k) (n - k) e m"
proof (induction k arbitrary: i n le)
  case 0
  then show ?case by auto
next
  case (Suc k)
  obtain n' where n: "n = Suc n'" using Suc.prems(2) by (cases n) auto
  have "port_taken listen host port i" using Suc.prems(1) by (metis add_0_right zero_less_Suc)
  then obtain e where e: "listen (JoinHostPort host (Itoa (port + int i))) = Inl e" "isAddrInUseErr e"
    by (auto simp: port_taken_def attempt_addr_def split: sum.splits)
  have "\<forall>j < k. port_taken listen host port (Suc i + j)" using Suc.prems(1) by (metis Suc_less_eq add_Suc_right add_Suc_shift)
  from Suc.IH [OF this, of n' e] Suc.prems(2) show ?case by (simp add: n e)
qed

lemma try_ports_free:
  assumes "\<forall>j < k. port_taken listen host port j" "k < n" "\<not> port_taken listen host port k"
  shows "try_ports listen host port 0 n le m =
    (case listen (attempt_addr host port k) of Inl e \<Rightarrow> Inl (ListenFailed e) | Inr ln \<Rightarrow> Inr (ln, attempt_addr host port k))"
proof -
  obtain e where "try_ports listen host port 0 n le m = try_ports listen host port k (n - k) e m"
    using try_ports_taken [of k listen host port 0 n le m] assms(1,2) by auto
  moreover obtain r where "n - k = Suc r" using assms(2) by (metis Suc_diff_Suc)
  ultimately show ?thesis
    using assms(3) by (auto simp: port_taken_def attempt_addr_def Let_def split: sum.split)
qed

lemma first_free_port:
  assumes "CHR ''['' \<notin> set host" "CHR '']'' \<notin> set host" "0 < port" "port < 2 ^ 63" "0 < n"
  shows "listenWithFallback listen (JoinHostPort host (Itoa port)) (int n) =
    (if \<forall>i < n. port_taken listen host port i
     then Inl (AllInUse (int n) (case listen (attempt_addr host port (n - 1)) of Inl e \<Rightarrow> e | Inr _ \<Rightarrow> []))
     else (let k = LEAST i. \<not> port_taken listen host port i
           in case listen (attempt_addr host port k) of
                Inl e \<Rightarrow> Inl (ListenFailed e)
              | Inr ln \<Rightarrow> Inr (ln, attempt_addr host port k)))"
proof -
  have "SplitHostPort (JoinHostPort host (Itoa port)) = Some (host, Itoa port)"
    using Split_Join [OF assms(1,2)] Itoa_plain [of port] assms(3) by simp
  then have l: "listenWithFallback listen (JoinHostPort host (Itoa port)) (int n) = try_ports listen host port 0 n [] (int n)"
    using Sscanf_Itoa [of port] assms(3-5) by (simp add: listenWithFallback_def Let_def)
  show ?thesis
  proof (cases "\<forall>i < n. port_taken listen host port i")
    case True
    obtain r where r: "n = Suc r" using assms(5) by (cases n) auto
    obtain e where "try_ports listen host port 0 n [] (int n) = try_ports listen host port r (n - r) e (int n)"
      using try_ports_taken [of r listen host port 0 n "[]" "int n"] True r by auto
    moreover have "port_taken listen host port r" using True r by simp
    ultimately show ?thesis
      using True l by (auto simp: r port_taken_def attempt_addr_def split: sum.splits)
  next
    case False
    obtain k where k: "k = (LEAST i. \<not> port_taken listen host port i)" by simp
    obtain i where i: "i < n" "\<not> port_taken listen host port i" using False by blast
    have "\<not> port_taken listen host port k" "k \<le> i" unfolding k using i(2) by (rule LeastI, rule Least_le)
    moreover have "\<forall>j < k. port_taken listen host port j" unfolding k using not_less_Least by blast
    ultimately have "try_ports listen host port 0 n [] (int n) = (case listen (attempt_addr host port k) of
        Inl e \<Rightarrow> Inl (ListenFailed e) | Inr ln \<Rightarrow> Inr (ln, attempt_addr host port k))"
      using try_ports_free [of k listen host port n "[]" "int n"] i(1) by simp
    then show ?thesis unfolding l Let_def k [symmetric] if_not_P [OF False] .
  qed
qed

text \<open>
  For port 0 the system chooses a port, but the address that is kept is the one that was asked for.
\<close>

lemma port_zero_kept:
  assumes "CHR ''['' \<notin> set host" "CHR '']'' \<notin> set host"
  shows "web_listener listen (JoinHostPort host ''0'') =
    (case listen (JoinHostPort host ''0'') of Inl e \<Rightarrow> Inl (ListenFailed e) | Inr ln \<Rightarrow> Inr (ln, JoinHostPort host ''0''))"
proof -
  have "Sscanf_d ''0'' = 0" by code_simp
  moreover have "SplitHostPort (JoinHostPort host ''0'') = Some (host, ''0'')"
    by (rule Split_Join [OF assms]) (simp add: is_digit_def)
  ultimately show ?thesis by (simp add: web_listener_def listenWithFallback_def Let_def)
qed

text \<open>A machine where the ports below 8082 are taken, for a concrete run.\<close>

definition busy_machine :: "string \<Rightarrow> string + nat" where
  "busy_machine addr =
     (if addr = ''127.0.0.1:8080'' \<or> addr = ''127.0.0.1:8081'' then Inl ''bind: address already in use'' else Inr 1)"

lemma digit_codes:
  "char_of (48 :: nat) = CHR ''0''" "char_of (49 :: nat) = CHR ''1''" "char_of (50 :: nat) = CHR ''2''" "char_of (56 :: nat) = CHR ''8''"
  by code_simp+

lemma busy_attempts:
  "attempt_addr ''127.0.0.1'' 8080 0 = ''127.0.0.1:8080''" "attempt_addr ''127.0.0.1'' 8080 (Suc 0) = ''127.0.0.1:8081''"
  "attempt_addr ''127.0.0.1'' 8080 (Suc (Suc 0)) = ''127.0.0.1:8082''" "JoinHostPort ''127.0.0.1'' (Itoa 8080) = ''127.0.0.1:8080''"
  by (simp_all add: attempt_addr_def JoinHostPort_def Itoa_def nat_digits.simps digit_codes)

lemma busy_search:
  "\<not> (\<forall>i < 20. port_taken busy_machine ''127.0.0.1'' 8080 i)"
  "(LEAST i. \<not> port_taken busy_machine ''127.0.0.1'' 8080 i) = Suc (Suc 0)"
proof -
  have use: "isAddrInUseErr ''bind: address already in use''" by code_simp
  have t: "port_taken busy_machine ''127.0.0.1'' 8080 0" "port_taken busy_machine ''127.0.0.1'' 8080 (Suc 0)"
    "\<not> port_taken busy_machine ''127.0.0.1'' 8080 (Suc (Suc 0))"
    by (simp_all add: port_taken_def busy_attempts busy_machine_def use)
  show "(LEAST i. \<not> port_taken busy_machine ''127.0.0.1'' 8080 i) = Suc (Suc 0)"
  proof (rule Least_equality)
    show "\<not> port_taken busy_machine ''127.0.0.1'' 8080 (Suc (Suc 0))" by (rule t(3))
    show "Suc (Suc 0) \<le> i" if "\<not> port_taken busy_machine ''127.0.0.1'' 8080 i" for i
    proof (rule ccontr)
      assume "\<not> Suc (Suc 0) \<le> i"
      then have "i = 0 \<or> i = Suc 0" by auto
      with t(1,2) that show False by auto
    qed
  qed
  show "\<not> (\<forall>i < 20. port_taken busy_machine ''127.0.0.1'' 8080 i)"
  proof
    assume "\<forall>i < 20. port_taken busy_machine ''127.0.0.1'' 8080 i"
    moreover have "Suc (Suc 0) < 20" by simp
    ultimately show False using t(3) by blast
  qed
qed

lemma busy_listens: "listenWithFallback busy_machine ''127.0.0.1:8080'' 20 = Inr (1, ''127.0.0.1:8082'')"
  using first_free_port [of "''127.0.0.1''" 8080 20 busy_machine] busy_search(1)
  by (simp add: busy_attempts busy_machine_def busy_search(2))

section \<open>Properties\<close>

text \<open>
  The server takes the first free port: for an address with a positive port \<open>p\<close>, \<^verbatim>\<open>listenWithFallback\<close> returns after at
  most \<open>maxAttempts\<close> attempts.  If all of \<open>p\<close>, \<open>p + 1\<close>, \<open>\<dots>\<close> that it may try are in use it fails and says
  so; otherwise the first one that is not in use decides, with its listener and address or
  with its error.
\<close>

theorem listen_takes_first_free:
  assumes "CHR ''['' \<notin> set host" "CHR '']'' \<notin> set host" "0 < port" "port < 2 ^ 63" "0 < n"
  shows "listenWithFallback listen (JoinHostPort host (Itoa port)) (int n) =
    (if \<forall>i < n. port_taken listen host port i
     then Inl (AllInUse (int n) (case listen (attempt_addr host port (n - 1)) of Inl e \<Rightarrow> e | Inr _ \<Rightarrow> []))
     else (let k = LEAST i. \<not> port_taken listen host port i
           in case listen (attempt_addr host port k) of
                Inl e \<Rightarrow> Inl (ListenFailed e)
              | Inr ln \<Rightarrow> Inr (ln, attempt_addr host port k)))"
  using assms by (rule first_free_port)

theorem listen_takes_first_free_witness:
  "listenWithFallback busy_machine ''127.0.0.1:8080'' 20 = Inr (1, ''127.0.0.1:8082'')"
  using listen_takes_first_free [of "''127.0.0.1''" 8080 20 busy_machine] busy_search(1)
  by (simp add: busy_attempts busy_machine_def busy_search(2))

text \<open>
  The server knows its port: when \<^verbatim>\<open>Start\<close> listens without TLS on an IPv4 address or a host name, the port it
  stores is the port of the address it listens on, also when it had to move to another one.
\<close>

theorem start_stores_its_port:
  assumes "CHR '':'' \<notin> set ip" "CHR ''%'' \<notin> set ip" "CHR ''['' \<notin> set ip" "CHR '']'' \<notin> set ip"
    and "0 < port" "port + 20 < 2 ^ 63" "start_port listen ip port = Inr (ln, port')"
  shows "listen (ip @ '':'' @ Itoa port') = Inr ln \<and> port \<le> port' \<and> port' < port + 20"
proof -
  have join: "JoinHostPort ip p = ip @ '':'' @ p" for p using assms(1,2) by (simp add: JoinHostPort_def)
  have split: "SplitHostPort (ip @ '':'' @ Itoa q) = Some (ip, Itoa q)" if "0 \<le> q" for q
    using Split_Join [OF assms(3,4), of "Itoa q"] Itoa_plain [OF that] by (simp add: join)
  obtain addr where addr: "listenWithFallback listen (ip @ '':'' @ Itoa port) (int 20) = Inr (ln, addr)"
    and p': "port' = (case SplitHostPort addr of None \<Rightarrow> port | Some (_, p) \<Rightarrow> if Sscanf_d p > 0 then Sscanf_d p else port)"
    using assms(7) by (auto simp: start_port_def Let_def split: sum.splits option.splits prod.splits)
  have "port < 2 ^ 63" using assms(6) by simp
  note first = first_free_port [OF assms(3,4,5) this, of 20 listen, unfolded join addr]
  have "\<not> (\<forall>i < 20. port_taken listen ip port i)"
  proof
    assume "\<forall>i < 20. port_taken listen ip port i"
    with first show False by simp
  qed
  then obtain i where i: "i < 20" "\<not> port_taken listen ip port i" by blast
  obtain k where k: "k = (LEAST i. \<not> port_taken listen ip port i)" by simp
  have "k < 20" unfolding k using Least_le [of "\<lambda>i. \<not> port_taken listen ip port i", OF i(2)] i(1) by simp
  moreover have "listen (attempt_addr ip port k) = Inr ln" "addr = attempt_addr ip port k"
    using first \<open>\<not> (\<forall>i < 20. _)\<close> unfolding Let_def k [symmetric] by (auto split: sum.splits)
  moreover have "port' = port + int k"
    using p' split [of "port + int k"] Sscanf_Itoa [of "port + int k"] assms(5,6) calculation(1,3)
    by (simp add: attempt_addr_def join)
  ultimately show ?thesis by (simp add: attempt_addr_def join)
qed

theorem start_stores_its_port_witness:
  "\<exists>port'. start_port busy_machine ''127.0.0.1'' 8080 = Inr (1, port') \<and> busy_machine (''127.0.0.1:'' @ Itoa port') = Inr 1"
proof -
  have a: "''127.0.0.1'' @ '':'' @ Itoa 8080 = ''127.0.0.1:8080''"
    using busy_attempts(4) by (simp add: JoinHostPort_def)
  obtain port' where s: "start_port busy_machine ''127.0.0.1'' 8080 = Inr (1, port')"
    using busy_listens unfolding start_port_def a
    by (cases "SplitHostPort ''127.0.0.1:8082''") (auto simp: Let_def)
  from start_stores_its_port [OF _ _ _ _ _ _ s] s show ?thesis by simp
qed

end
