(* ===== verification/Web_Api.thy ===== *)
theory Web_Api
  imports Bus Lchat_Assets Listen
begin

text \<open>
  The HTTP interface, \<^verbatim>\<open>internal/server/web.go\<close> and \<^verbatim>\<open>internal/server/lchat_assets.go\<close>.  A request
  gives its method, path, query parameters, headers and remote address; \<open>rq_decode\<close> is what
  \<^verbatim>\<open>decodeJSONBody\<close> (in the theory \<open>Wire\<close>) makes of the body for a struct with the given keys:
  \<^const>\<open>None\<close> for an error, otherwise the fields, empty where the body has none.  A handler maps
  a request and a state to a response and a state; \<^const>\<open>None\<close> is a panic.  Bodies are values of
  a datatype, one constructor per JSON shape.
\<close>

section \<open>Requests and responses\<close>

record request =
  rq_Method :: string
  rq_Path :: string
  rq_Query :: "string \<Rightarrow> string"
  rq_Header :: "string \<Rightarrow> string"
  rq_RemoteAddr :: string
  rq_decode :: "string list \<Rightarrow> (string \<Rightarrow> string) option"

datatype body =
    NoBody
  | ErrText string
  | LoginBody string string string string
  | OnlineBody "(string \<times> string) list"
  | ProfileBody UserPublic bool
  | AvatarBody string
  | MetricsBody nat nat nat
  | ResultsBody "DBMessageExt list"
  | HistoryBody "DBMessageExt list"
  | GroupsBody "string list"
  | FriendsBody "(string \<times> string) list"
  | IsFriendBody bool
  | SuccessBody
  | MetaBody string string string "stickerPack list"
  | PacksBody "stickerPack list"

record response =
  rs_status :: nat
  rs_body :: body

definition http_error :: "string \<Rightarrow> nat \<Rightarrow> response" where
  "http_error msg code = \<lparr>rs_status = code, rs_body = ErrText msg\<rparr>"

definition ok_json :: "body \<Rightarrow> response" where
  "ok_json b = \<lparr>rs_status = 200, rs_body = b\<rparr>"

definition no_content :: response where
  "no_content = \<lparr>rs_status = 204, rs_body = NoBody\<rparr>"

type_synonym 's handler = "env \<Rightarrow> request \<Rightarrow> 's \<Rightarrow> (response \<times> 's) option"

definition getClientIP :: "request \<Rightarrow> string" where
  "getClientIP r =
     (if rq_Header r ''X-Forwarded-For'' \<noteq> []
      then TrimSpace (hd (Split (CHR '','') (rq_Header r ''X-Forwarded-For'')))
      else if rq_Header r ''X-Real-IP'' \<noteq> [] then TrimSpace (rq_Header r ''X-Real-IP'')
      else (case SplitHostPort (rq_RemoteAddr r) of None \<Rightarrow> [] | Some (ip, _) \<Rightarrow> ip))"

text \<open>The token of an \<^verbatim>\<open>Authorization: Bearer\<close> header, trimmed; empty if there is none.\<close>

definition bearer :: "request \<Rightarrow> string" where
  "bearer r =
     (let auth = rq_Header r ''Authorization''
      in if length auth > 7 \<and> ToLower (take 7 auth) = ''bearer '' then TrimSpace (drop 7 auth) else [])"

definition query_token :: "request \<Rightarrow> string" where
  "query_token r = (let t = TrimSpace (rq_Query r ''token'') in if t = [] then bearer r else t)"

definition getTokenFromRequest :: "request \<Rightarrow> string" where
  "getTokenFromRequest r = (if bearer r \<noteq> [] then bearer r else TrimSpace (rq_Query r ''token''))"

definition requireMethod :: "string \<Rightarrow> Server handler \<Rightarrow> Server handler" where
  "requireMethod method next ev r s =
     (if rq_Method r \<noteq> method then Some (http_error (txt_only @ method) 405, s) else next ev r s)"

text \<open>\<^verbatim>\<open>authQueryMiddleware\<close> hands the name of the session to the handler.\<close>

definition authQueryMiddleware :: "(string \<Rightarrow> Server handler) \<Rightarrow> Server handler" where
  "authQueryMiddleware next ev r s =
     (if query_token r = [] then Some (http_error txt_no_token 400, s)
      else
        (case GetUsernameByToken ev (query_token r) s of
           (None, s1) \<Rightarrow> Some (http_error txt_auth_failed 401, s1)
         | (Some username, s1) \<Rightarrow> next username ev r s1))"

section \<open>Accounts and sessions\<close>

definition handleLogin :: "8 word list res \<Rightarrow> Server handler" where
  "handleLogin rnd ev r s0 =
     (case Allow (ev_now ev) (loginLimiter s0) (getClientIP r) of
        (ok, rl) \<Rightarrow> Some
     (let s = s0\<lparr>loginLimiter := rl\<rparr>
      in if \<not> ok then (http_error txt_limited 429, s)
         else
     (case rq_decode r [''username'', ''password''] of
        None \<Rightarrow> (http_error txt_bad_body 400, s)
      | Some f \<Rightarrow>
     (if TrimSpace (f ''username'') = [] \<or> TrimSpace (f ''password'') = []
      then (http_error txt_name_pw_empty 400, s)
      else if \<not> isValidUsername (f ''username'') then (http_error txt_bad_name_web 400, s)
      else
     (case AuthenticateUser (ev_drv ev) (DB s) (f ''username'') (f ''password'') of
        Inl _ \<Rightarrow> (http_error txt_auth_failed 401, s)
      | Inr userInfo \<Rightarrow>
     (case CreateSession ev rnd (f ''username'') s of
        (Inl _, s1) \<Rightarrow> (http_error txt_session_failed 500, s1)
      | (Inr token, s1) \<Rightarrow>
          (ok_json (LoginBody token (du_Avatar userInfo) (du_Gender userInfo) (du_Signature userInfo)), s1)))))))"

definition handleLogout :: "Server handler" where
  "handleLogout ev r s = Some
     (case rq_decode r [''token''] of
        None \<Rightarrow> (http_error txt_bad_body 400, s)
      | Some f \<Rightarrow>
          (let token = (if f ''token'' = [] then getTokenFromRequest r else f ''token'')
           in if token = [] then (http_error txt_token_empty 400, s)
              else (no_content, DeleteSession token s)))"

definition handleRegister :: "Server handler" where
  "handleRegister ev r s0 =
     (case Allow (ev_now ev) (registerLimiter s0) (getClientIP r) of
        (ok, rl) \<Rightarrow> Some
     (let s = s0\<lparr>registerLimiter := rl\<rparr>
      in if \<not> ok then (http_error txt_limited 429, s)
         else
     (case rq_decode r [''username'', ''password'', ''avatar''] of
        None \<Rightarrow> (http_error txt_bad_body 400, s)
      | Some f \<Rightarrow>
     (if TrimSpace (f ''username'') = [] \<or> TrimSpace (f ''password'') = []
      then (http_error txt_name_pw_empty 400, s)
      else if \<not> isValidUsername (f ''username'') then (http_error txt_bad_name_web 400, s)
      else if length (TrimSpace (f ''password'')) < 6 then (http_error txt_pw_short 400, s)
      else
     (case Register ev (f ''username'') (f ''password'') (f ''avatar'') s of
        (Inl e, s1) \<Rightarrow> (http_error e 400, s1)
      | (Inr _, s1) \<Rightarrow> (\<lparr>rs_status = 201, rs_body = NoBody\<rparr>, s1))))))"

definition handleRename :: "Server handler" where
  "handleRename ev r s = Some
     (case rq_decode r [''token'', ''new''] of
        None \<Rightarrow> (http_error txt_bad_body 400, s)
      | Some f \<Rightarrow>
     (if TrimSpace (f ''token'') = [] \<or> TrimSpace (f ''new'') = [] then (http_error txt_token_new_empty 400, s)
      else
     (case GetUsernameByToken ev (f ''token'') s of
        (None, s1) \<Rightarrow> (http_error txt_auth_failed 401, s1)
      | (Some username, s1) \<Rightarrow>
     (if IsNameTaken s1 (f ''new'') then (http_error txt_name_taken 400, s1)
      else
     (case RenameWSClient username (f ''new'') s1 of
        (Inl e, s2) \<Rightarrow> (http_error e 400, s2)
      | (Inr _, s2) \<Rightarrow> (no_content, UpdateSessionUsername (f ''token'') (f ''new'') s2))))))"

section \<open>Messages\<close>

definition handleOnline :: "Server handler" where
  "handleOnline ev r s = Some (ok_json (OnlineBody (GetOnlineUsers ev s)), s)"

definition handleSend :: "Server handler" where
  "handleSend ev r s0 =
     (case Allow (ev_now ev) (sendLimiter s0) (getClientIP r) of
        (ok, rl) \<Rightarrow>
     (let s = s0\<lparr>sendLimiter := rl\<rparr>
      in if \<not> ok then Some (http_error txt_ws_limited 429, s)
         else
     (case rq_decode r [''token'', ''name'', ''to'', ''message'', ''mode''] of
        None \<Rightarrow> Some (http_error txt_bad_body 400, s)
      | Some f \<Rightarrow>
     (if TrimSpace (f ''token'') = [] \<or> TrimSpace (f ''message'') = []
      then Some (http_error txt_token_msg_empty 400, s)
      else
     (case GetUsernameByToken ev (f ''token'') s of
        (None, s1) \<Rightarrow> Some (http_error txt_auth_failed 401, s1)
      | (Some name, s1) \<Rightarrow>
     (if f ''mode'' = ''private'' \<and> TrimSpace (f ''to'') = [] then Some (http_error txt_private_to 400, s1)
      else if f ''mode'' = ''group'' \<and> TrimSpace (f ''to'') = [] then Some (http_error txt_group_to 400, s1)
      else
     (let avatar = (case map_of (WSConns s1) name of None \<Rightarrow> [] | Some a \<Rightarrow> wc_Avatar (wsHeap s1 a))
      in if f ''mode'' = ''private'' then
           (case sendPrivate ev name (f ''to'') (f ''message'') avatar s1 of
              None \<Rightarrow> None
            | Some (Inl e, s2) \<Rightarrow> Some (http_error e 400, s2)
            | Some (Inr _, s2) \<Rightarrow> Some (no_content, s2))
         else if f ''mode'' = ''group'' then
           (case broadcastToGroup ev (f ''to'') name (f ''message'') avatar s1 of
              None \<Rightarrow> None
            | Some (Inl e, s2) \<Rightarrow> Some (http_error e 400, s2)
            | Some (Inr _, s2) \<Rightarrow> Some (no_content, s2))
         else
           (case BroadCastFromWeb ev name (f ''message'') avatar s1 of
              None \<Rightarrow> None
            | Some s2 \<Rightarrow> Some (no_content, s2)))))))))"

text \<open>A positive decimal parameter, or the default.\<close>

definition positive_param :: "string \<Rightarrow> (int \<Rightarrow> int) \<Rightarrow> int \<Rightarrow> int" where
  "positive_param raw f def =
     (let t = TrimSpace raw
      in if t = [] then def
         else (case Atoi t of None \<Rightarrow> def | Some n \<Rightarrow> if n > 0 then f n else def))"

definition handleSearch :: "Server handler" where
  "handleSearch ev r s = Some
     (let query = TrimSpace (rq_Query r ''q'')
      in if query = [] then (http_error txt_no_query 400, s)
         else
           (case SearchMessages (ev_drv ev) (DB s) query (positive_param (rq_Query r ''limit'') (\<lambda>n. min n 100) 50) of
              Inl e \<Rightarrow> (http_error e 500, s)
            | Inr results \<Rightarrow> (ok_json (ResultsBody results), s)))"

definition handleHistory :: "string \<Rightarrow> Server handler" where
  "handleHistory username ev r s = Some
     (if rq_Method r \<noteq> ''GET'' then (http_error (txt_only @ ''GET'') 405, s)
      else
     (let groupName = rq_Query r ''group'';
          limit = positive_param (rq_Query r ''limit'') (\<lambda>n. min n (historyMax s)) (historyLimit s);
          beforeID = positive_param (rq_Query r ''before'') (\<lambda>n. n) 0;
          reply = (\<lambda>res. case res of Inl e \<Rightarrow> (http_error e 500, s) | Inr ms \<Rightarrow> (ok_json (HistoryBody ms), s))
      in if rq_Query r ''type'' = ''group'' then
           (if TrimSpace groupName = [] then (http_error txt_no_group 400, s)
            else reply (GetGroupMessages (ev_drv ev) (DB s) groupName limit beforeID))
         else if rq_Query r ''type'' = ''private'' then
           (if TrimSpace (rq_Query r ''peer'') = [] then (http_error txt_no_peer 400, s)
            else reply (GetPrivateMessages (ev_drv ev) (DB s) username (rq_Query r ''peer'') limit beforeID))
         else reply (GetPublicMessages (ev_drv ev) (DB s) limit beforeID)))"

section \<open>Profiles and avatars\<close>

text \<open>\<^verbatim>\<open>/api/profile\<close> is not behind \<^verbatim>\<open>authQueryMiddleware\<close>, so \<^verbatim>\<open>getUserFromContext\<close> gives the empty name there.\<close>

definition handleProfile :: "Server handler" where
  "handleProfile ev r s = Some
     (if rq_Method r = ''GET'' then
        (let token = getTokenFromRequest r
         in if token = [] then (http_error txt_no_token 400, s)
            else
              (case GetUsernameByToken ev token s of
                 (None, s1) \<Rightarrow> (http_error txt_auth_failed 401, s1)
               | (Some username, s1) \<Rightarrow>
                   (let target0 = TrimSpace (rq_Query r ''user'');
                        target = (if target0 = [] then username else target0)
                    in if target = [] then (http_error txt_no_token 400, s1)
                       else
                         (case GetUserByUsername (ev_drv ev) (DB s1) target of
                            Inl _ \<Rightarrow> (http_error txt_profile_failed 500, s1)
                          | Inr userInfo \<Rightarrow>
                              (ok_json (ProfileBody userInfo (up_Username userInfo = username)), s1)))))
      else if rq_Method r = ''POST'' then
        (case rq_decode r [''token'', ''gender'', ''signature''] of
           None \<Rightarrow> (http_error txt_bad_body 400, s)
         | Some f \<Rightarrow>
             (let token = (if f ''token'' = [] then getTokenFromRequest r else f ''token'')
              in if TrimSpace token = [] then (http_error txt_token_empty 400, s)
                 else
                   (case GetUsernameByToken ev token s of
                      (None, s1) \<Rightarrow> (http_error txt_auth_failed 401, s1)
                    | (Some username, s1) \<Rightarrow>
                        (case UpdateUserProfile (ev_drv ev) username (f ''gender'') (f ''signature'') (DB s1) of
                           (Inl e, d) \<Rightarrow> (http_error e 500, s1\<lparr>DB := d\<rparr>)
                         | (Inr _, d) \<Rightarrow> (no_content, s1\<lparr>DB := d\<rparr>)))))
      else (http_error txt_only_get_post 405, s))"

definition handleAvatar :: "Server handler" where
  "handleAvatar ev r s = Some
     (case rq_decode r [''token'', ''avatar''] of
        None \<Rightarrow> (http_error txt_bad_body 400, s)
      | Some f \<Rightarrow>
          if TrimSpace (f ''token'') = [] \<or> TrimSpace (f ''avatar'') = []
          then (http_error txt_token_avatar_empty 400, s)
          else
            (case GetUsernameByToken ev (f ''token'') s of
               (None, s1) \<Rightarrow> (http_error txt_auth_failed 401, s1)
             | (Some username, s1) \<Rightarrow>
                 (case UpdateAvatar ev username (f ''avatar'') s1 of
                    (Inl e, s2) \<Rightarrow> (http_error e 400, s2)
                  | (Inr url, s2) \<Rightarrow> (ok_json (AvatarBody url), s2))))"

text \<open>The counters of \<^verbatim>\<open>handleMetrics\<close>; the figures of the Go runtime in the same object are left out.\<close>

definition handleMetrics :: "Server handler" where
  "handleMetrics ev r s =
     (let tcpOnline = length (OnlineMap s); wsOnline = length (WSConns s)
      in Some (ok_json (MetricsBody tcpOnline wsOnline (tcpOnline + wsOnline)), s))"

section \<open>Groups and friends\<close>

text \<open>The result of a storage call that only reports success.\<close>

definition db_reply :: "Server \<Rightarrow> 'a res \<times> Database \<Rightarrow> response \<times> Server" where
  "db_reply s x = (case x of (Inl e, d) \<Rightarrow> (http_error e 400, s\<lparr>DB := d\<rparr>) | (Inr _, d) \<Rightarrow> (no_content, s\<lparr>DB := d\<rparr>))"

definition group_action :: "env \<Rightarrow> (string \<Rightarrow> string) \<Rightarrow> UserPublic \<Rightarrow> Server \<Rightarrow> response \<times> Server" where
  "group_action ev f user s =
     (let drv = ev_drv ev; act = f ''action''; groupName = f ''groupName''; memberName = f ''memberName''
      in if act = ''create'' then db_reply s (CreateGroup drv groupName (up_ID user) [] (DB s))
         else if act = ''join'' then db_reply s (JoinGroup drv groupName (up_ID user) (DB s))
         else if act = ''leave'' then db_reply s (LeaveGroup drv groupName (up_ID user) (DB s))
         else if act = ''invite'' then
           (if TrimSpace memberName = [] then (http_error txt_member_empty 400, s)
            else
              (case GetUserByUsername drv (DB s) memberName of
                 Inl _ \<Rightarrow> (http_error txt_target_missing 404, s)
               | Inr target \<Rightarrow> db_reply s (JoinGroup drv groupName (up_ID target) (DB s))))
         else if act = ''kick'' then
           (if TrimSpace memberName = [] then (http_error txt_member_empty 400, s)
            else
              (case GetGroupByName drv (DB s) groupName of
                 Inl e \<Rightarrow> (http_error e 400, s)
               | Inr grp \<Rightarrow>
                   if dg_CreatorID grp \<noteq> up_ID user then (http_error txt_owner_only 403, s)
                   else
                     (case GetUserByUsername drv (DB s) memberName of
                        Inl _ \<Rightarrow> (http_error txt_target_missing 404, s)
                      | Inr target \<Rightarrow> db_reply s (LeaveGroup drv groupName (up_ID target) (DB s)))))
         else (http_error txt_unknown_action 400, s))"

definition handleGroup :: "Server handler" where
  "handleGroup ev r s = Some
     (case rq_decode r [''token'', ''action'', ''groupName'', ''memberName''] of
        None \<Rightarrow> (http_error txt_bad_body 400, s)
      | Some f \<Rightarrow>
          if TrimSpace (f ''token'') = [] \<or> TrimSpace (f ''action'') = [] \<or> TrimSpace (f ''groupName'') = []
          then (http_error txt_group_args_empty 400, s)
          else
            (case GetUsernameByToken ev (f ''token'') s of
               (None, s1) \<Rightarrow> (http_error txt_auth_failed 401, s1)
             | (Some username, s1) \<Rightarrow>
                 (case GetUserByUsername (ev_drv ev) (DB s1) username of
                    Inl _ \<Rightarrow> (http_error txt_profile_failed 500, s1)
                  | Inr user \<Rightarrow> group_action ev f user s1)))"

definition handleGroups :: "string \<Rightarrow> Server handler" where
  "handleGroups username ev r s = Some
     (if rq_Method r \<noteq> ''GET'' then (http_error (txt_only @ ''GET'') 405, s)
      else
        (case GetUserGroups (ev_drv ev) (DB s) username of
           Inl e \<Rightarrow> (http_error e 500, s)
         | Inr groups \<Rightarrow> (ok_json (GroupsBody groups), s)))"

text \<open>Success of a friend call is answered with a body.\<close>

definition friend_reply :: "Server \<Rightarrow> unit res \<times> Database \<Rightarrow> response \<times> Server" where
  "friend_reply s x =
     (case x of
        (Inl e, d) \<Rightarrow> (http_error e 400, s\<lparr>DB := d\<rparr>)
      | (Inr _, d) \<Rightarrow> (ok_json SuccessBody, s\<lparr>DB := d\<rparr>))"

definition handleFriend :: "Server handler" where
  "handleFriend ev r s = Some
     (case rq_decode r [''token'', ''action'', ''friend''] of
        None \<Rightarrow> (http_error txt_bad_request 400, s)
      | Some f \<Rightarrow>
     (if TrimSpace (f ''token'') = [] then (http_error txt_no_token 400, s)
      else
     (case GetUsernameByToken ev (f ''token'') s of
        (None, s1) \<Rightarrow> (http_error txt_auth_failed 401, s1)
      | (Some username, s1) \<Rightarrow>
     (case GetUserByUsername (ev_drv ev) (DB s1) username of
        Inl _ \<Rightarrow> (http_error txt_user_gone 401, s1)
      | Inr user \<Rightarrow>
     (if TrimSpace (f ''friend'') = [] then (http_error txt_friend_empty 400, s1)
      else
     (case GetUserByUsername (ev_drv ev) (DB s1) (f ''friend'') of
        Inl _ \<Rightarrow> (http_error txt_friend_missing 404, s1)
      | Inr friendUser \<Rightarrow>
          if f ''action'' = ''add'' then friend_reply s1 (AddFriend (ev_drv ev) (up_ID user) (up_ID friendUser) (DB s1))
          else if f ''action'' = ''remove'' then
            friend_reply s1 (RemoveFriend (ev_drv ev) (up_ID user) (up_ID friendUser) (DB s1))
          else (http_error txt_unknown_action 400, s1)))))))"

definition handleFriends :: "string \<Rightarrow> Server handler" where
  "handleFriends username ev r s = Some
     (if rq_Method r \<noteq> ''GET'' then (http_error (txt_only @ ''GET'') 405, s)
      else
        (case GetUserByUsername (ev_drv ev) (DB s) username of
           Inl _ \<Rightarrow> (http_error txt_user_gone 401, s)
         | Inr user \<Rightarrow>
             (case GetFriends (ev_drv ev) (DB s) (up_ID user) of
                Inl e \<Rightarrow> (http_error e 500, s)
              | Inr friends \<Rightarrow> (ok_json (FriendsBody (map (\<lambda>p. (up_Username p, up_Avatar p)) friends)), s))))"

definition handleCheckFriend :: "string \<Rightarrow> Server handler" where
  "handleCheckFriend username ev r s = Some
     (if rq_Method r \<noteq> ''GET'' then (http_error (txt_only @ ''GET'') 405, s)
      else if TrimSpace (rq_Query r ''friend'') = [] then (http_error txt_args_missing 400, s)
      else
        (case GetUserByUsername (ev_drv ev) (DB s) username of
           Inl _ \<Rightarrow> (http_error txt_user_gone 401, s)
         | Inr user \<Rightarrow>
             (case GetUserByUsername (ev_drv ev) (DB s) (rq_Query r ''friend'') of
                Inl _ \<Rightarrow> (http_error txt_friend_missing 404, s)
              | Inr friendUser \<Rightarrow>
                  (case IsFriend (ev_drv ev) (DB s) (up_ID user) (up_ID friendUser) of
                     Inl e \<Rightarrow> (http_error e 500, s)
                   | Inr b \<Rightarrow> (ok_json (IsFriendBody b), s)))))"

definition handleLchatMeta :: "Server handler" where
  "handleLchatMeta ev r s = Some
     (if rq_Method r \<noteq> ''GET'' then (http_error ''only GET is supported'' 405, s)
      else (ok_json (MetaBody ''Lchat'' txt_tagline txt_style lchatStickerPacks), s))"

definition handleStickers :: "Server handler" where
  "handleStickers ev r s = Some
     (if rq_Method r \<noteq> ''GET'' then (http_error ''only GET is supported'' 405, s)
      else (ok_json (PacksBody lchatStickerPacks), s))"

section \<open>Routing\<close>

text \<open>
  The routes of \<^verbatim>\<open>StartWeb\<close> that the program itself answers; static files, profiling and the
  upgrade to a WebSocket are not answered here (\<^const>\<open>None\<close>).
\<close>

definition api_routes :: "8 word list res \<Rightarrow> (string \<times> Server handler) list" where
  "api_routes rnd =
     [(''/api/login'', requireMethod ''POST'' (handleLogin rnd)),
      (''/api/logout'', requireMethod ''POST'' handleLogout),
      (''/api/online'', requireMethod ''GET'' handleOnline),
      (''/api/send'', requireMethod ''POST'' handleSend),
      (''/api/rename'', requireMethod ''POST'' handleRename),
      (''/api/register'', requireMethod ''POST'' handleRegister),
      (''/api/avatar'', requireMethod ''POST'' handleAvatar),
      (''/api/lchat/meta'', handleLchatMeta),
      (''/api/stickers'', handleStickers),
      (''/api/group'', requireMethod ''POST'' handleGroup),
      (''/api/groups'', authQueryMiddleware handleGroups),
      (''/api/profile'', handleProfile),
      (''/api/history'', authQueryMiddleware handleHistory),
      (''/api/friend'', requireMethod ''POST'' handleFriend),
      (''/api/friends'', authQueryMiddleware handleFriends),
      (''/api/check-friend'', authQueryMiddleware handleCheckFriend),
      (''/api/metrics'', requireMethod ''GET'' handleMetrics),
      (''/api/search'', requireMethod ''GET'' handleSearch)]"

definition route :: "8 word list res \<Rightarrow> string \<Rightarrow> Server handler option" where
  "route rnd path = map_of (api_routes rnd) path"

text \<open>\<^verbatim>\<open>corsMiddleware\<close> answers \<^verbatim>\<open>OPTIONS\<close> itself and sets the headers of every response.\<close>

definition cors_headers :: "request \<Rightarrow> (string \<times> string) list" where
  "cors_headers r =
     [(''Access-Control-Allow-Origin'', ''*''),
      (''Access-Control-Allow-Methods'', ''GET, POST, OPTIONS''),
      (''Access-Control-Allow-Headers'', ''Content-Type, Authorization'')]
     @ (if rq_Method r = ''OPTIONS'' then []
        else [(''Cache-Control'', ''no-store, no-cache, must-revalidate, max-age=0''), (''Pragma'', ''no-cache''),
              (''Expires'', ''0'')])"

definition corsMiddleware :: "Server handler \<Rightarrow> Server handler" where
  "corsMiddleware next ev r s = (if rq_Method r = ''OPTIONS'' then Some (no_content, s) else next ev r s)"

section \<open>Every handler keeps the server well formed\<close>

definition handler_ok :: "Server handler \<Rightarrow> bool" where
  "handler_ok h = (\<forall>ev r s. server_ok s \<and> env_ok ev \<longrightarrow> (\<exists>x s'. h ev r s = Some (x, s') \<and> server_ok s'))"

lemma handler_okI:
  "(\<And>ev r s. server_ok s \<Longrightarrow> env_ok ev \<Longrightarrow> \<exists>x s'. h ev r s = Some (x, s') \<and> server_ok s') \<Longrightarrow> handler_ok h"
  by (simp add: handler_ok_def)

lemma CreateSession_ok: "server_ok s \<Longrightarrow> CreateSession ev rnd u s = (r, s') \<Longrightarrow> server_ok s'"
  using sessions_ok_Create [OF server_okD(5), of s rnd "ev_now ev" u "sessionTTL s"]
  by (auto simp: CreateSession_def intro!: server_ok_Sessions split: prod.splits)

lemma DeleteSession_ok: "server_ok s \<Longrightarrow> server_ok (DeleteSession tok s)"
  by (auto simp: DeleteSession_def Delete_def sessions_ok_def gomap_simps
      intro!: server_ok_Sessions dest: server_okD(5))

lemma UpdateSessionUsername_ok: "server_ok s \<Longrightarrow> server_ok (UpdateSessionUsername tok u s)"
  by (auto simp: UpdateSessionUsername_def UpdateUsername_def sessions_ok_def gomap_simps
      intro!: server_ok_Sessions dest: server_okD(5) split: option.splits)

lemma RenameWSClient_ok:
  assumes "server_ok s" "RenameWSClient old new s = (r, s')"
  shows "server_ok s'"
proof -
  have "server_ok (s\<lparr>wsHeap := (wsHeap s)(a := (wsHeap s a)\<lparr>wc_Name := new\<rparr>),
      WSConns := move_key old new a (WSConns s)\<rparr>)" if "map_of (WSConns s) old = Some a" for a
  proof -
    let ?t = "s\<lparr>wsHeap := (wsHeap s)(a := (wsHeap s a)\<lparr>wc_Name := new\<rparr>), WSConns := move_key old new a (WSConns s)\<rparr>"
    have ws: "map_ok (WSConns s)" "\<And>k b. map_of (WSConns s) k = Some b \<Longrightarrow> b < wsNext s \<and> wc_Name (wsHeap s b) = k"
      using assms(1) by (simp_all add: server_ok_def ws_ok_def)
    have "b < wsNext s \<and> wc_Name (wsHeap ?t b) = k" if "map_of (WSConns ?t) k = Some b" for k b
      using that ws(2) [of k b] ws(2) [OF \<open>map_of (WSConns s) old = Some a\<close>]
      by (auto simp: gomap_simps split: if_splits)
    then have "ws_ok ?t" using ws(1) by (simp add: ws_ok_def gomap_simps del: fun_upd_apply)
    moreover have "tcp_ok ?t" "queues_ok ?t" using assms(1) by (auto simp: server_ok_def tcp_ok_def queues_ok_def)
    ultimately show ?thesis using assms(1) by (simp add: server_ok_def)
  qed
  then show ?thesis
    using assms by (auto simp: RenameWSClient_def split: if_splits option.splits)
qed

lemma Register_ok: "server_ok s \<Longrightarrow> Register ev n p av s = (r, s') \<Longrightarrow> server_ok s'"
  by (auto simp: Register_def case_prod_beta intro!: server_ok_DB RegisterUser_db_ok dest: server_okD(4))

lemma UpdateAvatar_ok:
  assumes "server_ok s" "UpdateAvatar ev u av s = (r, s')"
  shows "server_ok s'"
proof -
  have "db_ok d" if "UpdateUserAvatar (ev_drv ev) u p (DB s) = (x, d)" for p x d
    using UpdateUserAvatar_db_ok [OF server_okD(4) [OF assms(1)], of "ev_drv ev" u p] that by simp
  then show ?thesis
    using assms by (auto simp: UpdateAvatar_def split: prod.splits sum.splits intro!: server_ok_DB)
qed

lemma handleLogin_ok: "handler_ok (handleLogin rnd)"
  by (rule handler_okI)
    (auto simp: handleLogin_def Let_def intro: CreateSession_ok [of "s\<lparr>loginLimiter := l\<rparr>" for s l]
      split: prod.splits option.splits sum.splits)

lemma handleLogout_ok: "handler_ok handleLogout"
  by (rule handler_okI) (auto simp: handleLogout_def Let_def DeleteSession_ok split: option.splits)

lemma handleRegister_ok: "handler_ok handleRegister"
  by (rule handler_okI)
    (auto simp: handleRegister_def Let_def intro: Register_ok [of "s\<lparr>registerLimiter := l\<rparr>" for s l]
      split: prod.splits option.splits sum.splits)

lemma handleRename_ok: "handler_ok handleRename"
  by (rule handler_okI)
    (auto simp: handleRename_def Let_def split: prod.splits option.splits sum.splits
      intro: GetUsernameByToken_ok UpdateSessionUsername_ok RenameWSClient_ok)

lemma read_only_ok:
  "handler_ok handleOnline" "handler_ok handleSearch" "handler_ok (handleHistory u)" "handler_ok handleMetrics"
  "handler_ok (handleGroups u)" "handler_ok (handleFriends u)" "handler_ok (handleCheckFriend u)"
  "handler_ok handleLchatMeta" "handler_ok handleStickers"
  by (auto simp: handler_ok_def handleOnline_def handleSearch_def handleHistory_def handleMetrics_def handleGroups_def
      handleFriends_def handleCheckFriend_def handleLchatMeta_def handleStickers_def Let_def split: sum.splits)

lemma handleProfile_ok: "handler_ok handleProfile"
proof (rule handler_okI)
  fix ev :: env and r s assume s: "server_ok s"
  have up: "server_ok (t\<lparr>DB := snd (UpdateUserProfile (ev_drv ev) u g q (DB t))\<rparr>)" if "server_ok t" for t u g q
    using server_ok_DB [OF that UpdateUserProfile_db_ok [OF server_okD(4) [OF that]]] .
  have tok: "server_ok (snd (GetUsernameByToken ev tok s))" for tok
    using GetUsernameByToken_ok [OF s] by (metis prod.collapse)
  obtain x s' where h: "handleProfile ev r s = Some (x, s')" by (fastforce simp: handleProfile_def)
  have "server_ok s'"
    using h s tok up [OF tok] unfolding handleProfile_def Let_def case_prod_beta
    by (auto split: if_splits option.splits sum.splits prod.splits)
  with h show "\<exists>x s'. handleProfile ev r s = Some (x, s') \<and> server_ok s'" by blast
qed

lemma handleAvatar_ok: "handler_ok handleAvatar"
  by (rule handler_okI)
    (auto simp: handleAvatar_def split: prod.splits option.splits sum.splits
      intro: GetUsernameByToken_ok UpdateAvatar_ok)

lemma handleSend_ok: "handler_ok handleSend"
proof (rule handler_okI)
  fix ev :: env and r s assume s: "server_ok s" and e: "env_ok ev"
  have p: "\<exists>x t'. sendPrivate ev n to c av t = Some (x, t') \<and> server_ok t'" if "server_ok t" for n to c av t
    using sendPrivate_ok [OF that] by blast
  have g: "\<exists>x t'. broadcastToGroup ev g n c av t = Some (x, t') \<and> server_ok t'" if "server_ok t" for g n c av t
    using broadcastToGroup_ok [OF that, of ev g n c av] e unfolding env_ok_def by blast
  have b: "\<exists>t'. BroadCastFromWeb ev n c av t = Some t' \<and> server_ok t'" if "server_ok t" for n c av t
    unfolding BroadCastFromWeb_def using broadcastPublic_ok [OF that, of ev n c av False] e unfolding env_ok_def by blast
  have reply: "\<exists>x t'. (case y of None \<Rightarrow> None | Some (Inl e, s2) \<Rightarrow> Some (http_error e 400, s2)
      | Some (Inr _, s2) \<Rightarrow> Some (no_content, s2)) = Some (x, t') \<and> server_ok t'"
    if "\<exists>x t'. y = Some (x, t') \<and> server_ok t'" for y :: "(unit res \<times> Server) option"
    using that by (auto split: sum.splits)
  have reply': "\<exists>x t'. (case y of None \<Rightarrow> None | Some s2 \<Rightarrow> Some (no_content, s2)) = Some (x, t') \<and> server_ok t'"
    if "\<exists>t'. y = Some t' \<and> server_ok t'" for y
    using that by auto
  obtain ok rl where al: "Allow (ev_now ev) (sendLimiter s) (getClientIP r) = (ok, rl)" by fastforce
  let ?s = "s\<lparr>sendLimiter := rl\<rparr>"
  show "\<exists>x s'. handleSend ev r s = Some (x, s') \<and> server_ok s'"
  proof (cases "rq_decode r [''token'', ''name'', ''to'', ''message'', ''mode'']")
    case None
    then show ?thesis using s al by (simp add: handleSend_def Let_def)
  next
    case (Some f)
    obtain n t where t: "GetUsernameByToken ev (f ''token'') ?s = (n, t)" by fastforce
    then have "server_ok t" using GetUsernameByToken_ok [of ?s] s by simp
    then show ?thesis
      using s al Some t reply [OF p] reply [OF g] reply' [OF b]
      by (cases n) (simp_all add: handleSend_def Let_def)
  qed
qed

lemma db_reply_ok: "server_ok s \<Longrightarrow> db_ok (snd x) \<Longrightarrow> server_ok (snd (db_reply s x))"
  by (auto simp: db_reply_def intro!: server_ok_DB split: prod.splits sum.splits)

lemma friend_reply_ok: "server_ok s \<Longrightarrow> db_ok (snd x) \<Longrightarrow> server_ok (snd (friend_reply s x))"
  by (auto simp: friend_reply_def intro!: server_ok_DB split: prod.splits sum.splits)

lemma user_id_exists: "GetUserByUsername drv d n = Inr u \<Longrightarrow> up_ID u \<in> set (user_ids d)"
  using GetUserByUsername_InrD [of drv d n u] by blast

lemma group_action_ok:
  assumes "server_ok s" "up_ID user \<in> set (user_ids (DB s))"
  shows "server_ok (snd (group_action ev f user s))"
proof -
  have d: "db_ok (DB s)" using server_okD(4) [OF assms(1)] .
  have m: "db_ok (snd (JoinGroup (ev_drv ev) g (up_ID t) (DB s)))" if "GetUserByUsername (ev_drv ev) (DB s) n = Inr t" for g n t
    using JoinGroup_db_ok [OF d] user_id_exists [OF that] by blast
  show ?thesis
    unfolding group_action_def Let_def
    using assms CreateGroup_db_ok [OF d] JoinGroup_db_ok [OF d] LeaveGroup_db_ok [OF d] m
    by (auto intro!: db_reply_ok split: sum.splits)
qed

lemma handleGroup_ok: "handler_ok handleGroup"
proof (rule handler_okI)
  fix ev :: env and r s assume s: "server_ok s"
  have "\<exists>x s'. group_action ev f u t = (x, s') \<and> server_ok s'"
    if "server_ok t" "GetUserByUsername (ev_drv ev) (DB t) n = Inr u" for t n u f
    using group_action_ok [OF that(1) user_id_exists [OF that(2)], of ev f] by (metis prod.collapse)
  then show "\<exists>x s'. handleGroup ev r s = Some (x, s') \<and> server_ok s'"
    using s GetUsernameByToken_ok [OF s]
    by (auto simp: handleGroup_def split: prod.splits option.splits sum.splits)
qed

lemma handleFriend_ok: "handler_ok handleFriend"
proof (rule handler_okI)
  fix ev :: env and r s assume s: "server_ok s"
  have "\<exists>x s'. friend_reply t (AddFriend (ev_drv ev) i j (DB t)) = (x, s') \<and> server_ok s'"
    "\<exists>x s'. friend_reply t (RemoveFriend (ev_drv ev) i j (DB t)) = (x, s') \<and> server_ok s'" if "server_ok t" for t i j
    using friend_reply_ok [OF that AddFriend_db_ok [OF server_okD(4) [OF that]], of "ev_drv ev" i j]
      friend_reply_ok [OF that RemoveFriend_db_ok [OF server_okD(4) [OF that]], of "ev_drv ev" i j]
    by (metis prod.collapse)+
  then show "\<exists>x s'. handleFriend ev r s = Some (x, s') \<and> server_ok s'"
    using s GetUsernameByToken_ok [OF s]
    by (auto simp: handleFriend_def split: prod.splits option.splits sum.splits if_splits)
qed

lemma requireMethod_ok: "handler_ok h \<Longrightarrow> handler_ok (requireMethod m h)"
  by (auto simp: handler_ok_def requireMethod_def)

lemma authQueryMiddleware_ok: "(\<And>u. handler_ok (h u)) \<Longrightarrow> handler_ok (authQueryMiddleware h)"
  by (rule handler_okI)
    (auto simp: authQueryMiddleware_def handler_ok_def intro: GetUsernameByToken_ok split: prod.splits option.splits
      dest: GetUsernameByToken_ok)

lemmas handlers_ok = handleLogin_ok handleLogout_ok handleRegister_ok handleRename_ok read_only_ok handleProfile_ok
  handleAvatar_ok handleSend_ok handleGroup_ok handleFriend_ok

lemma route_ok: "route rnd path = Some h \<Longrightarrow> handler_ok h"
  by (auto simp: route_def api_routes_def handlers_ok intro!: requireMethod_ok authQueryMiddleware_ok split: if_splits)

end
