(* ===== verification/Web_Access.thy ===== *)
theory Web_Access
  imports Web_Api
begin

text \<open>
  Who may do what over HTTP: what a request without a session can change, what a login gives,
  who can remove a member of a group, whose private history a session can read, and the two
  places where the interface is more open than it means to be (search and rename).
\<close>

section \<open>Requests without a session\<close>

text \<open>
  None of the tokens a request carries (in the query, in the \<^verbatim>\<open>Authorization\<close> header, in the
  body) stands for a user.
\<close>

definition unauthenticated :: "int \<Rightarrow> request \<Rightarrow> MemorySessionStore \<Rightarrow> bool" where
  "unauthenticated now r st =
     (session_user now st (query_token r) = None \<and> session_user now st (getTokenFromRequest r) = None
      \<and> (\<forall>ks f. rq_decode r ks = Some f \<longrightarrow> session_user now st (f ''token'') = None))"

text \<open>Every token stands for the same user as before, now and at any later time.\<close>

definition same_sessions :: "int \<Rightarrow> MemorySessionStore \<Rightarrow> MemorySessionStore \<Rightarrow> bool" where
  "same_sessions now st st' = (\<forall>tok t. now \<le> t \<longrightarrow> session_user t st' tok = session_user t st tok)"

definition no_effect :: "env \<Rightarrow> Server \<Rightarrow> Server \<Rightarrow> bool" where
  "no_effect ev s s' = (\<exists>st. s' = s\<lparr>Sessions := st\<rparr> \<and> same_sessions (ev_now ev) (Sessions s) st)"

text \<open>What a request costs before its tokens are looked at: a \<^verbatim>\<open>POST\<close> to \<^verbatim>\<open>/api/send\<close> is counted.\<close>

definition counted :: "env \<Rightarrow> request \<Rightarrow> Server \<Rightarrow> Server" where
  "counted ev r s = s\<lparr>sendLimiter := snd (Allow (ev_now ev) (sendLimiter s) (getClientIP r))\<rparr>"

definition harmless :: "Server handler \<Rightarrow> bool" where
  "harmless h =
     (\<forall>ev r s x s'. unauthenticated (ev_now ev) r (Sessions s) \<longrightarrow> h ev r s = Some (x, s') \<longrightarrow> no_effect ev s s')"

text \<open>The handler refuses, and relative to \<open>pre\<close> it changes nothing.\<close>

definition guarded :: "(env \<Rightarrow> request \<Rightarrow> Server \<Rightarrow> Server) \<Rightarrow> Server handler \<Rightarrow> bool" where
  "guarded pre h =
     (\<forall>ev r s x s'. unauthenticated (ev_now ev) r (Sessions s) \<longrightarrow> h ev r s = Some (x, s') \<longrightarrow>
        no_effect ev (pre ev r s) s' \<and> rs_status x \<ge> 400)"

abbreviation free :: "env \<Rightarrow> request \<Rightarrow> Server \<Rightarrow> Server" where
  "free \<equiv> \<lambda>_ _ s. s"

lemma same_sessions_same [simp]: "same_sessions now st st"
  by (simp add: same_sessions_def)

lemma no_effect_same [simp]: "no_effect ev s s"
  unfolding no_effect_def by (rule exI [of _ "Sessions s"]) simp

lemma counted_sessions [simp]: "Sessions (counted ev r s) = Sessions s"
  by (simp add: counted_def)

text \<open>A lookup that finds no user at most forgets an expired token.\<close>

definition forget :: "env \<Rightarrow> string \<Rightarrow> Server \<Rightarrow> Server" where
  "forget ev tok s = snd (GetUsernameByToken ev tok s)"

lemma GetUsernameByToken_forget:
  "session_user (ev_now ev) (Sessions s) tok = None \<Longrightarrow> GetUsernameByToken ev tok s = (None, forget ev tok s)"
  by (auto simp: forget_def GetUsernameByToken_def GetUsername_def session_user_def split: option.splits if_splits)

lemma no_effect_forget [simp]: "no_effect ev s (forget ev tok s)"
proof -
  let ?st = "snd (GetUsername (ev_now ev) tok (Sessions s))"
  have "same_sessions (ev_now ev) (Sessions s) ?st"
    by (auto simp: same_sessions_def session_defs gomap_simps split: option.splits)
  then show ?thesis
    unfolding no_effect_def forget_def
    by (intro exI [of _ ?st]) (simp add: GetUsernameByToken_def case_prod_beta)
qed

lemma DeleteSession_no_effect:
  assumes "session_user (ev_now ev) (Sessions s) tok = None"
  shows "no_effect ev s (DeleteSession tok s)"
proof -
  have "same_sessions (ev_now ev) (Sessions s) (Delete tok (Sessions s))"
    using assms by (auto simp: same_sessions_def session_defs gomap_simps split: option.splits if_splits)
  then show ?thesis
    unfolding no_effect_def DeleteSession_def by (intro exI [of _ "Delete tok (Sessions s)"]) simp
qed

lemma unauthenticatedD:
  assumes "unauthenticated now r st"
  shows "session_user now st (query_token r) = None" "session_user now st (getTokenFromRequest r) = None"
    "rq_decode r ks = Some f \<Longrightarrow> session_user now st (f ''token'') = None"
  using assms by (auto simp: unauthenticated_def)

lemma TrimSpace_Nil [simp]: "TrimSpace [] = []"
  using TrimSpace_length [of "[]"] by simp

lemma status_simps [simp]:
  "rs_status (http_error e c) = c" "rs_status (ok_json b) = 200" "rs_status no_content = 204"
  by (simp_all add: http_error_def ok_json_def no_content_def)

lemma public_handlers_harmless:
  "harmless handleOnline" "harmless handleSearch" "harmless handleMetrics" "harmless handleLchatMeta"
  "harmless handleStickers" "harmless handleLogout"
proof -
  show "harmless handleLogout"
    unfolding harmless_def
  proof (intro allI impI)
    fix ev r s x s' assume "unauthenticated (ev_now ev) r (Sessions s)" and h: "handleLogout ev r s = Some (x, s')"
    note u = unauthenticatedD [OF this(1)]
    then show "no_effect ev s s'"
      using h by (auto simp: handleLogout_def Let_def DeleteSession_no_effect split: option.splits if_splits)
  qed
qed (auto simp: harmless_def handleOnline_def handleSearch_def handleMetrics_def handleLchatMeta_def handleStickers_def
      Let_def split: sum.splits if_splits)

text \<open>A handler that decodes its body with the given keys: only the token of the body and the
  request's own matter.\<close>

lemma guarded_bodyI:
  assumes none: "\<And>ev r s x s'. rq_decode r ks = None \<Longrightarrow> session_user (ev_now ev) (Sessions s) (getTokenFromRequest r) = None
      \<Longrightarrow> h ev r s = Some (x, s') \<Longrightarrow> no_effect ev (pre ev r s) s' \<and> rs_status x \<ge> 400"
    and some: "\<And>ev r s x s' f. rq_decode r ks = Some f \<Longrightarrow> session_user (ev_now ev) (Sessions s) (f ''token'') = None
      \<Longrightarrow> session_user (ev_now ev) (Sessions s) (getTokenFromRequest r) = None
      \<Longrightarrow> h ev r s = Some (x, s') \<Longrightarrow> no_effect ev (pre ev r s) s' \<and> rs_status x \<ge> 400"
  shows "guarded pre h"
  unfolding guarded_def
proof (intro allI impI)
  fix ev r s x s' assume u: "unauthenticated (ev_now ev) r (Sessions s)" and h: "h ev r s = Some (x, s')"
  show "no_effect ev (pre ev r s) s' \<and> rs_status x \<ge> 400"
  proof (cases "rq_decode r ks")
    case None
    then show ?thesis using none unauthenticatedD(2) [OF u] h by blast
  next
    case (Some f)
    then show ?thesis using some unauthenticatedD(2) [OF u] unauthenticatedD(3) [OF u Some] h by blast
  qed
qed

lemma token_handlers_guarded:
  "guarded free handleRename" "guarded free handleAvatar" "guarded free handleGroup" "guarded free handleFriend"
  "guarded free handleProfile"
proof -
  show "guarded free handleRename"
    by (rule guarded_bodyI [of "[''token'', ''new'']"])
      (auto simp: handleRename_def GetUsernameByToken_forget split: if_splits)
  show "guarded free handleAvatar"
    by (rule guarded_bodyI [of "[''token'', ''avatar'']"])
      (auto simp: handleAvatar_def GetUsernameByToken_forget split: if_splits)
  show "guarded free handleGroup"
    by (rule guarded_bodyI [of "[''token'', ''action'', ''groupName'', ''memberName'']"])
      (auto simp: handleGroup_def GetUsernameByToken_forget split: if_splits)
  show "guarded free handleFriend"
    by (rule guarded_bodyI [of "[''token'', ''action'', ''friend'']"])
      (auto simp: handleFriend_def GetUsernameByToken_forget split: if_splits)
  show "guarded free handleProfile"
    by (rule guarded_bodyI [of "[''token'', ''gender'', ''signature'']"])
      (auto simp: handleProfile_def Let_def GetUsernameByToken_forget split: if_splits)
qed

lemma handleSend_guarded: "guarded counted handleSend"
proof (rule guarded_bodyI [of "[''token'', ''name'', ''to'', ''message'', ''mode'']"])
  fix ev r s x s' assume "rq_decode r [''token'', ''name'', ''to'', ''message'', ''mode''] = None"
    and "handleSend ev r s = Some (x, s')"
  then show "no_effect ev (counted ev r s) s' \<and> rs_status x \<ge> 400"
    by (auto simp: handleSend_def Let_def counted_def split: prod.splits if_splits)
next
  fix ev r s x s' f assume d: "rq_decode r [''token'', ''name'', ''to'', ''message'', ''mode''] = Some f"
    and u: "session_user (ev_now ev) (Sessions s) (f ''token'') = None" and h: "handleSend ev r s = Some (x, s')"
  have "GetUsernameByToken ev (f ''token'') (counted ev r s) = (None, forget ev (f ''token'') (counted ev r s))"
    using u by (intro GetUsernameByToken_forget) simp
  then show "no_effect ev (counted ev r s) s' \<and> rs_status x \<ge> 400"
    using d h by (auto simp: handleSend_def Let_def counted_def split: prod.splits if_splits)
qed

lemma authQueryMiddleware_guarded: "guarded free (authQueryMiddleware h)"
  unfolding guarded_def
proof (intro allI impI)
  fix ev r s x s' assume u: "unauthenticated (ev_now ev) r (Sessions s)"
    and h: "authQueryMiddleware h ev r s = Some (x, s')"
  show "no_effect ev s s' \<and> rs_status x \<ge> 400"
    using h GetUsernameByToken_forget [OF unauthenticatedD(1) [OF u]]
    by (auto simp: authQueryMiddleware_def split: if_splits)
qed

lemma requireMethod_guarded:
  "guarded pre h \<Longrightarrow> guarded (\<lambda>ev r s. if rq_Method r = m then pre ev r s else s) (requireMethod m h)"
  by (auto simp: guarded_def requireMethod_def split: if_splits)

lemma requireMethod_free: "guarded free h \<Longrightarrow> guarded free (requireMethod m h)"
  using requireMethod_guarded [of free h m] by simp

lemma requireMethod_harmless: "harmless h \<Longrightarrow> harmless (requireMethod m h)"
  by (auto simp: harmless_def requireMethod_def split: if_splits)

text \<open>The paths that answer everybody.\<close>

definition public_paths :: "string list" where
  "public_paths = [''/api/logout'', ''/api/online'', ''/api/lchat/meta'', ''/api/stickers'', ''/api/metrics'', ''/api/search'']"

lemma route_guarded:
  assumes "route rnd path = Some h" "path \<notin> {''/api/login'', ''/api/register''}"
  shows "if path \<in> set public_paths then harmless h
    else guarded (\<lambda>ev r s. if path = ''/api/send'' \<and> rq_Method r = ''POST'' then counted ev r s else s) h"
proof (cases "path = ''/api/send''")
  case True
  then show ?thesis
    using assms(1) requireMethod_guarded [OF handleSend_guarded] by (auto simp: route_def api_routes_def public_paths_def)
next
  case False
  then show ?thesis
    using assms
    by (auto simp: route_def api_routes_def public_paths_def public_handlers_harmless token_handlers_guarded
        authQueryMiddleware_guarded split: if_splits intro!: requireMethod_free requireMethod_harmless)
qed

section \<open>Lemmas on sessions and groups\<close>

lemma GetUsernameByToken_valid:
  "GetUsernameByToken ev tok s = (Some u, s1) \<longleftrightarrow> session_user (ev_now ev) (Sessions s) tok = Some u \<and> s1 = s"
  by (auto simp: GetUsernameByToken_def GetUsername_def session_user_def split: option.splits if_splits)

lemma insert_member_mono:
  "insert_member drv ig g u d = Inr d' \<Longrightarrow> db_groups d' = db_groups d \<and> set (db_members d) \<subseteq> set (db_members d')"
  by (auto elim: insert_memberE)

lemma insert_group_mono:
  "insert_group drv n c t d = Inr (i, d') \<Longrightarrow> set (db_groups d) \<subseteq> set (db_groups d') \<and> db_members d' = db_members d"
  by (auto elim: insert_groupE)

lemma is_member_mono:
  "is_member d g v \<Longrightarrow> set (db_groups d) \<subseteq> set (db_groups d') \<Longrightarrow> set (db_members d) \<subseteq> set (db_members d') \<Longrightarrow>
   is_member d' g v"
  by (fastforce simp: is_member_def)

lemma JoinGroup_keeps: "is_member d g v \<Longrightarrow> is_member (snd (JoinGroup drv n u d)) g v"
  by (auto simp: JoinGroup_def split: sum.splits dest!: insert_member_mono intro: is_member_mono)

lemma CreateGroup_keeps:
  assumes "is_member d g v"
  shows "is_member (snd (CreateGroup drv n c t d)) g v"
proof -
  have "is_member d2 g v" if "insert_group drv n c t d = Inr (i, d1)" "insert_member drv False i c d1 = Inr d2" for i d1 d2
    using is_member_mono [OF assms, of d2] insert_group_mono [OF that(1)] insert_member_mono [OF that(2)] by auto
  moreover have "is_member d1 g v" if "insert_group drv n c t d = Inr (i, d1)" for i d1
    using is_member_mono [OF assms, of d1] insert_group_mono [OF that] by auto
  ultimately show ?thesis
    using assms by (auto simp: CreateGroup_def split: sum.splits option.splits sql_err.splits)
qed

lemma LeaveGroup_removes:
  assumes "keys_ok d" "is_member d g v" "\<not> is_member (snd (LeaveGroup drv n u d)) g v"
  shows "g = n \<and> v = u"
proof -
  obtain gr m where gr: "gr \<in> set (db_groups d)" "dg_Name gr = g" "m \<in> set (db_members d)" "gm_group_id m = dg_ID gr"
    "gm_user_id m = v"
    using assms(2) by (auto simp: is_member_def)
  have "\<exists>i. group_id_of drv d n = Inr i \<and> gm_group_id m = i \<and> gm_user_id m = u"
  proof (rule ccontr)
    assume "\<not> ?thesis"
    then have "m \<in> set (db_members (snd (LeaveGroup drv n u d)))" "db_groups (snd (LeaveGroup drv n u d)) = db_groups d"
      using gr(3) by (auto simp: LeaveGroup_def Let_def split: sum.splits option.splits)
    with gr assms(3) show False by (auto simp: is_member_def)
  qed
  then show ?thesis
    using group_id_of_InrD [of drv d n] keys_group_unique [OF assms(1)] gr by metis
qed

lemma scan_rows_total: "scan_fault drv = (\<lambda>_. None) \<Longrightarrow> scan_rows drv st t rows = Inr rows"
  by (simp add: scan_rows_def split: list.splits)

section \<open>Properties\<close>

text \<open>
  C3. Without a session nothing happens.  Take a request to any route except login and registration,
  none of whose tokens stands for a user.  It leaves the database, the connections, their queues,
  the avatars and the limiters as they are, but that a \<^verbatim>\<open>POST\<close> to \<^verbatim>\<open>/api/send\<close> is counted by the limiter
  for sending; and every token stands for the same user as before, at the time of the
  request and at any later time (of the session store only entries that are expired can go).
  A preflight is answered 204 and changes nothing at all; every other request is answered with an
  error unless it goes to one of six open paths.
\<close>

theorem no_session_no_effect:
  assumes "route rnd path = Some h" "path \<notin> {''/api/login'', ''/api/register''}"
    and "corsMiddleware h ev r s = Some (x, s')" "unauthenticated (ev_now ev) r (Sessions s)"
  shows "s' = s\<lparr>Sessions := Sessions s', sendLimiter := sendLimiter s'\<rparr>
    \<and> (\<forall>tok t. ev_now ev \<le> t \<longrightarrow> session_user t (Sessions s') tok = session_user t (Sessions s) tok)
    \<and> sendLimiter s' = (if path = ''/api/send'' \<and> rq_Method r = ''POST''
        then snd (Allow (ev_now ev) (sendLimiter s) (getClientIP r)) else sendLimiter s)
    \<and> (if rq_Method r = ''OPTIONS'' then rs_status x = 204 \<and> s' = s
       else rs_status x \<ge> 400 \<or> path \<in> set public_paths)"
proof (cases "rq_Method r = ''OPTIONS''")
  case True
  then show ?thesis using assms(3) by (auto simp: corsMiddleware_def)
next
  case False
  let ?pre = "if path = ''/api/send'' \<and> rq_Method r = ''POST'' then counted ev r s else s"
  have h: "h ev r s = Some (x, s')" using False assms(3) by (simp add: corsMiddleware_def)
  have "no_effect ev ?pre s' \<and> (rs_status x \<ge> 400 \<or> path \<in> set public_paths)"
  proof (cases "path \<in> set public_paths")
    case True
    then have "path \<noteq> ''/api/send''" unfolding public_paths_def by force
    moreover have "harmless h" using route_guarded [OF assms(1,2)] True by (simp only: if_True)
    then have "no_effect ev s s'" using h assms(4) unfolding harmless_def by blast
    ultimately show ?thesis using True by (simp only: simp_thms if_False)
  next
    case False
    then have "guarded (\<lambda>ev r s. if path = ''/api/send'' \<and> rq_Method r = ''POST'' then counted ev r s else s) h"
      using route_guarded [OF assms(1,2)] by (simp only: if_False)
    then show ?thesis using h assms(4) unfolding guarded_def by blast
  qed
  then obtain st where s': "s' = ?pre\<lparr>Sessions := st\<rparr>" and st: "same_sessions (ev_now ev) (Sessions ?pre) st"
    and x: "rs_status x \<ge> 400 \<or> path \<in> set public_paths" unfolding no_effect_def by blast
  show ?thesis using st x False unfolding s' same_sessions_def counted_def by simp
qed

text \<open>A request with the given body fields and no other content, for concrete runs.\<close>

definition post :: "string \<Rightarrow> (string \<times> string) list \<Rightarrow> request" where
  "post path fs =
     \<lparr>rq_Method = ''POST'', rq_Path = path, rq_Query = (\<lambda>_. []), rq_Header = (\<lambda>_. []),
      rq_RemoteAddr = ''10.0.0.7:99'',
      rq_decode = (\<lambda>_. Some (\<lambda>k. case map_of fs k of None \<Rightarrow> [] | Some v \<Rightarrow> v))\<rparr>"

theorem no_session_no_effect_witness:
  "\<exists>x s'. route (Inl ''no bytes'') ''/api/group'' = Some (requireMethod ''POST'' handleGroup)
     \<and> requireMethod ''POST'' handleGroup (plain_env 9) (post ''/api/group'' [(''token'', ''wrong''), (''action'', ''leave''),
         (''groupName'', ''team'')]) session_server = Some (x, s')
     \<and> DB s' = DB session_server \<and> rs_status x \<ge> 400"
proof -
  let ?r = "post ''/api/group'' [(''token'', ''wrong''), (''action'', ''leave''), (''groupName'', ''team'')]"
  let ?h = "requireMethod ''POST'' handleGroup"
  have h: "route (Inl ''no bytes'') ''/api/group'' = Some ?h" by (simp add: route_def api_routes_def)
  have "env_ok (plain_env 9)" by (simp add: env_ok_def)
  then obtain x s' where x: "?h (plain_env 9) ?r session_server = Some (x, s')"
    using route_ok [OF h] session_server_ok unfolding handler_ok_def by blast
  then have c: "corsMiddleware ?h (plain_env 9) ?r session_server = Some (x, s')"
    by (simp add: corsMiddleware_def post_def)
  have u: "unauthenticated (ev_now (plain_env 9)) ?r (Sessions session_server)"
    by (simp add: unauthenticated_def post_def session_user_def session_server_def query_token_def getTokenFromRequest_def
        bearer_def Let_def)
  have r: "s' = session_server\<lparr>Sessions := Sessions s', sendLimiter := sendLimiter s'\<rparr>" "rs_status x \<ge> 400"
    using no_session_no_effect [OF h _ c u] unfolding public_paths_def post_def by force+
  have "DB s' = DB session_server" by (subst r(1)) simp
  with h x r(2) show ?thesis by auto
qed

text \<open>
  C18. Logging in: \<^verbatim>\<open>handleLogin\<close> answers 200 exactly when the limiter lets the address through, the body names
  a valid user name and a password that is not blank, and the database accepts the password;
  then the token it returns stands for that user until the end of the session time and for
  nobody afterwards.  In every other case no session changes; the accounts never do.
\<close>

theorem login_gives_session:
  assumes "handleLogin (Inr b) ev r s = Some (x, s')"
  shows "(rs_status x = 200 \<longleftrightarrow> fst (Allow (ev_now ev) (loginLimiter s) (getClientIP r))
      \<and> (\<exists>f u. rq_decode r [''username'', ''password''] = Some f \<and> TrimSpace (f ''username'') \<noteq> []
           \<and> TrimSpace (f ''password'') \<noteq> [] \<and> isValidUsername (f ''username'')
           \<and> AuthenticateUser (ev_drv ev) (DB s) (f ''username'') (f ''password'') = Inr u))
    \<and> (if rs_status x = 200
        then \<exists>f tok av g sg. rq_decode r [''username'', ''password''] = Some f \<and> rs_body x = LoginBody tok av g sg
          \<and> (\<forall>t. session_user t (Sessions s') tok = (if t \<le> ev_now ev + sessionTTL s then Some (f ''username'') else None))
        else Sessions s' = Sessions s)
    \<and> DB s' = DB s"
  using assms
  by (auto simp: handleLogin_def Let_def CreateSession_def Create_adds add_session_def session_user_def IsExpired_def
      gomap_simps http_error_def ok_json_def split: prod.splits option.splits if_splits sum.splits)

theorem login_gives_session_witness:
  "\<exists>x s' tok av g sg. handleLogin (Inr (replicate 16 0)) (plain_env 9)
       (post ''/api/login'' [(''username'', ''alice''), (''password'', ''123456'')]) demo_server = Some (x, s')
     \<and> rs_body x = LoginBody tok av g sg \<and> session_user 100 (Sessions s') tok = Some ''alice''"
proof -
  let ?r = "post ''/api/login'' [(''username'', ''alice''), (''password'', ''123456'')]"
  obtain x s' where h: "handleLogin (Inr (replicate 16 0)) (plain_env 9) ?r demo_server = Some (x, s')"
    by (fastforce simp: handleLogin_def split: prod.splits)
  have a: "fst (Allow (ev_now (plain_env 9)) (loginLimiter demo_server) (getClientIP ?r))"
    by (simp add: Allow_def demo_server_def newRateLimiter_def Let_def)
  have t: "TrimSpace ''alice'' \<noteq> []" "TrimSpace ''123456'' \<noteq> []" "isValidUsername ''alice''" by code_simp+
  have d: "rq_decode ?r [''username'', ''password''] = Some (\<lambda>k. case map_of [(''username'', ''alice''), (''password'', ''123456'')] k of
      None \<Rightarrow> [] | Some v \<Rightarrow> v)" by (simp add: post_def)
  have au: "\<exists>u. AuthenticateUser (ev_drv (plain_env 9)) (DB demo_server) ''alice'' ''123456'' = Inr u"
    by (simp add: AuthenticateUser_def plain_env_def demo_server_def chat_db_def demo_db_def)
  note l = login_gives_session [OF h]
  have "rs_status x = 200" using l a t au unfolding d by auto
  with l h show ?thesis unfolding d by (auto simp: plain_env_def demo_server_def)
qed

text \<open>
  C19. Members leave or are removed by the owner: when a request to \<^verbatim>\<open>/api/group\<close> ends a membership, its token stood
  for an account that is either the member itself, leaving, or the creator of that group.
\<close>

theorem only_self_or_owner_removes:
  assumes "server_ok s" "handleGroup ev r s = Some (x, s')" "is_member (DB s) g v" "\<not> is_member (DB s') g v"
  shows "\<exists>f w. rq_decode r [''token'', ''action'', ''groupName'', ''memberName''] = Some f \<and> f ''groupName'' = g
    \<and> w \<in> set (db_users (DB s)) \<and> session_user (ev_now ev) (Sessions s) (f ''token'') = Some (du_Username w)
    \<and> (f ''action'' = ''leave'' \<and> du_ID w = v
       \<or> f ''action'' = ''kick'' \<and> (\<exists>grp \<in> set (db_groups (DB s)). dg_Name grp = g \<and> dg_CreatorID grp = du_ID w))"
proof -
  have k: "keys_ok (DB s)" using server_okD(4) [OF assms(1)] by (simp add: db_ok_def)
  obtain f where f: "rq_decode r [''token'', ''action'', ''groupName'', ''memberName''] = Some f"
    using assms(2-4) by (auto simp: handleGroup_def split: option.splits)
  have same: "DB s1 = DB s" if "GetUsernameByToken ev tok s = (n, s1)" for tok n s1
    using that by (auto simp: GetUsernameByToken_def split: prod.splits)
  obtain n user where n: "session_user (ev_now ev) (Sessions s) (f ''token'') = Some n"
    and user: "GetUserByUsername (ev_drv ev) (DB s) n = Inr user" and act: "(x, s') = group_action ev f user s"
    using assms(2-4) f same
    by (fastforce simp: handleGroup_def GetUsernameByToken_valid split: option.splits if_splits prod.splits sum.splits)
  obtain w where w: "w \<in> set (db_users (DB s))" "du_Username w = n" "up_ID user = du_ID w"
    using GetUserByUsername_InrD [OF user] by (auto simp: to_public_def)
  have gone: "\<not> is_member (DB (snd (group_action ev f user s))) g v" using act assms(4) by (metis snd_conv)
  have db: "DB (snd (db_reply s y)) = snd y" for y :: "'z res \<times> Database"
    by (auto simp: db_reply_def split: prod.splits sum.splits)
  have grp: "\<exists>h \<in> set (db_groups (DB s)). dg_Name h = f ''groupName'' \<and> h = grp"
    if "GetGroupByName (ev_drv ev) (DB s) (f ''groupName'') = Inr grp" for grp
    using that by (auto simp: GetGroupByName_def split: option.splits dest: find_group_SomeD)
  have "f ''action'' = ''leave'' \<and> f ''groupName'' = g \<and> up_ID user = v
     \<or> f ''action'' = ''kick'' \<and> f ''groupName'' = g \<and> (\<exists>h \<in> set (db_groups (DB s)). dg_Name h = g \<and> dg_CreatorID h = up_ID user)"
    using gone assms(3) grp unfolding group_action_def Let_def
    by (auto simp: db JoinGroup_keeps CreateGroup_keeps split: if_splits sum.splits dest!: LeaveGroup_removes [OF k assms(3)])
  with f w n show ?thesis by auto
qed

theorem only_self_or_owner_removes_witness:
  "\<exists>x s' w. handleGroup (plain_env 9) (post ''/api/group'' [(''token'', ''t1''), (''action'', ''leave''), (''groupName'', ''team'')])
       session_server = Some (x, s') \<and> \<not> is_member (DB s') ''team'' 1
     \<and> w \<in> set (db_users (DB session_server)) \<and> du_Username w = ''alice'' \<and> du_ID w = 1"
proof -
  let ?fs = "[(''token'', ''t1''), (''action'', ''leave''), (''groupName'', ''team'')]"
  let ?r = "post ''/api/group'' ?fs"
  let ?f = "\<lambda>k. case map_of ?fs k of None \<Rightarrow> [] | Some v \<Rightarrow> v"
  have t: "TrimSpace ''t1'' \<noteq> []" "TrimSpace ''leave'' \<noteq> []" "TrimSpace ''team'' \<noteq> []" by code_simp+
  have g: "GetUsernameByToken (plain_env 9) ''t1'' session_server = (Some ''alice'', session_server)"
    by (simp add: GetUsernameByToken_valid session_user_def session_server_def IsExpired_def plain_env_def)
  have m: "is_member (DB session_server) ''team'' 1"
    by (simp add: is_member_def session_server_def demo_server_def chat_db_def demo_db_def)
  obtain x s' where x: "handleGroup (plain_env 9) ?r session_server = Some (x, s')" "\<not> is_member (DB s') ''team'' 1"
    using t g
    by (simp add: handleGroup_def post_def group_action_def Let_def db_reply_def LeaveGroup_def group_id_of_def
        GetUserByUsername_def plain_env_def session_server_def demo_server_def chat_db_def demo_db_def to_public_def is_member_def)
  have d: "rq_decode ?r ks = Some ?f" for ks by (simp add: post_def)
  have u: "session_user (ev_now (plain_env 9)) (Sessions session_server) ''t1'' = Some ''alice''"
    using g by (simp add: GetUsernameByToken_valid)
  from only_self_or_owner_removes [OF session_server_ok x(1) m x(2)] x u show ?thesis unfolding d by auto
qed

text \<open>
  C20. Private history belongs to the session: what \<^verbatim>\<open>/api/history?type=private\<close> returns are private messages between the
  user of the session and the named peer, and no more of them than asked for.  A request that
  names a positive limit gets at most that many and at most the configured maximum; every
  other request gets at most the configured default, which the code does not hold against
  the maximum.  A limit that is negative by configuration is no limit.
\<close>

theorem private_history_of_session:
  assumes "delivers_all (ev_drv ev)"
    and "authQueryMiddleware handleHistory ev r s = Some (x, s')" "rs_body x = HistoryBody ms"
    and "rq_Query r ''type'' = ''private''"
  shows "\<exists>u limit. session_user (ev_now ev) (Sessions s) (query_token r) = Some u
    \<and> (\<forall>m \<in> set ms. mx_Type m = ''private'' \<and> {mx_From m, mx_To m} = {u, rq_Query r ''peer''})
    \<and> limit = (case Atoi (TrimSpace (rq_Query r ''limit'')) of
        Some n \<Rightarrow> if TrimSpace (rq_Query r ''limit'') \<noteq> [] \<and> 0 < n then min n (historyMax s) else historyLimit s
      | None \<Rightarrow> historyLimit s)
    \<and> (0 \<le> limit \<longrightarrow> int (length ms) \<le> limit)"
proof -
  let ?limit = "positive_param (rq_Query r ''limit'') (\<lambda>n. min n (historyMax s)) (historyLimit s)"
  let ?before = "positive_param (rq_Query r ''before'') (\<lambda>n. n) 0"
  obtain u where u: "session_user (ev_now ev) (Sessions s) (query_token r) = Some u"
    and h: "handleHistory u ev r s = Some (x, s')"
    using assms(2,3) by (auto simp: authQueryMiddleware_def http_error_def GetUsernameByToken_valid
        split: if_splits prod.splits option.splits)
  have "GetPrivateMessages (ev_drv ev) (DB s) u (rq_Query r ''peer'') ?limit ?before = Inr ms"
    using h assms(3,4) by (auto simp: handleHistory_def Let_def http_error_def ok_json_def split: if_splits sum.splits)
  then have p: "is_page ?limit (private_rows (DB s) u (rq_Query r ''peer'') ?before) ms"
    using message_page_is_page [OF assms(1)] by (simp add: GetPrivateMessages_def)
  have "0 \<le> ?limit \<longrightarrow> int (length ms) \<le> ?limit" using p by (auto simp: is_page_def)
  moreover have "\<forall>m \<in> set ms. mx_Type m = ''private'' \<and> {mx_From m, mx_To m} = {u, rq_Query r ''peer''}"
    using page_subset [OF p] private_rows_pair by blast
  ultimately show ?thesis
    using u by (intro exI [of _ u] exI [of _ ?limit]) (auto simp: positive_param_def Let_def split: option.split)
qed

text \<open>A \<^verbatim>\<open>GET\<close> request with the given query parameters.\<close>

definition get_request :: "string \<Rightarrow> (string \<times> string) list \<Rightarrow> request" where
  "get_request path qs =
     \<lparr>rq_Method = ''GET'', rq_Path = path, rq_Query = (\<lambda>k. case map_of qs k of None \<Rightarrow> [] | Some v \<Rightarrow> v),
      rq_Header = (\<lambda>_. []), rq_RemoteAddr = ''10.0.0.7:99'', rq_decode = (\<lambda>_. None)\<rparr>"

theorem private_history_of_session_witness:
  "\<exists>x s' m. authQueryMiddleware handleHistory (plain_env 9)
       (get_request ''/api/history'' [(''token'', ''t1''), (''type'', ''private''), (''peer'', ''bob'')]) session_server = Some (x, s')
     \<and> rs_body x = HistoryBody [m] \<and> {mx_From m, mx_To m} = {''alice'', ''bob''}"
proof -
  let ?r = "get_request ''/api/history'' [(''token'', ''t1''), (''type'', ''private''), (''peer'', ''bob'')]"
  have t: "TrimSpace ''t1'' = ''t1''" "TrimSpace ''bob'' \<noteq> []" by code_simp+
  have q: "query_token ?r = ''t1''" using t by (simp add: query_token_def get_request_def Let_def)
  have g: "GetUsernameByToken (plain_env 9) ''t1'' session_server = (Some ''alice'', session_server)"
    by (simp add: GetUsernameByToken_valid session_user_def session_server_def IsExpired_def plain_env_def)
  obtain x s' m where x: "authQueryMiddleware handleHistory (plain_env 9) ?r session_server = Some (x, s')"
      "rs_body x = HistoryBody [m]"
    using t g q
    by (simp add: authQueryMiddleware_def handleHistory_def get_request_def Let_def positive_param_def ok_json_def
        GetPrivateMessages_def message_page_def newest_first_def private_rows_def scan_rows_def sql_limit_def before_ok_def message_row_def
        plain_env_def session_server_def demo_server_def chat_db_def demo_db_def)
  have e: "delivers_all (ev_drv (plain_env 9))" by (simp add: plain_env_def plain_driver_ok)
  have l: "rq_Query ?r ''type'' = ''private''" "rq_Query ?r ''peer'' = ''bob''" by (simp_all add: get_request_def)
  have "session_user (ev_now (plain_env 9)) (Sessions session_server) ''t1'' = Some ''alice''"
    using g by (simp add: GetUsernameByToken_valid)
  with private_history_of_session [OF e x l(1)] x show ?thesis unfolding q l(2) by auto
qed

text \<open>
  Search is open to everybody: \<^verbatim>\<open>/api/search\<close> never asks for a session, and when the database has at most fifty
  matches it returns every stored message that matches, private messages of other people
  included.
\<close>

theorem search_needs_no_session:
  assumes "delivers_all (ev_drv ev)"
    and "stmt_fault (ev_drv ev) = (\<lambda>_. None)" "scan_fault (ev_drv ev) = (\<lambda>_. None)"
    and "TrimSpace (rq_Query r ''q'') = q" "q \<noteq> []" "TrimSpace (rq_Query r ''limit'') = []"
    and "m \<in> set (db_messages (DB s))" "u \<in> set (db_users (DB s))" "dm_FromID m = du_ID u"
    and "sql_like (ev_drv ev) (''%'' @ q @ ''%'') (dm_Content m)"
    and "length (search_rows (ev_drv ev) (DB s) (''%'' @ q @ ''%'')) \<le> 50"
  shows "\<exists>ms row. handleSearch ev r s = Some (ok_json (ResultsBody ms), s) \<and> row \<in> set ms
    \<and> mx_ID row = dm_ID m \<and> mx_Type row = dm_Type m \<and> mx_From row = du_Username u \<and> mx_Content row = dm_Content m"
proof -
  let ?rows = "search_rows (ev_drv ev) (DB s) (''%'' @ q @ ''%'')"
  let ?row = "message_row m u (name_or_empty (dm_ToID m) (map (\<lambda>v. (du_ID v, du_Username v)) (db_users (DB s))))
        (name_or_empty (dm_GroupID m) (map (\<lambda>g. (dg_ID g, dg_Name g)) (db_groups (DB s))))"
  obtain ms where ms: "SearchMessages (ev_drv ev) (DB s) q 50 = Inr ms"
    using assms(2) by (simp add: SearchMessages_def message_page_def Let_def scan_rows_total [OF assms(3)])
  have "is_page 50 ?rows ms"
    using message_page_is_page [OF assms(1)] ms by (simp add: SearchMessages_def Let_def)
  from page_full [OF this] have "set ms = set ?rows" using assms(11) by (intro mset_eq_setD) simp
  moreover have "?row \<in> set ?rows" using assms(7-10) by (auto simp: search_rows_def)
  ultimately have "?row \<in> set ms" by simp
  moreover have "handleSearch ev r s = Some (ok_json (ResultsBody ms), s)"
    using assms(4-6) ms by (simp add: handleSearch_def Let_def positive_param_def)
  ultimately show ?thesis by (intro exI [of _ ms] exI [of _ ?row]) (auto simp: message_row_def)
qed

theorem search_needs_no_session_witness:
  "\<exists>ms row. handleSearch (plain_env 9) (get_request ''/api/search'' [(''q'', ''ps'')]) demo_server
       = Some (ok_json (ResultsBody ms), demo_server)
     \<and> row \<in> set ms \<and> mx_Type row = ''private'' \<and> mx_Content row = ''psst''"
proof -
  let ?r = "get_request ''/api/search'' [(''q'', ''ps'')]"
  let ?m = "db_messages chat_db ! 1" and ?u = "hd (db_users chat_db)"
  have q: "TrimSpace (rq_Query ?r ''q'') = ''ps''" "TrimSpace (rq_Query ?r ''limit'') = []"
  proof -
    have "TrimSpace ''ps'' = ''ps''" by code_simp
    then show "TrimSpace (rq_Query ?r ''q'') = ''ps''" by (simp add: get_request_def)
  qed (simp add: get_request_def)
  have c: "DB demo_server = chat_db" by (simp add: demo_server_def)
  have m: "?m \<in> set (db_messages chat_db)" "?u \<in> set (db_users chat_db)" "dm_FromID ?m = du_ID ?u"
    "dm_Content ?m = ''psst''" "dm_Type ?m = ''private''"
    by (simp_all add: chat_db_def demo_db_def)
  have l: "sql_like (ev_drv (plain_env 9)) (''%'' @ ''ps'' @ ''%'') (dm_Content ?m)"
  proof -
    have "Contains ''psst'' ''ps''" by code_simp
    then show ?thesis unfolding m(4) by (simp add: plain_env_def)
  qed
  have few: "length (search_rows (ev_drv (plain_env 9)) chat_db (''%'' @ ''ps'' @ ''%'')) \<le> 50"
    by (simp add: search_rows_def chat_db_def demo_db_def)
  have e: "delivers_all (ev_drv (plain_env 9))"
    "stmt_fault (ev_drv (plain_env 9)) = (\<lambda>_. None)" "scan_fault (ev_drv (plain_env 9)) = (\<lambda>_. None)"
    by (simp_all add: plain_env_def plain_driver_ok) (simp_all add: plain_driver_def)
  from search_needs_no_session [OF e q(1) _ q(2), of ?m demo_server ?u] m l few
  show ?thesis unfolding c by auto
qed

text \<open>
  A rename takes over a name: a session whose user is connected over a WebSocket can take any name that nobody
  online has, whether or not it is the name of somebody's account; the database does not
  change, and from then on every authenticated request with that token runs under the new
  name.
\<close>

theorem rename_takes_any_name:
  assumes "rq_decode r [''token'', ''new''] = Some f" "TrimSpace (f ''token'') \<noteq> []" "TrimSpace (f ''new'') \<noteq> []"
    and "session_user (ev_now ev) (Sessions s) (f ''token'') = Some u" "map_of (WSConns s) u = Some a"
    and "\<not> IsNameTaken s (f ''new'')"
  shows "\<exists>s'. handleRename ev r s = Some (no_content, s') \<and> DB s' = DB s
    \<and> map_of (WSConns s') (f ''new'') = Some a \<and> map_of (WSConns s') u = None
    \<and> (\<forall>h r'. query_token r' = f ''token'' \<longrightarrow> authQueryMiddleware h ev r' s' = h (f ''new'') ev r' s')"
proof -
  let ?s1 = "s\<lparr>wsHeap := (wsHeap s)(a := (wsHeap s a)\<lparr>wc_Name := f ''new''\<rparr>), WSConns := move_key u (f ''new'') a (WSConns s)\<rparr>"
  let ?s2 = "UpdateSessionUsername (f ''token'') (f ''new'') ?s1"
  have g: "GetUsernameByToken ev (f ''token'') s = (Some u, s)"
    using assms(4) by (simp add: GetUsernameByToken_valid)
  have w: "RenameWSClient u (f ''new'') s = (Inr (), ?s1)"
    using assms(5,6) by (simp add: RenameWSClient_def IsNameTaken_def)
  have h: "handleRename ev r s = Some (no_content, ?s2)"
    using assms(1-3,6) g w by (simp add: handleRename_def)
  have "session_user (ev_now ev) (Sessions ?s2) (f ''token'') = Some (f ''new'')"
    using assms(4) by (auto simp: UpdateSessionUsername_def UpdateUsername_def session_user_def IsExpired_def gomap_simps
        split: option.splits if_splits)
  then have tok: "GetUsernameByToken ev (f ''token'') ?s2 = (Some (f ''new''), ?s2)"
    by (simp add: GetUsernameByToken_valid)
  have "f ''token'' \<noteq> []" using assms(2) by auto
  moreover have "u \<noteq> f ''new''" using assms(5,6) by (auto simp: IsNameTaken_def)
  ultimately show ?thesis
    using h tok by (intro exI [of _ ?s2]) (simp add: authQueryMiddleware_def UpdateSessionUsername_def gomap_simps)
qed

theorem rename_takes_any_name_witness:
  "\<exists>s'. handleRename (plain_env 9) (post ''/api/rename'' [(''token'', ''t1''), (''new'', ''bob'')])
       (session_server\<lparr>OnlineMap := []\<rparr>) = Some (no_content, s')
     \<and> ''bob'' \<in> du_Username ` set (db_users (DB session_server)) \<and> map_of (WSConns s') ''bob'' = Some 0"
proof -
  let ?fs = "[(''token'', ''t1''), (''new'', ''bob'')]" and ?s = "session_server\<lparr>OnlineMap := []\<rparr>"
  let ?r = "post ''/api/rename'' ?fs"
  let ?f = "\<lambda>k. case map_of ?fs k of None \<Rightarrow> [] | Some v \<Rightarrow> v"
  have t: "TrimSpace (?f ''token'') \<noteq> []" "TrimSpace (?f ''new'') \<noteq> []"
  proof -
    have "TrimSpace ''t1'' \<noteq> []" "TrimSpace ''bob'' \<noteq> []" by code_simp+
    then show "TrimSpace (?f ''token'') \<noteq> []" "TrimSpace (?f ''new'') \<noteq> []" by simp_all
  qed
  have d: "rq_decode ?r [''token'', ''new''] = Some ?f" by (simp add: post_def)
  have u: "session_user (ev_now (plain_env 9)) (Sessions ?s) (?f ''token'') = Some ''alice''"
    by (simp add: session_user_def session_server_def IsExpired_def plain_env_def)
  have w: "map_of (WSConns ?s) ''alice'' = Some 0" "\<not> IsNameTaken ?s (?f ''new'')"
    by (simp_all add: IsNameTaken_def session_server_def demo_server_def)
  have "''bob'' \<in> du_Username ` set (db_users (DB session_server))"
    by (simp add: session_server_def demo_server_def chat_db_def demo_db_def)
  with rename_takes_any_name [OF d t u w] show ?thesis by auto
qed

end
