(* ===== verification/Chat_System.thy ===== *)
theory Chat_System
  imports Web_Access
begin

text \<open>
  The whole server: TCP connections, WebSocket connections, HTTP requests, messages of other
  servers and the clean-up of sessions act on one state, in any order.  An event is one
  critical piece of work of a goroutine and carries what the outside contributes; a login over
  TCP that is accepted is two events, between which other goroutines may work.
\<close>

section \<open>Events\<close>

datatype event =
    Tcp tcp_event
  | WsOpen string "(string \<times> string) option option"
  | WsRead nat "wsIncoming option"
  | WsClose nat string
  | WsWrite nat bool bool
  | Http "8 word list res" request
  | BusIn "BusMessage res"
  | SessionStart
  | SessionTick

text \<open>
  The work of one event.  A request to a path that the program does not answer itself (static
  files, profiling, the WebSocket upgrade, which is \<^const>\<open>WsOpen\<close>) changes nothing.
\<close>

definition http_event :: "env \<Rightarrow> 8 word list res \<Rightarrow> request \<Rightarrow> Server \<Rightarrow> Server option" where
  "http_event ev rnd r s =
     (case route rnd (rq_Path r) of None \<Rightarrow> Some s | Some h \<Rightarrow> map_option snd (corsMiddleware h ev r s))"

definition on_server :: "(Server \<Rightarrow> Server option) \<Rightarrow> tcp_system \<Rightarrow> tcp_system option" where
  "on_server f t = map_option (\<lambda>s. t\<lparr>ts_server := s\<rparr>) (f (ts_server t))"

fun system_step :: "env \<Rightarrow> event \<Rightarrow> tcp_system \<Rightarrow> tcp_system option" where
  "system_step ev (Tcp e) t = Handler ev e t"
| "system_step ev (WsOpen ip first) t = on_server (\<lambda>s. Some (snd (ws_connect ev ip first s))) t"
| "system_step ev (WsRead a msg) t = on_server (ws_frame ev a msg) t"
| "system_step ev (WsClose a name) t = on_server (\<lambda>s. Some (ws_end a name s)) t"
| "system_step ev (WsWrite a stop wok) t = on_server (\<lambda>s. Some (ws_write stop wok a s)) t"
| "system_step ev (Http rnd r) t = on_server (http_event ev rnd r) t"
| "system_step ev (BusIn m) t = on_server (startBusReceiver ev m) t"
| "system_step ev SessionStart t =
     map_option (\<lambda>s. t\<lparr>ts_server := s, ts_cleaner := CleanerTicking\<rparr>) (cleanupSessions ev False (ts_server t))"
| "system_step ev SessionTick t = on_server (cleanupSessions ev True) t"

text \<open>The TCP events and the clean-up depend on the state of their goroutines.\<close>

definition possible :: "event \<Rightarrow> tcp_system \<Rightarrow> bool" where
  "possible e t =
     (case e of
        Tcp te \<Rightarrow> enabled te t
      | SessionStart \<Rightarrow> ts_cleaner t = CleanerStarting
      | SessionTick \<Rightarrow> ts_cleaner t = CleanerTicking
      | _ \<Rightarrow> True)"

text \<open>The server starts on any well-formed database file, with any interval for the clean-up.\<close>

inductive reachable :: "tcp_system \<Rightarrow> bool" where
  start: "New drv rs rb cert rawID cfg file fs = Inr s \<Longrightarrow> db_ok file \<Longrightarrow> 0 \<le> ac_MaxMsgLength (cf_App cfg) \<Longrightarrow>
    reachable \<lparr>ts_server = s, ts_handlers = h, ts_cleaner = new_cleaner cfg\<rparr>"
| step: "reachable t \<Longrightarrow> possible e t \<Longrightarrow> env_ok ev \<Longrightarrow> system_step ev e t = Some t' \<Longrightarrow> reachable t'"

section \<open>Events other than TCP keep the TCP channels\<close>

definition users_kept :: "Server \<Rightarrow> Server \<Rightarrow> bool" where
  "users_kept s s' =
     (userHeap s' = userHeap s \<and> userNext s' = userNext s \<and> wsNext s \<le> wsNext s'
      \<and> (\<forall>a < wsNext s. client_grown (wsHeap s a) (wsHeap s' a)) \<and> bus s' = bus s \<and> serverID s' = serverID s)"

lemma users_kept_keeps: "users_kept s s' \<Longrightarrow> keeps s s'"
  by (simp add: users_kept_def keeps_def published_same)

named_theorems kept "operations that leave the TCP users alone"

lemma kept_fields [kept]:
  "users_kept s s" "users_kept s (t\<lparr>Sessions := x1\<rparr>) = users_kept s t" "users_kept s (t\<lparr>DB := x2\<rparr>) = users_kept s t"
  "users_kept s (t\<lparr>loginLimiter := l\<rparr>) = users_kept s t" "users_kept s (t\<lparr>registerLimiter := l\<rparr>) = users_kept s t"
  "users_kept s (t\<lparr>sendLimiter := l\<rparr>) = users_kept s t" "users_kept s (t\<lparr>avatarFiles := x3\<rparr>) = users_kept s t"
  "users_kept s (t\<lparr>WSConns := x4\<rparr>) = users_kept s t"
  by (simp_all add: users_kept_def)

definition keeps_users :: "Server handler \<Rightarrow> bool" where
  "keeps_users h = (\<forall>ev r s x s'. h ev r s = Some (x, s') \<longrightarrow> users_kept s s')"

lemma token_kept: "GetUsernameByToken ev tok s = (n, s1) \<Longrightarrow> users_kept s s1"
  by (auto simp: GetUsernameByToken_def kept split: prod.splits)

lemma token_kept': "users_kept s (snd (GetUsernameByToken ev tok s))"
  using token_kept by (metis prod.collapse)

lemma kept_trans: "users_kept s t \<Longrightarrow> users_kept t r \<Longrightarrow> users_kept s r"
  unfolding users_kept_def by (auto intro: client_grown_trans)

lemma kept_client:
  "users_kept s t \<Longrightarrow> (\<And>c. client_grown c (f c)) \<Longrightarrow> users_kept s (t\<lparr>wsHeap := (wsHeap t)(a := f (wsHeap t a))\<rparr>)"
  unfolding users_kept_def by (auto intro: client_grown_trans)

lemma kept_ops [kept]:
  "users_kept s (DeleteSession tok t) = users_kept s t" "users_kept s (UpdateSessionUsername tok n t) = users_kept s t"
  by (simp_all add: DeleteSession_def UpdateSessionUsername_def kept)

lemma CreateSession_kept: "CreateSession ev rnd u s = (r, s') \<Longrightarrow> users_kept s s'"
  by (auto simp: CreateSession_def kept split: prod.splits)

lemma Register_kept: "Register ev n p av s = (r, s') \<Longrightarrow> users_kept s s'"
  by (auto simp: Register_def kept split: prod.splits)

lemma RenameWSClient_kept: "RenameWSClient old n s = (r, s') \<Longrightarrow> users_kept s s'"
  by (auto simp: RenameWSClient_def kept client_grown_def intro!: kept_client split: if_splits option.splits)

lemma UpdateAvatar_kept: "UpdateAvatar ev u av s = (r, s') \<Longrightarrow> users_kept s s'"
  by (auto simp: UpdateAvatar_def kept split: prod.splits sum.splits)

lemma replies_kept:
  "users_kept s (snd (db_reply t y)) = users_kept s t" "users_kept s (snd (friend_reply t z)) = users_kept s t"
  by (auto simp: db_reply_def friend_reply_def kept split: prod.splits sum.splits)

lemma group_action_kept: "users_kept s (snd (group_action ev f u t)) = users_kept s t"
  by (auto simp: group_action_def Let_def replies_kept split: sum.splits)

lemma account_handlers_kept:
  "keeps_users (handleLogin rnd)" "keeps_users handleLogout" "keeps_users handleRegister" "keeps_users handleRename"
  "keeps_users handleAvatar"
proof -
  show "keeps_users (handleLogin rnd)"
    unfolding keeps_users_def handleLogin_def Let_def
    by (auto simp: kept split: prod.splits option.splits sum.splits if_splits dest!: CreateSession_kept)
      (auto simp: users_kept_def)
  show "keeps_users handleLogout"
    by (auto simp: keeps_users_def handleLogout_def Let_def kept split: option.splits if_splits)
  show "keeps_users handleRegister"
    unfolding keeps_users_def handleRegister_def Let_def
    by (auto simp: kept split: prod.splits option.splits sum.splits if_splits dest!: Register_kept)
      (auto simp: users_kept_def)
  show "keeps_users handleRename"
    unfolding keeps_users_def handleRename_def
    by (auto simp: kept split: prod.splits option.splits sum.splits if_splits dest!: RenameWSClient_kept token_kept
        intro: kept_trans)
  show "keeps_users handleAvatar"
    unfolding keeps_users_def handleAvatar_def
    by (auto simp: kept split: prod.splits option.splits sum.splits if_splits dest!: UpdateAvatar_kept token_kept intro: kept_trans)
qed

lemma query_handlers_kept:
  "keeps_users handleOnline" "keeps_users handleSearch" "keeps_users (handleHistory u)" "keeps_users handleMetrics"
  "keeps_users (handleGroups u)" "keeps_users (handleFriends u)" "keeps_users (handleCheckFriend u)"
  "keeps_users handleLchatMeta" "keeps_users handleStickers"
  by (auto simp: keeps_users_def handleOnline_def handleSearch_def handleHistory_def handleMetrics_def handleGroups_def
      handleFriends_def handleCheckFriend_def handleLchatMeta_def handleStickers_def Let_def kept
      split: sum.splits if_splits)

lemma handleProfile_users: "users_kept s (snd (the (handleProfile ev r s)))"
proof (cases "rq_Method r = ''GET''")
  case True
  then show ?thesis
    unfolding handleProfile_def Let_def case_prod_beta option.sel
    by (simp add: token_kept' kept split: option.split sum.split)
next
  case False
  then show ?thesis
    unfolding handleProfile_def Let_def case_prod_beta option.sel
    by (cases "rq_decode r [''token'', ''gender'', ''signature'']")
      (simp_all add: token_kept' kept split: option.split sum.split)
qed

lemma relation_handlers_kept: "keeps_users handleProfile" "keeps_users handleGroup" "keeps_users handleFriend"
proof -
  show "keeps_users handleProfile"
    unfolding keeps_users_def by (metis handleProfile_users option.sel snd_conv)
  have "users_kept s s'" if "(x, s') = group_action ev f u t" "users_kept s t" for ev f u s t x s'
    using that group_action_kept [of s ev f u t] by (metis snd_conv)
  then show "keeps_users handleGroup"
    unfolding keeps_users_def handleGroup_def
    by (auto simp: kept split: prod.splits option.splits sum.splits if_splits dest!: token_kept) metis
  have friend: "users_kept s s'" if "friend_reply t y = (x, s')" "users_kept s t" for t y s x s'
    using that replies_kept(2) [of s t y] by simp
  show "keeps_users handleFriend"
    unfolding keeps_users_def handleFriend_def
    by (auto simp: kept split: prod.splits option.splits sum.splits if_splits dest!: token_kept intro: friend)
qed

lemma handleSend_keeps:
  assumes "server_ok s" "env_ok ev" "handleSend ev r s = Some (x, s')"
  shows "keeps s s'"
proof -
  obtain ok rl where al: "Allow (ev_now ev) (sendLimiter s) (getClientIP r) = (ok, rl)" by fastforce
  let ?s = "s\<lparr>sendLimiter := rl\<rparr>"
  have k: "keeps s ?s" by (simp add: keeps_def)
  have p: "keeps s t'" if "sendPrivate ev n to c av t = Some (y, t')" "server_ok t" "keeps s t" for n to c av t y t'
    using sendPrivate_ok [OF that(2), of ev n to c av] that keeps_trans messaging_keeps by fastforce
  have g: "keeps s t'" if "broadcastToGroup ev gr n c av t = Some (y, t')" "server_ok t" "keeps s t" for n gr c av t y t'
    using broadcastToGroup_ok [OF that(2), of ev gr n c av] assms(2) that keeps_trans messaging_keeps
    unfolding env_ok_def by fastforce
  have b: "keeps s t'" if "BroadCastFromWeb ev n c av t = Some t'" "server_ok t" "keeps s t" for n c av t t'
    using broadcastPublic_ok [OF that(2), of ev n c av False] assms(2) that keeps_trans messaging_keeps
    unfolding env_ok_def BroadCastFromWeb_def by fastforce
  have t: "server_ok t" "keeps s t" if "GetUsernameByToken ev tok ?s = (n, t)" for tok n t
    using GetUsernameByToken_ok [OF _ that] assms(1) keeps_trans [OF k users_kept_keeps [OF token_kept [OF that]]]
    by simp_all
  show ?thesis
    using assms(3) al k unfolding handleSend_def Let_def
    by (auto split: option.splits if_splits prod.splits sum.splits dest: t p g b)
qed

section \<open>Every event keeps the system well formed\<close>

definition handler_safe :: "Server handler \<Rightarrow> bool" where
  "handler_safe h =
     (\<forall>ev r s. server_ok s \<and> env_ok ev \<longrightarrow> (\<exists>x s'. h ev r s = Some (x, s') \<and> server_ok s' \<and> keeps s s'))"

lemma handler_safeI: "handler_ok h \<Longrightarrow> keeps_users h \<Longrightarrow> handler_safe h"
  unfolding handler_safe_def handler_ok_def keeps_users_def using users_kept_keeps by metis

lemma handler_safe_wrap:
  "handler_safe h \<Longrightarrow> handler_safe (requireMethod m h)" "handler_safe h \<Longrightarrow> handler_safe (corsMiddleware h)"
  by (auto simp: handler_safe_def requireMethod_def corsMiddleware_def)

lemma handler_safe_auth:
  assumes "\<And>u. handler_safe (h u)"
  shows "handler_safe (authQueryMiddleware h)"
  unfolding handler_safe_def
proof (intro allI impI)
  fix ev r s assume "server_ok s \<and> env_ok ev"
  moreover obtain n t where t: "GetUsernameByToken ev (query_token r) s = (n, t)" by fastforce
  ultimately have t': "server_ok t" "keeps s t" "env_ok ev"
    using GetUsernameByToken_ok [OF _ t] users_kept_keeps [OF token_kept [OF t]] by simp_all
  show "\<exists>x s'. authQueryMiddleware h ev r s = Some (x, s') \<and> server_ok s' \<and> keeps s s'"
  proof (cases n)
    case None
    then show ?thesis using t t' \<open>server_ok s \<and> env_ok ev\<close> by (simp add: authQueryMiddleware_def)
  next
    case (Some u)
    obtain x s' where "h u ev r t = Some (x, s')" "server_ok s'" "keeps t s'"
      using assms t' unfolding handler_safe_def by blast
    then show ?thesis
      using Some t t' keeps_trans \<open>server_ok s \<and> env_ok ev\<close> by (auto simp: authQueryMiddleware_def)
  qed
qed

lemma handleSend_safe: "handler_safe handleSend"
  unfolding handler_safe_def
proof (intro allI impI)
  fix ev r s assume s: "server_ok s \<and> env_ok ev"
  then obtain x s' where h: "handleSend ev r s = Some (x, s')" "server_ok s'"
    using handleSend_ok unfolding handler_ok_def by blast
  with s handleSend_keeps [OF _ _ h(1)]
  show "\<exists>x s'. handleSend ev r s = Some (x, s') \<and> server_ok s' \<and> keeps s s'" by blast
qed

lemma handlers_safe:
  "handler_safe (handleLogin rnd)" "handler_safe handleLogout" "handler_safe handleRegister" "handler_safe handleRename"
  "handler_safe handleAvatar" "handler_safe handleOnline" "handler_safe handleSearch" "handler_safe (handleHistory u)"
  "handler_safe handleMetrics" "handler_safe (handleGroups u)" "handler_safe (handleFriends u)"
  "handler_safe (handleCheckFriend u)" "handler_safe handleLchatMeta" "handler_safe handleStickers"
  "handler_safe handleProfile" "handler_safe handleGroup" "handler_safe handleFriend"
  by (simp_all add: handler_safeI handlers_ok account_handlers_kept query_handlers_kept relation_handlers_kept)

lemma route_safe: "route rnd path = Some h \<Longrightarrow> handler_safe h"
  by (auto simp: route_def api_routes_def handleSend_safe handlers_safe
      intro!: handler_safe_wrap handler_safe_auth split: if_splits)

lemma http_event_safe:
  assumes "server_ok s" "env_ok ev"
  shows "safe s (http_event ev rnd r s)"
proof (cases "route rnd (rq_Path r)")
  case None
  then show ?thesis using assms(1) by (simp add: http_event_def safe_def)
next
  case (Some h)
  obtain x s' where "corsMiddleware h ev r s = Some (x, s')" "server_ok s'" "keeps s s'"
    using handler_safe_wrap(2) [OF route_safe [OF Some]] assms unfolding handler_safe_def by blast
  then show ?thesis using Some by (simp add: http_event_def safe_def)
qed

lemma kept_cancel: "users_kept s t \<Longrightarrow> users_kept s (cancel_client a t)"
  unfolding cancel_client_def by (rule kept_client) (simp_all add: client_grown_def)

lemma kept_remove: "users_kept s t \<Longrightarrow> users_kept s (RemoveWSClient n t)"
  by (simp add: RemoveWSClient_def kept kept_cancel split: option.split)

lemma kept_new_client:
  assumes "users_kept s t"
  shows "users_kept s (AddWSClient a (t\<lparr>wsHeap := (wsHeap t)(wsNext t := c), wsNext := Suc (wsNext t)\<rparr>))"
  using assms by (auto simp: AddWSClient_def users_kept_def)

lemma ws_connect_users: "users_kept s (snd (ws_connect ev ip first s))"
proof -
  have "users_kept s t" if "GetUsernameByToken ev tok s = (n, t)" for tok n t using token_kept [OF that] .
  then show ?thesis
    unfolding ws_connect_def Let_def
    by (auto simp: kept kept_remove kept_new_client split: option.splits prod.splits sum.splits)
qed

lemma ws_frame_safe:
  assumes "server_ok s" "env_ok ev"
  shows "safe s (ws_frame ev a msg s)"
proof -
  obtain s' where s': "ws_frame ev a msg s = Some s'" "server_ok s'" using ws_frame_ok [OF assms] by blast
  have q: "keeps t (writeWS ev b m t)" for b m t by (rule queues_keeps [OF only_queues_writeWS])
  have "keeps s t" if h: "handleWSMessage ev a d s = Some t" for d t
  proof -
    obtain ok rl where al: "Allow (ev_now ev) (sendLimiter s) (wc_RemoteIP (wsHeap s a)) = (ok, rl)" by fastforce
    let ?s = "s\<lparr>sendLimiter := rl\<rparr>"
    have s: "server_ok ?s" and k: "keeps s ?s" using assms(1) by (simp_all add: keeps_def)
    have p: "keeps s u" if "SendPrivateWS ev n to c av ?s = Some (y, u)" for n to c av y u
      using sendPrivate_ok [OF s, of ev n to c av] that keeps_trans [OF k messaging_keeps] by (auto simp: SendPrivateWS_def)
    have g: "keeps s u" if "BroadCastToGroupWS ev gr n c av ?s = Some (y, u)" for gr n c av y u
      using broadcastToGroup_ok [OF s, of ev gr n c av] assms(2) that keeps_trans [OF k messaging_keeps]
      by (auto simp: BroadCastToGroupWS_def env_ok_def)
    have b: "keeps s u" if "BroadCastFromWS ev n c av ?s = Some u" for n c av u
      using broadcastPublic_ok [OF s, of ev n c av False] assms(2) that keeps_trans [OF k messaging_keeps]
      by (auto simp: BroadCastFromWS_def env_ok_def)
    show ?thesis
      using h al k unfolding handleWSMessage_def Let_def
      by (auto split: option.splits if_splits prod.splits sum.splits dest: p g b intro: keeps_trans [OF _ q])
  qed
  then have "keeps s s'" using s'(1) q by (auto simp: ws_frame_def split: option.splits if_splits)
  with s' show ?thesis by (simp add: safe_def)
qed

lemma cleanup_tick:
  assumes "server_ok s"
  shows "safe s (cleanupSessions ev True s)"
proof -
  have "server_ok (s\<lparr>Sessions := Cleanup (ev_now ev) (Sessions s)\<rparr>)"
    using assms by (intro server_ok_Sessions mem.ok_clean) (auto dest: server_okD(5))
  then show ?thesis by (simp add: cleanupSessions_def safe_def users_kept_keeps kept)
qed

lemma on_server_ok:
  assumes "tcp_sys_ok t" "\<And>s. server_ok s \<Longrightarrow> safe s (f s)"
  shows "\<exists>t'. on_server f t = Some t' \<and> tcp_sys_ok t'"
  using assms(1) assms(2) [of "ts_server t"] by (auto simp: on_server_def safe_def tcp_sys_ok_def keeps_facts)

lemma safe_total: "server_ok s' \<Longrightarrow> users_kept s s' \<Longrightarrow> safe s (Some s')"
  by (simp add: safe_def users_kept_keeps)

lemma startBusReceiver_safe:
  assumes "server_ok s" "env_ok ev"
  shows "safe s (startBusReceiver ev m s)"
proof -
  have "any_order (ev_order ev)" using assms(2) by (simp add: env_ok_def)
  then have d: "safe s (deliverBusMessage ev b s)" for b
    using deliverBusMessage_ok [OF assms(1), of ev b] only_queues_ok [OF _ assms(1)]
    by (auto simp: safe_def queues_keeps)
  then show ?thesis using assms(1) by (simp add: startBusReceiver_def split: sum.split) (simp add: safe_def)
qed

lemma total_events_safe:
  assumes "server_ok s"
  shows "safe s (Some (snd (ws_connect ev ip first s)))" "safe s (Some (ws_end a n s))"
    "safe s (cleanupSessions ev True s)"
proof -
  have "users_kept s (ws_end a n s)" by (simp add: ws_end_def kept_remove kept_cancel kept)
  with assms show "safe s (Some (snd (ws_connect ev ip first s)))" "safe s (Some (ws_end a n s))"
    "safe s (cleanupSessions ev True s)"
    by (simp_all add: safe_total ws_connect_ok ws_connect_users ws_end_ok cleanup_tick)
qed

text \<open>A turn of a write goroutine touches its own client only.\<close>

lemma ws_write_step:
  assumes "tcp_sys_ok t"
  shows "tcp_sys_ok (t\<lparr>ts_server := ws_write stop wok a (ts_server t)\<rparr>)"
  using assms ws_write_ok by (auto simp: tcp_sys_ok_def) (simp_all add: ws_write_def)

text \<open>
  Where the program panics: a login goes on to \<^verbatim>\<open>Online\<close> after its connection went offline, and the clean-up
  starts with an interval that is not positive.
\<close>

definition panics :: "event \<Rightarrow> tcp_system \<Rightarrow> bool" where
  "panics e t =
     ((\<exists>a. e = Tcp (LoginOnline a) \<and> ho_offline (ts_handlers t a)) \<or> e = SessionStart \<and> sessionCleanup (ts_server t) \<le> 0)"

lemma panics_Tcp: "panics (Tcp te) t = late_online te t"
  by (simp add: panics_def late_online_def)

lemma system_step_panics:
  assumes "tcp_sys_ok t" "possible e t" "env_ok ev" "panics e t"
  shows "system_step ev e t = None"
proof (cases e)
  case (Tcp te)
  then show ?thesis
    using late_online_panics [OF assms(1) _ assms(3)] assms(2,4) by (simp add: possible_def panics_Tcp)
next
  case SessionStart
  then show ?thesis using assms(4) by (simp add: panics_def cleanupSessions_def)
qed (use assms(4) in \<open>simp_all add: panics_def\<close>)

lemma system_step_ok:
  assumes "tcp_sys_ok t" "possible e t" "env_ok ev" "\<not> panics e t"
  shows "\<exists>t'. system_step ev e t = Some t' \<and> tcp_sys_ok t'"
proof (cases e)
  case (Tcp te)
  then show ?thesis using Handler_ok [OF assms(1) _ assms(3)] assms(2,4) by (simp add: possible_def panics_Tcp)
next
  case SessionStart
  then show ?thesis using assms(1,4) by (auto simp: panics_def cleanupSessions_def tcp_sys_ok_def)
next
  case (WsWrite a stop wok)
  then show ?thesis using ws_write_step [OF assms(1)] by (simp add: on_server_def)
qed (simp_all add: on_server_ok [OF assms(1)] total_events_safe ws_frame_safe http_event_safe startBusReceiver_safe assms(3))

lemma system_step_next:
  assumes "tcp_sys_ok t" "possible e t" "env_ok ev" "system_step ev e t = Some t'"
  shows "tcp_sys_ok t'"
  using system_step_ok [OF assms(1-3)] system_step_panics [OF assms(1-3)] assms(4) by fastforce

lemma reachable_ok: "reachable t \<Longrightarrow> tcp_sys_ok t"
proof (induction rule: reachable.induct)
  case (start drv rs rb cert rawID cfg db fs s h)
  then show ?case using New_ok by (auto simp: tcp_sys_ok_def)
next
  case (step t e ev t')
  then show ?case using system_step_next by blast
qed

section \<open>Properties\<close>


text \<open>A server on a fresh database with the given configuration, which does not listen to Redis.\<close>

definition fresh_server :: "Config \<Rightarrow> Server res" where
  "fresh_server cfg = New (plain_driver 5) (Inr ()) (Inr ()) (Inr ()) [] cfg empty_db []"

abbreviation fresh_system :: "Config \<Rightarrow> Server \<Rightarrow> tcp_system" where
  "fresh_system cfg s \<equiv> \<lparr>ts_server = s, ts_handlers = (\<lambda>_. undefined), ts_cleaner = new_cleaner cfg\<rparr>"

lemma new_server_exists: "\<exists>s. fresh_server DefaultConfig = Inr s"
  by (simp add: fresh_server_def New_def InitDatabase_def createTables_def table_names_def DefaultConfig_def Let_def)

lemma empty_db_ok: "db_ok empty_db"
  by (simp add: db_ok_def)

lemma fresh_reachable:
  "fresh_server cfg = Inr s \<Longrightarrow> 0 \<le> ac_MaxMsgLength (cf_App cfg) \<Longrightarrow> reachable (fresh_system cfg s)"
  unfolding fresh_server_def by (rule reachable.start [OF _ empty_db_ok])

lemma default_reachable:
  obtains s where "fresh_server DefaultConfig = Inr s" "reachable (fresh_system DefaultConfig s)"
  using new_server_exists fresh_reachable [of DefaultConfig] by (auto simp: DefaultConfig_def)



text \<open>
  C14. The tables of connections stay consistent: in every reachable state no name and no connection is twice
  in the TCP map, its entries are connections that exist and whose channel is open, an entry
  of the WebSocket map is a client of that name, no queue holds more than its capacity, the
  database is consistent, and no session token is twice in the store.
\<close>

theorem reachable_tables_consistent:
  assumes "reachable t"
  shows "map_ok (OnlineMap (ts_server t)) \<and> map_ok (WSConns (ts_server t))
    \<and> distinct (map snd (OnlineMap (ts_server t)))
    \<and> (\<forall>k a. map_of (OnlineMap (ts_server t)) k = Some a \<longrightarrow>
          a < userNext (ts_server t) \<and> \<not> ch_closed (us_C (userHeap (ts_server t) a)) \<and> \<not> ho_offline (ts_handlers t a))
    \<and> (\<forall>k a. map_of (WSConns (ts_server t)) k = Some a \<longrightarrow>
          a < wsNext (ts_server t) \<and> wc_Name (wsHeap (ts_server t) a) = k)
    \<and> (\<forall>a. length (ch_buf (us_C (userHeap (ts_server t) a))) \<le> ch_cap (us_C (userHeap (ts_server t) a))
          \<and> length (ch_buf (wc_C (wsHeap (ts_server t) a))) \<le> ch_cap (wc_C (wsHeap (ts_server t) a)))
    \<and> db_ok (DB (ts_server t)) \<and> map_ok (ms_tokens (Sessions (ts_server t)))"
proof -
  have ok: "tcp_sys_ok t" using reachable_ok [OF assms] .
  then have s: "server_ok (ts_server t)" by (simp add: tcp_sys_ok_def)
  have "\<not> ho_offline (ts_handlers t a)" if "map_of (OnlineMap (ts_server t)) k = Some a" for k a
  proof -
    have "a < userNext (ts_server t)" "\<not> ch_closed (us_C (userHeap (ts_server t) a))"
      using s that by (auto simp: server_ok_defs)
    then show ?thesis using ok by (simp add: tcp_sys_ok_def)
  qed
  then show ?thesis
    using s tcp_distinct [OF server_okD(1) [OF s]] by (simp add: server_ok_defs sessions_ok_def chan_ok_def)
qed

theorem reachable_tables_consistent_witness:
  "\<exists>s. fresh_server DefaultConfig = Inr s \<and> db_ok (DB s)"
proof -
  obtain s where s: "fresh_server DefaultConfig = Inr s" "reachable (fresh_system DefaultConfig s)" using default_reachable .
  from reachable_tables_consistent [OF s(2)] s(1) show ?thesis by simp
qed

end
