(* ===== verification/Chat_Order.thy ===== *)
theory Chat_Order
  imports Chat_System
begin

text \<open>
  What a connection receives over time: in every interleaving of the events of \<open>Chat_System\<close> the
  messages written to a connection followed by those in its queue only grow at the end, for TCP
  users and for WebSocket clients; and what every event hands to the bus.
\<close>

section \<open>The order of lines on a connection\<close>

text \<open>What a connection carries: the lines written to it, followed by the lines queued for it.\<close>

definition stream :: "User \<Rightarrow> string list" where
  "stream u = us_sent u @ map (\<lambda>m. m @ [CHR 0x0A]) (ch_buf (us_C u))"

text \<open>The events after which a connection is no longer served.\<close>

definition ends :: "nat \<Rightarrow> event \<Rightarrow> bool" where
  "ends a e = (e \<in> {Tcp (InputEnd a), Tcp (IdleTimeout a), Tcp (Written a False)})"

fun system_run :: "(env \<times> event) list \<Rightarrow> tcp_system \<Rightarrow> tcp_system option" where
  "system_run [] t = Some t"
| "system_run ((ev, e) # es) t =
     (if possible e t then (case system_step ev e t of None \<Rightarrow> None | Some t1 \<Rightarrow> system_run es t1) else None)"

definition continues :: "nat \<Rightarrow> Server \<Rightarrow> Server \<Rightarrow> bool" where
  "continues a s s' =
     (userNext s \<le> userNext s' \<and> us_conn (userHeap s' a) = us_conn (userHeap s a)
      \<and> (\<exists>xs. stream (userHeap s' a) = stream (userHeap s a) @ xs))"

lemma continues_trans: "continues a s t \<Longrightarrow> continues a t r \<Longrightarrow> continues a s r"
  by (auto simp: continues_def)

lemma keeps_continues: "keeps s s' \<Longrightarrow> continues a s s'"
proof -
  assume k: "keeps s s'"
  then have g: "grown (userHeap s a) (userHeap s' a)" by (simp add: keeps_def)
  then have "\<exists>xs. stream (userHeap s' a) = stream (userHeap s a) @ xs" by (auto simp: grown_def stream_def)
  then show ?thesis using g keeps_next [OF k] by (simp add: continues_def grown_def)
qed

lemma same_user_continues:
  "userHeap s' a = userHeap s a \<Longrightarrow> userNext s \<le> userNext s' \<Longrightarrow> continues a s s'"
  by (simp add: continues_def)

lemma safe_continues: "safe s r \<Longrightarrow> r = Some s' \<Longrightarrow> continues a s s'"
  by (auto simp: safe_def intro: keeps_continues)

lemma offline_continues:
  assumes "tcp_sys_ok t" "b \<noteq> a" "any_order (ev_order ev)" "offline_once ev b t = Some t'" "b < userNext (ts_server t)"
  shows "continues a (ts_server t) (ts_server t')"
proof (cases "ho_offline (ts_handlers t b)")
  case True
  then show ?thesis using assms(4) by (simp add: offline_once_def same_user_continues)
next
  case False
  then obtain s' where s': "Offline ev b (ts_server t) = Some s'" "ts_server t' = s'"
    using assms(4) by (auto simp: offline_once_def)
  have ok: "server_ok (ts_server t)" using assms(1) by (simp add: tcp_sys_ok_def)
  obtain s1 where s1: "BroadCast ev b sysOffline (leave_map b (ts_server t)) = Some s1" "messaging (leave_map b (ts_server t)) s1"
    using BroadCast_ok [OF leave_map_ok(1) [OF ok] assms(3)] by blast
  have "continues a (ts_server t) s1"
    by (rule continues_trans [OF same_user_continues keeps_continues [OF messaging_keeps [OF s1(2)]]]) simp_all
  moreover have "userHeap s' a = userHeap s1 a" "userNext s' = userNext s1"
    using s'(1) s1(1) assms(2) by (auto simp: Offline_def upd_user_def split: if_splits)
  ultimately show ?thesis using s'(2) continues_trans same_user_continues by (metis order_refl)
qed

lemma listen_turn_continues:
  "us_conn u \<Longrightarrow> us_conn (listen_turn True u) \<and> stream (listen_turn True u) = stream u"
  by (auto simp: listen_turn_def stream_def Let_def split: list.split)

lemma own_turn_keeps:
  assumes "tcp_sys_ok t" "enabled e t" "env_ok ev" "Handler ev e t = Some t'" "e = Line b l \<or> e = LoginOnline b"
  shows "keeps (ts_server t) (ts_server t')"
  using assms(5)
proof
  assume e: "e = Line b l"
  have "server_ok (ts_server t)" using assms(1) by (simp add: tcp_sys_ok_def)
  from Line_ok [OF this assms(3), of b l] show ?thesis using assms(4) unfolding e by (auto simp del: Handler.simps)
next
  assume e: "e = LoginOnline b"
  have "\<not> late_online e t" using late_online_panics [OF assms(1-3)] assms(4) by auto
  with LoginOnline_ok [OF assms(1) assms(2) [unfolded e] assms(3)] show ?thesis
    using assms(4) unfolding e by (auto simp del: Handler.simps)
qed

lemma Handler_continues:
  assumes "tcp_sys_ok t" "enabled e t" "env_ok ev" "Handler ev e t = Some t'"
    and "a < userNext (ts_server t)" "us_conn (userHeap (ts_server t) a)" "\<not> ends a (Tcp e)"
  shows "continues a (ts_server t) (ts_server t')"
proof (cases e)
  case (Accept addr)
  obtain b s where n: "NewUser addr (ts_server t) = (b, s)" by fastforce
  note nu = NewUser_ok [OF _ n]
  have ok: "server_ok (ts_server t)" using assms(1) by (simp add: tcp_sys_ok_def)
  have "continues a (ts_server t) s" using nu [OF ok] assms(5) by (intro same_user_continues) auto
  moreover have "safe s (Online ev b s)" using nu [OF ok] assms(3) by (intro safe_Online) (auto simp: env_ok_def)
  moreover have "Online ev b s = Some (ts_server t')" using Accept n assms(4) by auto
  ultimately show ?thesis using safe_continues continues_trans by blast
next
  case (Line b l)
  then show ?thesis using keeps_continues own_turn_keeps [OF assms(1-4)] by blast
next
  case (LoginOnline b)
  then show ?thesis using keeps_continues own_turn_keeps [OF assms(1-4)] by blast
next
  case (InputEnd b)
  have "tcp_sys_ok (set_handler b (\<lambda>h. h\<lparr>ho_reading := False\<rparr>) t)"
    using assms(1) by (auto simp: tcp_sys_ok_def set_handler_def)
  from offline_continues [OF this, of b a ev t'] show ?thesis
    using InputEnd assms(2-4,7) by (auto simp: ends_def env_ok_def set_handler_def)
next
  case (IdleTimeout b)
  let ?t = "t\<lparr>ts_server := SendMsg b txt_kicked (ts_server t)\<rparr>"
  have "tcp_sys_ok ?t" using assms(1) by (auto simp: tcp_sys_ok_def only_queues_fields [OF only_queues_SendMsg])
  moreover obtain t1 where t1: "offline_once ev b ?t = Some t1" "ts_server t' = ts_server t1"
    using IdleTimeout assms(4) by (auto simp: set_handler_def)
  moreover have "b < userNext (ts_server ?t)" "b \<noteq> a"
    using IdleTimeout assms(2,7) by (auto simp: ends_def only_queues_fields [OF only_queues_SendMsg])
  ultimately have "continues a (SendMsg b txt_kicked (ts_server t)) (ts_server t')"
    using offline_continues [of ?t b a ev t1] assms(3) by (simp add: env_ok_def)
  then show ?thesis using continues_trans [OF keeps_continues [OF queues_keeps [OF only_queues_SendMsg]]] by blast
next
  case (Written b wok)
  then have t': "ts_server t' = upd_user b (listen_turn wok) (ts_server t)" using assms(4) by (auto simp: ListenMessage_def)
  have "b = a \<Longrightarrow> wok" using Written assms(7) by (auto simp: ends_def)
  then show ?thesis
    using listen_turn_continues [OF assms(6)] assms(6) unfolding t' by (auto simp: continues_def upd_user_def)
qed

lemma system_step_continues:
  assumes "tcp_sys_ok t" "possible e t" "env_ok ev" "system_step ev e t = Some t'"
    and "a < userNext (ts_server t)" "us_conn (userHeap (ts_server t) a)" "\<not> ends a e"
  shows "continues a (ts_server t) (ts_server t')"
proof -
  have ok: "server_ok (ts_server t)" using assms(1) by (simp add: tcp_sys_ok_def)
  have srv: "continues a (ts_server t) (ts_server t')" if "on_server f t = Some t'" "safe (ts_server t) (f (ts_server t))" for f
    using that safe_continues by (auto simp: on_server_def)
  show ?thesis
  proof (cases e)
    case (Tcp te)
    then show ?thesis using assms Handler_continues [OF assms(1) _ assms(3) _ assms(5,6)] by (simp add: possible_def)
  next
    case (WsWrite b stop wok)
    then show ?thesis using assms(4) by (auto simp: on_server_def ws_write_def intro!: same_user_continues)
  next
    case SessionStart
    then have "ts_server t' = ts_server t" using assms(4) by (auto simp: cleanupSessions_def split: if_splits)
    then show ?thesis by (simp add: same_user_continues)
  qed (use assms(4) in \<open>auto intro!: srv total_events_safe [OF ok] ws_frame_safe [OF ok assms(3)]
      http_event_safe [OF ok assms(3)] startBusReceiver_safe [OF ok assms(3)]\<close>)
qed

lemma system_run_continues:
  assumes "system_run es t = Some t'" "tcp_sys_ok t" "a < userNext (ts_server t)" "us_conn (userHeap (ts_server t) a)"
    and "list_all (\<lambda>(ev, e). env_ok ev \<and> \<not> ends a e) es"
  shows "continues a (ts_server t) (ts_server t')"
  using assms
proof (induction es arbitrary: t)
  case Nil
  then show ?case by (simp add: same_user_continues)
next
  case (Cons x es)
  obtain ev e where x: "x = (ev, e)" by fastforce
  then obtain t1 where t1: "possible e t" "system_step ev e t = Some t1" "system_run es t1 = Some t'"
    using Cons.prems(1) by (auto split: if_splits option.splits)
  have env: "env_ok ev" "\<not> ends a e" using Cons.prems(5) x by simp_all
  have c: "continues a (ts_server t) (ts_server t1)"
    by (rule system_step_continues [OF Cons.prems(2) t1(1) env(1) t1(2) Cons.prems(3,4) env(2)])
  have "tcp_sys_ok t1" by (rule system_step_next [OF Cons.prems(2) t1(1) env(1) t1(2)])
  moreover have "a < userNext (ts_server t1)" "us_conn (userHeap (ts_server t1) a)"
    using c Cons.prems(3,4) by (auto simp: continues_def)
  ultimately have "continues a (ts_server t1) (ts_server t')"
    using Cons.IH [OF t1(3)] Cons.prems(5) by simp
  with c show ?case by (rule continues_trans)
qed

section \<open>What every event does to WebSocket clients and to the bus\<close>

definition frame :: "Server \<Rightarrow> Server \<Rightarrow> bool" where
  "frame s s' =
     (wsNext s \<le> wsNext s' \<and> (\<forall>a < wsNext s. client_grown (wsHeap s a) (wsHeap s' a)) \<and> published s s')"

lemma frame_refl [simp]: "frame s s"
  by (simp add: frame_def)

lemma frame_trans: "frame s t \<Longrightarrow> frame t r \<Longrightarrow> frame s r"
  unfolding frame_def by (auto intro: client_grown_trans published_trans)

lemma keeps_frame: "keeps s t \<Longrightarrow> frame s t"
  by (simp add: keeps_def frame_def)

lemma frame_fields [simp]:
  "frame s (t\<lparr>userHeap := h\<rparr>) = frame s t" "frame s (t\<lparr>userNext := n\<rparr>) = frame s t"
  "frame s (t\<lparr>OnlineMap := m\<rparr>) = frame s t" "frame (s\<lparr>OnlineMap := m\<rparr>) t = frame s t"
  by (simp_all add: frame_def)

lemma frame_upd [simp]: "frame s (upd_user a f t) = frame s t"
  by (simp add: upd_user_def)

lemma safe_frame: "safe s r \<Longrightarrow> r = Some s' \<Longrightarrow> frame s s'"
  by (auto simp: safe_def intro: keeps_frame)

lemma offline_frame:
  assumes "tcp_sys_ok t" "any_order (ev_order ev)" "offline_once ev b t = Some t'"
  shows "frame (ts_server t) (ts_server t')"
proof (cases "ho_offline (ts_handlers t b)")
  case True
  then show ?thesis using assms(3) by (simp add: offline_once_def)
next
  case False
  then obtain s' where s': "Offline ev b (ts_server t) = Some s'" "ts_server t' = s'"
    using assms(3) by (auto simp: offline_once_def)
  have ok: "server_ok (ts_server t)" using assms(1) by (simp add: tcp_sys_ok_def)
  obtain s1 where s1: "BroadCast ev b sysOffline (leave_map b (ts_server t)) = Some s1" "messaging (leave_map b (ts_server t)) s1"
    using BroadCast_ok [OF leave_map_ok(1) [OF ok] assms(2)] by blast
  have "frame (ts_server t) s1" using keeps_frame [OF messaging_keeps [OF s1(2)]] by (simp add: leave_map_def)
  then show ?thesis using s'(1) s1(1) unfolding s'(2) by (auto simp: Offline_def split: if_splits)
qed

lemma Handler_frame:
  assumes "tcp_sys_ok t" "enabled e t" "env_ok ev" "Handler ev e t = Some t'"
  shows "frame (ts_server t) (ts_server t')"
proof (cases e)
  case (Accept addr)
  obtain b s where n: "NewUser addr (ts_server t) = (b, s)" by fastforce
  have ok: "server_ok (ts_server t)" using assms(1) by (simp add: tcp_sys_ok_def)
  note nu = NewUser_ok [OF ok n]
  have "frame (ts_server t) s" using n by (auto simp: NewUser_def)
  moreover have "safe s (Online ev b s)" using nu assms(3) by (intro safe_Online) (auto simp: env_ok_def)
  moreover have "Online ev b s = Some (ts_server t')" using Accept n assms(4) by auto
  ultimately show ?thesis using safe_frame frame_trans by blast
next
  case (Line b l)
  then show ?thesis using keeps_frame own_turn_keeps [OF assms] by blast
next
  case (LoginOnline b)
  then show ?thesis using keeps_frame own_turn_keeps [OF assms] by blast
next
  case (InputEnd b)
  have "tcp_sys_ok (set_handler b (\<lambda>h. h\<lparr>ho_reading := False\<rparr>) t)"
    using assms(1) by (auto simp: tcp_sys_ok_def set_handler_def)
  from offline_frame [OF this, of ev b t'] show ?thesis
    using InputEnd assms(3,4) by (auto simp: env_ok_def set_handler_def)
next
  case (IdleTimeout b)
  let ?t = "t\<lparr>ts_server := SendMsg b txt_kicked (ts_server t)\<rparr>"
  have "tcp_sys_ok ?t" using assms(1) by (auto simp: tcp_sys_ok_def only_queues_fields [OF only_queues_SendMsg])
  moreover obtain t1 where t1: "offline_once ev b ?t = Some t1" "ts_server t' = ts_server t1"
    using IdleTimeout assms(4) by (auto simp: set_handler_def)
  ultimately have "frame (SendMsg b txt_kicked (ts_server t)) (ts_server t')"
    using offline_frame [of ?t ev b t1] assms(3) by (simp add: env_ok_def)
  then show ?thesis using frame_trans [OF keeps_frame [OF queues_keeps [OF only_queues_SendMsg]]] by blast
next
  case (Written b wok)
  then show ?thesis using assms(4) by (auto simp: ListenMessage_def)
qed

lemma system_step_frame:
  assumes "tcp_sys_ok t" "possible e t" "env_ok ev" "system_step ev e t = Some t'"
    and "\<And>a stop wok. e \<noteq> WsWrite a stop wok"
  shows "frame (ts_server t) (ts_server t')"
proof -
  have ok: "server_ok (ts_server t)" using assms(1) by (simp add: tcp_sys_ok_def)
  have srv: "frame (ts_server t) (ts_server t')" if "on_server f t = Some t'" "safe (ts_server t) (f (ts_server t))" for f
    using that safe_frame by (auto simp: on_server_def)
  show ?thesis
  proof (cases e)
    case (Tcp te)
    then show ?thesis using assms Handler_frame [OF assms(1) _ assms(3)] by (simp add: possible_def)
  next
    case (WsWrite a stop wok)
    then show ?thesis using assms(5) by blast
  next
    case SessionStart
    then have "ts_server t' = ts_server t" using assms(4) by (auto simp: cleanupSessions_def split: if_splits)
    then show ?thesis by simp
  qed (use assms(4) in \<open>auto intro!: srv total_events_safe [OF ok] ws_frame_safe [OF ok assms(3)]
      http_event_safe [OF ok assms(3)] startBusReceiver_safe [OF ok assms(3)]\<close>)
qed

text \<open>Every event keeps the identity of the server and hands only its own messages to the bus.\<close>

lemma system_step_published:
  assumes "tcp_sys_ok t" "possible e t" "env_ok ev" "system_step ev e t = Some t'"
  shows "published (ts_server t) (ts_server t')"
proof (cases "\<exists>a stop wok. e = WsWrite a stop wok")
  case True
  then show ?thesis using assms(4) by (auto simp: on_server_def ws_write_def)
next
  case False
  then show ?thesis using system_step_frame [OF assms] by (auto simp: frame_def)
qed

section \<open>The order of messages on a WebSocket connection\<close>

definition ws_stream :: "WSClient \<Rightarrow> wsOutgoing list" where
  "ws_stream c = wc_sent c @ ch_buf (wc_C c)"

lemma client_grown_stream: "client_grown x y \<Longrightarrow> \<exists>ms. ws_stream y = ws_stream x @ ms"
  by (auto simp: client_grown_def ws_stream_def)

lemma write_turn_stream: "ws_stream (write_turn stop True c) = ws_stream c"
  by (auto simp: write_turn_def ws_stream_def split: list.split)

lemma ws_step_stream:
  assumes "tcp_sys_ok t" "possible e t" "env_ok ev" "system_step ev e t = Some t'"
    and "a < wsNext (ts_server t)" "\<And>stop. e \<noteq> WsWrite a stop False"
  shows "wsNext (ts_server t) \<le> wsNext (ts_server t')
    \<and> (\<exists>ms. ws_stream (wsHeap (ts_server t') a) = ws_stream (wsHeap (ts_server t) a) @ ms)"
proof (cases "\<exists>b stop wok. e = WsWrite b stop wok")
  case True
  then obtain b stop wok where e: "e = WsWrite b stop wok" by blast
  then have "b = a \<Longrightarrow> wok" using assms(6) by (cases wok) auto
  then show ?thesis using e assms(4) write_turn_stream by (auto simp: on_server_def ws_write_def)
next
  case False
  then have "frame (ts_server t) (ts_server t')" using system_step_frame [OF assms(1-4)] by blast
  then show ?thesis using assms(5) client_grown_stream by (simp add: frame_def)
qed

lemma ws_run_stream:
  assumes "system_run es t = Some t'" "tcp_sys_ok t" "a < wsNext (ts_server t)"
    and "list_all (\<lambda>(ev, e). env_ok ev \<and> (\<forall>stop. e \<noteq> WsWrite a stop False)) es"
  shows "\<exists>ms. ws_stream (wsHeap (ts_server t') a) = ws_stream (wsHeap (ts_server t) a) @ ms"
  using assms
proof (induction es arbitrary: t)
  case (Cons x es)
  obtain ev e where x: "x = (ev, e)" by fastforce
  then obtain t1 where t1: "possible e t" "system_step ev e t = Some t1" "system_run es t1 = Some t'"
    using Cons.prems(1) by (auto split: if_splits option.splits)
  have env: "env_ok ev" "\<And>stop. e \<noteq> WsWrite a stop False" using Cons.prems(4) x by simp_all
  note s = ws_step_stream [OF Cons.prems(2) t1(1) env(1) t1(2) Cons.prems(3) env(2)]
  have "tcp_sys_ok t1" by (rule system_step_next [OF Cons.prems(2) t1(1) env(1) t1(2)])
  then obtain ms where "ws_stream (wsHeap (ts_server t') a) = ws_stream (wsHeap (ts_server t1) a) @ ms"
    using Cons.IH [OF t1(3)] Cons.prems(3,4) s by fastforce
  then show ?case using s by auto
qed simp

text \<open>
  C2. Lines keep their order.  However the events of all interfaces interleave, as long as a
  connection is served (its input has not ended, it was not idle, no write on it failed) the lines
  written to it followed by the lines queued for it only grow at the end: what was queued is written
  unchanged, once, and in the order in which it was queued.
\<close>

theorem connection_lines_in_order:
  assumes "reachable t" "a < userNext (ts_server t)" "us_conn (userHeap (ts_server t) a)"
    and "list_all (\<lambda>(ev, e). env_ok ev \<and> \<not> ends a e) es" "system_run es t = Some t'"
  shows "\<exists>xs. stream (userHeap (ts_server t') a) = stream (userHeap (ts_server t) a) @ xs"
  using system_run_continues [OF assms(5) reachable_ok [OF assms(1)] assms(2,3,4)] by (simp add: continues_def)

lemma Accept_up:
  assumes "tcp_sys_ok t" "env_ok ev" "Handler ev (Accept addr) t = Some t1"
  shows "us_conn (userHeap (ts_server t1) (userNext (ts_server t)))" "us_listening (userHeap (ts_server t1) (userNext (ts_server t)))"
    "userNext (ts_server t1) = userNext (ts_server t) + 1"
proof -
  obtain s where n: "NewUser addr (ts_server t) = (userNext (ts_server t), s)" by (simp add: NewUser_def)
  have ok: "server_ok (ts_server t)" using assms(1) by (simp add: tcp_sys_ok_def)
  note nu = NewUser_ok [OF ok n]
  have "Online ev (userNext (ts_server t)) s = Some (ts_server t1)" using n assms(3) by auto
  moreover have "safe s (Online ev (userNext (ts_server t)) s)" using nu assms(2) by (intro safe_Online) (auto simp: env_ok_def)
  ultimately have k: "keeps s (ts_server t1)" by (auto simp: safe_def)
  moreover have "us_conn (userHeap s (userNext (ts_server t)))" "us_listening (userHeap s (userNext (ts_server t)))"
    using n by (auto simp: NewUser_def)
  ultimately show "us_conn (userHeap (ts_server t1) (userNext (ts_server t)))"
    "us_listening (userHeap (ts_server t1) (userNext (ts_server t)))"
    "userNext (ts_server t1) = userNext (ts_server t) + 1"
    using nu(3) by (auto simp: keeps_def grown_def)
qed

lemma fresh_connection:
  obtains t where "reachable t" "userNext (ts_server t) = 1" "us_conn (userHeap (ts_server t) 0)" "us_listening (userHeap (ts_server t) 0)"
proof -
  obtain s where s: "fresh_server DefaultConfig = Inr s" and r: "reachable (fresh_system DefaultConfig s)" using default_reachable .
  let ?t = "fresh_system DefaultConfig s"
  have c: "0 \<le> ac_MaxMsgLength (cf_App DefaultConfig)" by (simp add: DefaultConfig_def)
  have e: "env_ok (plain_env 6)" by (simp add: env_ok_def)
  obtain t1 where t1: "Handler (plain_env 6) (Accept ''10.0.0.9:5'') ?t = Some t1"
    using Handler_ok [OF reachable_ok [OF r] _ e, of "Accept ''10.0.0.9:5''"] by (auto simp: late_online_def simp del: Handler.simps)
  have "reachable t1" using reachable.step [OF r _ e, of "Tcp (Accept ''10.0.0.9:5'')"] t1 by (simp add: possible_def)
  then show ?thesis
    using that Accept_up [OF reachable_ok [OF r] e t1] New_ok(2) [OF s [unfolded fresh_server_def] empty_db_ok c] by simp
qed

theorem connection_lines_in_order_witness:
  "\<exists>t t' xs. reachable t \<and> system_run [(plain_env 7, Tcp (Accept ''10.0.0.8:5'')), (plain_env 8, Tcp (Written 0 True))] t = Some t'
     \<and> stream (userHeap (ts_server t') 0) = stream (userHeap (ts_server t) 0) @ xs"
proof -
  obtain t where t: "reachable t" "userNext (ts_server t) = 1" "us_conn (userHeap (ts_server t) 0)" using fresh_connection .
  let ?es = "[(plain_env 7, Tcp (Accept ''10.0.0.8:5'')), (plain_env 8, Tcp (Written 0 True))]"
  have e: "env_ok (plain_env n)" for n by (simp add: env_ok_def)
  obtain t1 where t1: "Handler (plain_env 7) (Accept ''10.0.0.8:5'') t = Some t1"
    using Handler_ok [OF reachable_ok [OF t(1)] _ e, of "Accept ''10.0.0.8:5''"]
    by (auto simp: late_online_def simp del: Handler.simps)
  then obtain t' where t': "system_run ?es t = Some t'"
    using Accept_up(3) [OF reachable_ok [OF t(1)] e t1] t(2) by (simp add: possible_def)
  have "list_all (\<lambda>(ev, e). env_ok ev \<and> \<not> ends 0 e) ?es" by (simp add: e ends_def)
  moreover have "0 < userNext (ts_server t)" using t(2) by simp
  ultimately obtain xs where "stream (userHeap (ts_server t') 0) = stream (userHeap (ts_server t) 0) @ xs"
    using connection_lines_in_order [OF t(1) _ t(3) _ t'] by blast
  then show ?thesis using t(1) t' by blast
qed

lemma writer_turns:
  assumes "a < userNext (ts_server t)" "us_conn (userHeap (ts_server t) a)" "us_listening (userHeap (ts_server t) a)"
    "length (ch_buf (us_C (userHeap (ts_server t) a))) = n"
  shows "\<exists>t'. system_run (replicate n (ev, Tcp (Written a True))) t = Some t' \<and> ch_buf (us_C (userHeap (ts_server t') a)) = []
    \<and> us_sent (userHeap (ts_server t') a) = stream (userHeap (ts_server t) a)"
  using assms
proof (induction n arbitrary: t)
  case 0
  then show ?case by (simp add: stream_def)
next
  case (Suc n)
  let ?u = "userHeap (ts_server t) a" and ?t = "t\<lparr>ts_server := ListenMessage True a (ts_server t)\<rparr>"
  obtain m r where b: "ch_buf (us_C ?u) = m # r" "length r = n" using Suc.prems(4) by (metis length_Suc_conv)
  have u: "userHeap (ts_server ?t) a = ?u\<lparr>us_C := (us_C ?u)\<lparr>ch_buf := r\<rparr>, us_sent := us_sent ?u @ [m @ [CHR 0x0A]]\<rparr>"
    using Suc.prems(2,3) b(1) by (simp add: ListenMessage_def upd_user_def listen_turn_def)
  have "\<exists>t'. system_run (replicate n (ev, Tcp (Written a True))) ?t = Some t' \<and> ch_buf (us_C (userHeap (ts_server t') a)) = []
    \<and> us_sent (userHeap (ts_server t') a) = stream (userHeap (ts_server ?t) a)"
  proof (rule Suc.IH)
    show "a < userNext (ts_server ?t)" using Suc.prems(1) by (simp add: ListenMessage_def upd_user_def)
  qed (use u b Suc.prems(2,3) in simp_all)
  moreover have "stream (userHeap (ts_server ?t) a) = stream ?u" unfolding u using b(1) by (simp add: stream_def)
  ultimately show ?case using Suc.prems(1) by (simp add: possible_def)
qed

text \<open>
  Queued lines are delivered.  On a connection that is served, as many successful turns of the
  writer as there are queued lines write all of them, in order, one line each, and leave the queue
  empty.
\<close>

theorem writer_empties_queue:
  assumes "reachable t" "a < userNext (ts_server t)" "us_conn (userHeap (ts_server t) a)" "us_listening (userHeap (ts_server t) a)"
  shows "\<exists>t'. system_run (replicate (length (ch_buf (us_C (userHeap (ts_server t) a)))) (ev, Tcp (Written a True))) t = Some t'
    \<and> ch_buf (us_C (userHeap (ts_server t') a)) = []
    \<and> us_sent (userHeap (ts_server t') a) =
        us_sent (userHeap (ts_server t) a) @ map (\<lambda>m. m @ [CHR 0x0A]) (ch_buf (us_C (userHeap (ts_server t) a)))"
  using writer_turns [OF assms(2-4) refl] by (simp add: stream_def)

theorem writer_empties_queue_witness:
  "\<exists>t t'. reachable t \<and> system_run (replicate (length (ch_buf (us_C (userHeap (ts_server t) 0)))) (plain_env 8, Tcp (Written 0 True))) t = Some t'
    \<and> ch_buf (us_C (userHeap (ts_server t') 0)) = []"
proof -
  obtain t where t: "reachable t" "userNext (ts_server t) = 1" "us_conn (userHeap (ts_server t) 0)" "us_listening (userHeap (ts_server t) 0)"
    using fresh_connection .
  from writer_empties_queue [OF t(1) _ t(3,4), of "plain_env 8"] t show ?thesis by auto
qed

text \<open>
  C27. WebSocket messages keep their order, too.  However the events of all interfaces interleave, as
  long as no write on it fails, the messages written to a WebSocket connection followed by those in
  its queue only grow at the end, also after the connection was cancelled or its user renamed.
\<close>

theorem ws_messages_in_order:
  assumes "tcp_sys_ok t" "a < wsNext (ts_server t)" "system_run es t = Some t'"
    and "list_all (\<lambda>(ev, e). env_ok ev \<and> (\<forall>stop. e \<noteq> WsWrite a stop False)) es"
  shows "\<exists>ms. ws_stream (wsHeap (ts_server t') a) = ws_stream (wsHeap (ts_server t) a) @ ms"
  using ws_run_stream [OF assms(3,1,2,4)] .

text \<open>The server of the witnesses as a system whose connections are all up.\<close>

definition demo_system :: tcp_system where
  "demo_system = \<lparr>ts_server = demo_server,
     ts_handlers = (\<lambda>_. \<lparr>ho_reading = True, ho_watching = True, ho_offline = False, ho_login = False\<rparr>), ts_cleaner = CleanerTicking\<rparr>"

lemma demo_system_ok: "tcp_sys_ok demo_system"
  using demo_server_ok by (simp add: demo_system_def tcp_sys_ok_def) (auto simp: demo_server_def demo_user_def make_chan_def)

theorem ws_messages_in_order_witness:
  "\<exists>t' ms. system_run [(plain_env 9, WsRead 0 (Some \<lparr>wi_Type = ''ping'', wi_Mode = [], wi_To = [], wi_Message = []\<rparr>)),
       (plain_env 9, WsClose 0 ''alice''), (plain_env 9, WsWrite 0 False True)] demo_system = Some t'
     \<and> ws_stream (wsHeap (ts_server t') 0) = ws_stream (wsHeap demo_server 0) @ ms"
proof -
  let ?es = "[(plain_env 9, WsRead 0 (Some \<lparr>wi_Type = ''ping'', wi_Mode = [], wi_To = [], wi_Message = []\<rparr>)),
       (plain_env 9, WsClose 0 ''alice''), (plain_env 9, WsWrite 0 False True)]"
  obtain t' where t': "system_run ?es demo_system = Some t'"
    by (auto simp: possible_def on_server_def ws_frame_def)
  have "0 < wsNext (ts_server demo_system)" by (simp add: demo_system_def demo_server_def)
  moreover have "list_all (\<lambda>(ev, e). env_ok ev \<and> (\<forall>stop. e \<noteq> WsWrite 0 stop False)) ?es" by (simp add: env_ok_def)
  ultimately show ?thesis
    using ws_messages_in_order [OF demo_system_ok _ t'] t' by (auto simp: demo_system_def)
qed

end
