(* ===== verification/Json.thy ===== *)
theory Json
  imports Go_Prelude
begin

text \<open>
  What the program uses of Go's \<^verbatim>\<open>encoding/json\<close> (Go 1.26): \<^verbatim>\<open>Marshal\<close> and \<^verbatim>\<open>Unmarshal\<close> for structs
  whose fields are strings.  A Go string is any sequence of bytes; JSON text is UTF-8.  The encoder
  writes bytes that are no UTF-8 as the replacement character, escapes control characters,
  quotes, and the characters that matter to HTML; the decoder accepts any JSON text and matches
  field names without regard to case.  Coding loses nothing but bytes that are not UTF-8.
\<close>

abbreviation cp :: "char \<Rightarrow> nat" where
  "cp c \<equiv> of_char c"

section \<open>UTF-8\<close>

text \<open>
  The length of the UTF-8 encoding at the front of a string, 0 if there is none: surrogates, overlong
  encodings and code points above 10FFFF are none, as in \<^verbatim>\<open>utf8.DecodeRuneInString\<close>.
\<close>

definition between :: "nat \<Rightarrow> nat \<Rightarrow> char \<Rightarrow> bool" where
  "between lo hi c = (lo \<le> cp c \<and> cp c \<le> hi)"

fun rune_len :: "string \<Rightarrow> nat" where
  "rune_len [] = 0"
| "rune_len (a # s) =
     (if cp a < 0x80 then 1
      else if between 0xC2 0xDF a then (case s of b # _ \<Rightarrow> if between 0x80 0xBF b then 2 else 0 | _ \<Rightarrow> 0)
      else if between 0xE0 0xEF a then
        (case s of b # c # _ \<Rightarrow>
           if between (if cp a = 0xE0 then 0xA0 else 0x80) (if cp a = 0xED then 0x9F else 0xBF) b \<and> between 0x80 0xBF c
           then 3 else 0
         | _ \<Rightarrow> 0)
      else if between 0xF0 0xF4 a then
        (case s of b # c # d # _ \<Rightarrow>
           if between (if cp a = 0xF0 then 0x90 else 0x80) (if cp a = 0xF4 then 0x8F else 0xBF) b
             \<and> between 0x80 0xBF c \<and> between 0x80 0xBF d
           then 4 else 0
         | _ \<Rightarrow> 0)
      else 0)"

lemma rune_len_bound: "rune_len s \<le> length s" "rune_len s \<le> 4"
  by (cases s; auto split: list.split)+

declare rune_len.simps(2) [simp del]

definition replacement :: string where
  "replacement = [CHR 0xEF, CHR 0xBF, CHR 0xBD]"

text \<open>A string with every byte that is no UTF-8 replaced (\<^verbatim>\<open>strings.ToValidUTF8\<close> byte by byte).\<close>

function to_valid :: "string \<Rightarrow> string" where
  "to_valid [] = []"
| "to_valid (a # s) =
     (let n = rune_len (a # s)
      in if n = 0 then replacement @ to_valid s
         else take n (a # s) @ to_valid (drop (n - 1) s))"
  by pat_completeness auto
termination
  by (relation "measure length") auto

function valid_utf8 :: "string \<Rightarrow> bool" where
  "valid_utf8 [] = True"
| "valid_utf8 (a # s) = (rune_len (a # s) \<noteq> 0 \<and> valid_utf8 (drop (rune_len (a # s) - 1) s))"
  by pat_completeness auto
termination
  by (relation "measure length") auto

text \<open>The encoding of a code point (below 10FFFF and no surrogate).\<close>

definition utf8 :: "nat \<Rightarrow> string" where
  "utf8 r =
     map char_of
       (if r < 0x80 then [r]
        else if r < 0x800 then [0xC0 + r div 64, 0x80 + r mod 64]
        else if r < 0x10000 then [0xE0 + r div 4096, 0x80 + r div 64 mod 64, 0x80 + r mod 64]
        else [0xF0 + r div 262144, 0x80 + r div 4096 mod 64, 0x80 + r div 64 mod 64, 0x80 + r mod 64])"

section \<open>Writing strings\<close>

definition quote :: char where "quote = CHR 0x22"
definition backslash :: char where "backslash = CHR 0x5C"

definition html_special :: "char \<Rightarrow> bool" where
  "html_special c = (c = CHR ''<'' \<or> c = CHR ''>'' \<or> c = CHR ''&'')"

definition esc_char :: "char \<Rightarrow> string" where
  "esc_char a =
     (if a = quote \<or> a = backslash then [backslash, a]
      else if cp a = 8 then [backslash, CHR ''b'']
      else if cp a = 12 then [backslash, CHR ''f'']
      else if cp a = 10 then [backslash, CHR ''n'']
      else if cp a = 13 then [backslash, CHR ''r'']
      else if cp a = 9 then [backslash, CHR ''t'']
      else if cp a < 0x20 \<or> html_special a
      then backslash # ''u00'' @ [hex_digit (cp a div 16), hex_digit (cp a mod 16)]
      else [a])"

definition line_separator :: "string \<Rightarrow> bool" where
  "line_separator w = (w = [CHR 0xE2, CHR 0x80, CHR 0xA8] \<or> w = [CHR 0xE2, CHR 0x80, CHR 0xA9])"

function json_esc :: "string \<Rightarrow> string" where
  "json_esc [] = []"
| "json_esc (a # s) =
     (let n = rune_len (a # s); w = take n (a # s)
      in if n = 0 then backslash # ''ufffd'' @ json_esc s
         else if n = 1 then esc_char a @ json_esc s
         else (if line_separator w then backslash # ''u202'' @ [hex_digit (cp (last w) mod 16)] else w)
           @ json_esc (drop (n - 1) s))"
  by pat_completeness auto
termination
  by (relation "measure length") auto

definition json_string :: "string \<Rightarrow> string" where
  "json_string s = quote # json_esc s @ [quote]"

text \<open>A struct of string fields: name, value, and whether an empty value is omitted.\<close>

definition json_fields :: "(string \<times> string \<times> bool) list \<Rightarrow> string list" where
  "json_fields fs =
     map (\<lambda>(name, v, _). quote # name @ [quote] @ '':'' @ json_string v)
       (filter (\<lambda>(_, v, omitempty). \<not> (omitempty \<and> v = [])) fs)"

definition json_struct :: "(string \<times> string \<times> bool) list \<Rightarrow> string" where
  "json_struct fs = ''{'' @ join_with (CHR '','') (json_fields fs) @ ''}''"

section \<open>Reading\<close>

datatype json = JNull | JBool bool | JNum string | JStr string | JArr "json list" | JObj "(string \<times> json) list"

definition json_ws :: "char \<Rightarrow> bool" where
  "json_ws c = (c = CHR '' '' \<or> cp c = 9 \<or> cp c = 10 \<or> cp c = 13)"

definition skip_ws :: "string \<Rightarrow> string" where
  "skip_ws s = dropWhile json_ws s"

definition hex_val :: "char \<Rightarrow> nat option" where
  "hex_val c =
     (if between 48 57 c then Some (cp c - 48)
      else if between 97 102 c then Some (cp c - 87)
      else if between 65 70 c then Some (cp c - 55)
      else None)"

fun hex4 :: "string \<Rightarrow> (nat \<times> string) option" where
  "hex4 (a # b # c # d # s) =
     (case (hex_val a, hex_val b, hex_val c, hex_val d) of
        (Some w, Some x, Some y, Some z) \<Rightarrow> Some (4096 * w + 256 * x + 16 * y + z, s)
      | _ \<Rightarrow> None)"
| "hex4 _ = None"

lemma hex4_length: "hex4 s = Some (r, t) \<Longrightarrow> length s = length t + 4"
  by (cases s rule: hex4.cases) (auto split: option.splits)

text \<open>The code point of an escape and of the low surrogate that may follow it.\<close>

definition unicode_escape :: "nat \<Rightarrow> string \<Rightarrow> string \<times> string" where
  "unicode_escape r s =
     (if r < 0xD800 \<or> 0xDFFF < r then (utf8 r, s)
      else
        (case s of
           b # u # t \<Rightarrow>
             (if b = backslash \<and> u = CHR ''u'' then
                (case hex4 t of
                   None \<Rightarrow> (replacement, s)
                 | Some (r2, t') \<Rightarrow>
                     if r < 0xDC00 \<and> 0xDC00 \<le> r2 \<and> r2 \<le> 0xDFFF
                     then (utf8 (0x10000 + (r - 0xD800) * 1024 + (r2 - 0xDC00)), t')
                     else (replacement, s))
              else (replacement, s))
         | _ \<Rightarrow> (replacement, s)))"

lemma unicode_escape_length: "length (snd (unicode_escape r s)) \<le> length s"
proof -
  have "length t' \<le> length t + 2" if "hex4 t = Some (x, t')" for t x t' using hex4_length [OF that] by simp
  then show ?thesis
    unfolding unicode_escape_def by (auto split: list.split option.split dest: hex4_length)
qed

definition simple_escape :: "char \<Rightarrow> string option" where
  "simple_escape e =
     (if e = quote \<or> e = backslash \<or> e = CHR ''/'' then Some [e]
      else if e = CHR ''b'' then Some [CHR 0x08]
      else if e = CHR ''f'' then Some [CHR 0x0C]
      else if e = CHR ''n'' then Some [CHR 0x0A]
      else if e = CHR ''r'' then Some [CHR 0x0D]
      else if e = CHR ''t'' then Some [CHR 0x09]
      else None)"

text \<open>A string literal after its opening quote: the value and what follows the closing quote.\<close>

function unquote :: "string \<Rightarrow> (string \<times> string) option" where
  "unquote [] = None"
| "unquote (a # s) =
     (if a = quote then Some ([], s)
      else if a = backslash then
        (case s of
           [] \<Rightarrow> None
         | e # t \<Rightarrow>
             (if e = CHR ''u'' then
                (case hex4 t of
                   None \<Rightarrow> None
                 | Some (r, t1) \<Rightarrow>
                     map_option (apfst (\<lambda>v. fst (unicode_escape r t1) @ v)) (unquote (snd (unicode_escape r t1))))
              else
                (case simple_escape e of
                   None \<Rightarrow> None
                 | Some w \<Rightarrow> map_option (apfst (\<lambda>v. w @ v)) (unquote t))))
      else if cp a < 0x20 then None
      else
        (let n = rune_len (a # s)
         in if n = 0 then map_option (apfst (\<lambda>v. replacement @ v)) (unquote s)
            else map_option (apfst (\<lambda>v. take n (a # s) @ v)) (unquote (drop (n - 1) s))))"
  by pat_completeness auto
termination
proof (relation "measure length", goal_cases)
  case (2 a s e t p r t1)
  then show ?case
    using unicode_escape_length [of r t1] hex4_length [of t r t1] by simp
qed auto

definition starts :: "(char \<Rightarrow> bool) \<Rightarrow> string \<Rightarrow> bool" where
  "starts P s = (case s of [] \<Rightarrow> False | c # _ \<Rightarrow> P c)"

text \<open>\<open>digits s\<close>: one or more digits and the rest.\<close>

definition digits :: "string \<Rightarrow> (string \<times> string) option" where
  "digits s = (if starts is_digit s then Some (takeWhile is_digit s, dropWhile is_digit s) else None)"

definition frac_part :: "string \<Rightarrow> (string \<times> string) option" where
  "frac_part s =
     (if starts (\<lambda>c. c = CHR ''.'') s then map_option (apfst (\<lambda>d. ''.'' @ d)) (digits (tl s)) else Some ([], s))"

definition exp_part :: "string \<Rightarrow> (string \<times> string) option" where
  "exp_part s =
     (if starts (\<lambda>c. c = CHR ''e'' \<or> c = CHR ''E'') s then
        (let t = tl s; sign = (if starts (\<lambda>c. c = CHR ''+'' \<or> c = CHR ''-'') t then 1 else 0)
         in map_option (apfst (\<lambda>d. hd s # take sign t @ d)) (digits (drop sign t)))
      else Some ([], s))"

definition number :: "string \<Rightarrow> (string \<times> string) option" where
  "number s =
     (let sign = (if starts (\<lambda>c. c = CHR ''-'') s then 1 else 0); t = drop sign s
      in case (if starts (\<lambda>c. c = CHR ''0'') t then Some (''0'', tl t) else digits t) of
           None \<Rightarrow> None
         | Some (i, t1) \<Rightarrow>
             (case frac_part t1 of
                None \<Rightarrow> None
              | Some (f, t2) \<Rightarrow>
                  map_option (apfst (\<lambda>e. take sign s @ i @ f @ e)) (exp_part t2)))"

text \<open>
  Values, with the depth of nesting so far (\<^verbatim>\<open>maxNestingDepth\<close> is 10000).  Every call uses one unit of
  fuel; twice the length of the text plus two is enough (\<open>json_fuel_enough\<close>).
\<close>

fun parse_value :: "nat \<Rightarrow> nat \<Rightarrow> string \<Rightarrow> (json \<times> string) option"
  and parse_elems :: "nat \<Rightarrow> nat \<Rightarrow> string \<Rightarrow> (json list \<times> string) option"
  and parse_members :: "nat \<Rightarrow> nat \<Rightarrow> string \<Rightarrow> ((string \<times> json) list \<times> string) option" where
  "parse_value 0 d s = None"
| "parse_value (Suc f) d s =
     (case skip_ws s of
        [] \<Rightarrow> None
      | c # r \<Rightarrow>
          if c = quote then map_option (apfst JStr) (unquote r)
          else if c = CHR ''{'' then
            (if d \<ge> 10000 then None
             else if starts (\<lambda>c. c = CHR ''}'') (skip_ws r) then Some (JObj [], tl (skip_ws r))
             else map_option (apfst JObj) (parse_members f (Suc d) r))
          else if c = CHR ''['' then
            (if d \<ge> 10000 then None
             else if starts (\<lambda>c. c = CHR '']'') (skip_ws r) then Some (JArr [], tl (skip_ws r))
             else map_option (apfst JArr) (parse_elems f (Suc d) r))
          else if HasPrefix (c # r) ''null'' then Some (JNull, drop 3 r)
          else if HasPrefix (c # r) ''true'' then Some (JBool True, drop 3 r)
          else if HasPrefix (c # r) ''false'' then Some (JBool False, drop 4 r)
          else map_option (apfst JNum) (number (c # r)))"
| "parse_elems 0 d s = None"
| "parse_elems (Suc f) d s =
     (case parse_value f d s of
        None \<Rightarrow> None
      | Some (v, r) \<Rightarrow>
          (case skip_ws r of
             [] \<Rightarrow> None
           | c # t \<Rightarrow>
               if c = CHR '']'' then Some ([v], t)
               else if c = CHR '','' then map_option (apfst (\<lambda>vs. v # vs)) (parse_elems f d t)
               else None))"
| "parse_members 0 d s = None"
| "parse_members (Suc f) d s =
     (case skip_ws s of
        [] \<Rightarrow> None
      | c # r \<Rightarrow>
          if c \<noteq> quote then None
          else
            (case unquote r of
               None \<Rightarrow> None
             | Some (k, r1) \<Rightarrow>
                 if \<not> starts (\<lambda>c. c = CHR '':'') (skip_ws r1) then None
                 else
                   (case parse_value f d (tl (skip_ws r1)) of
                      None \<Rightarrow> None
                    | Some (v, r2) \<Rightarrow>
                        (case skip_ws r2 of
                           [] \<Rightarrow> None
                         | c # t \<Rightarrow>
                             if c = CHR ''}'' then Some ([(k, v)], t)
                             else if c = CHR '','' then map_option (apfst (\<lambda>ms. (k, v) # ms)) (parse_members f d t)
                             else None))))"

definition json_parse :: "string \<Rightarrow> json option" where
  "json_parse s =
     (case parse_value (2 * length s + 2) 0 s of
        None \<Rightarrow> None
      | Some (v, r) \<Rightarrow> if skip_ws r = [] then Some v else None)"

text \<open>
  Decoding into a struct of string fields: the later of two members with the same name wins, a member
  without a field is ignored, null leaves a field as it is, and a value of another type makes the
  decoding fail in the end.  Names are compared after folding; the two runes that fold to ASCII
  letters are the long s and the Kelvin sign.
\<close>

fun fold_name :: "string \<Rightarrow> string" where
  "fold_name [] = []"
| "fold_name (a # s) =
     (if HasPrefix (a # s) [CHR 0xC5, CHR 0xBF] then CHR ''s'' # fold_name (drop 1 s)
      else if HasPrefix (a # s) [CHR 0xE2, CHR 0x84, CHR 0xAA] then CHR ''k'' # fold_name (drop 2 s)
      else ascii_lower a # fold_name s)"

fun decode_members :: "string list \<Rightarrow> (string \<times> json) list \<Rightarrow> (string \<Rightarrow> string) \<Rightarrow> bool \<times> (string \<Rightarrow> string)" where
  "decode_members names [] f = (True, f)"
| "decode_members names ((k, v) # ms) f =
     (if fold_name k \<notin> set names then decode_members names ms f
      else
        (case v of
           JNull \<Rightarrow> decode_members names ms f
         | JStr x \<Rightarrow> decode_members names ms (f(fold_name k := x))
         | _ \<Rightarrow> (False, snd (decode_members names ms f))))"

definition decode_struct :: "string list \<Rightarrow> string \<Rightarrow> (string \<Rightarrow> string) option" where
  "decode_struct names text =
     (case json_parse text of
        Some (JObj ms) \<Rightarrow>
          (case decode_members names ms (\<lambda>_. []) of (ok, f) \<Rightarrow> if ok then Some f else None)
      | Some JNull \<Rightarrow> Some (\<lambda>_. [])
      | _ \<Rightarrow> None)"

section \<open>What was written is read\<close>

lemma rune_len_ascii: "cp a < 0x80 \<Longrightarrow> rune_len (a # s) = 1"
  by (simp add: rune_len.simps)

lemma rune_len_1: "rune_len (a # s) = Suc 0 \<Longrightarrow> cp a < 0x80"
  by (auto simp: rune_len.simps split: if_splits list.splits)

lemma rune_len_multi: "rune_len (a # s) \<noteq> 0 \<Longrightarrow> rune_len (a # s) \<noteq> Suc 0 \<Longrightarrow> 0x80 \<le> cp a"
  using rune_len_ascii [of a s] by fastforce

text \<open>An encoding is recognised whatever follows it.\<close>

lemma rune_len_2: "rune_len (a # b # r) = 2 \<Longrightarrow> rune_len (a # b # t) = 2"
  by (auto simp: rune_len.simps split: if_splits list.splits)

lemma rune_len_3: "rune_len (a # b # c # r) = 3 \<Longrightarrow> rune_len (a # b # c # t) = 3"
  by (auto simp: rune_len.simps split: if_splits list.splits)

lemma rune_len_4: "rune_len (a # b # c # d # r) = 4 \<Longrightarrow> rune_len (a # b # c # d # t) = 4"
  by (auto simp: rune_len.simps split: if_splits list.splits)

lemma rune_len_append: "rune_len s \<noteq> 0 \<Longrightarrow> rune_len (take (rune_len s) s @ t) = rune_len s"
proof (cases s)
  case (Cons a s')
  assume n: "rune_len s \<noteq> 0"
  consider "cp a < 0x80" | b r where "s' = b # r" "rune_len s = 2" | b c r where "s' = b # c # r" "rune_len s = 3"
    | b c d r where "s' = b # c # d # r" "rune_len s = 4"
    using n Cons by (auto simp: rune_len.simps split: if_splits list.splits)
  then show ?thesis
  proof cases
    case 1
    then show ?thesis using Cons by (simp add: rune_len_ascii)
  next
    case (2 b r)
    then have "take (rune_len s) s @ t = a # b # t" using Cons by simp
    then show ?thesis using 2 Cons rune_len_2 [of a b r t] by simp
  next
    case (3 b c r)
    then have "take (rune_len s) s @ t = a # b # c # t" using Cons by simp
    then show ?thesis using 3 Cons rune_len_3 [of a b c r t] by simp
  next
    case (4 b c d r)
    then have "take (rune_len s) s @ t = a # b # c # d # t" using Cons by simp
    then show ?thesis using 4 Cons rune_len_4 [of a b c d r t] by simp
  qed
qed simp

lemma take_rune: "rune_len (a # s) \<noteq> 0 \<Longrightarrow> take (rune_len (a # s)) (a # s) = a # take (rune_len (a # s) - 1) s"
  by (cases "rune_len (a # s)") simp_all

lemma valid_to_valid: "valid_utf8 s \<Longrightarrow> to_valid s = s"
proof (induction s rule: to_valid.induct)
  case (2 a s)
  let ?n = "rune_len (a # s)"
  have n: "?n \<noteq> 0" "valid_utf8 (drop (?n - 1) s)" using 2(3) by simp_all
  have "to_valid (a # s) = take ?n (a # s) @ to_valid (drop (?n - 1) s)" using n(1) by (simp add: Let_def)
  also have "\<dots> = a # take (?n - 1) s @ drop (?n - 1) s" using 2(2) [OF refl n(1) n(2)] take_rune [OF n(1)] by simp
  finally show ?case by simp
qed simp

lemma append_fun: "(@) (a # w) = (\<lambda>v. a # w @ v)" "(@) [] = (\<lambda>v. v)"
  by (simp_all add: fun_eq_iff)

declare unquote.simps(2) [simp del] json_esc.simps(2) [simp del] to_valid.simps(2) [simp del]

lemma unquote_multi:
  assumes "rune_len (a # s) \<noteq> 0" "rune_len (a # s) \<noteq> 1"
  shows "unquote (take (rune_len (a # s)) (a # s) @ t) =
    map_option (apfst (\<lambda>v. take (rune_len (a # s)) (a # s) @ v)) (unquote t)"
proof -
  let ?n = "rune_len (a # s)"
  obtain w where w: "take ?n (a # s) = a # w" and l: "length w = ?n - 1"
    using take_rune [OF assms(1)] rune_len_bound(1) [of "a # s"] by auto
  have n: "rune_len (a # w @ t) = ?n" using rune_len_append [OF assms(1), of t] w by simp
  have a: "a \<noteq> quote" "a \<noteq> backslash" "\<not> cp a < 0x20"
    using rune_len_multi [of a s] assms by (auto simp: quote_def backslash_def)
  have "take ?n (a # w @ t) = a # w" "drop (?n - 1) (w @ t) = t"
    using l assms(1) by (simp_all add: take_Cons')
  then show ?thesis
    unfolding w using assms(1) a n by (simp add: unquote.simps Let_def append_fun)
qed

lemma hex_val_digit: "n < 16 \<Longrightarrow> hex_val (hex_digit n) = Some n"
proof -
  have "\<forall>n \<in> set [0..<16]. hex_val (hex_digit n) = Some n" by code_simp
  then show "n < 16 \<Longrightarrow> hex_val (hex_digit n) = Some n" by simp
qed

lemma hex_val_plain:
  "hex_val (CHR ''0'') = Some 0" "hex_val (CHR ''2'') = Some 2" "hex_val (CHR ''f'') = Some 15" "hex_val (CHR ''d'') = Some 13"
  by (simp_all add: hex_val_def between_def)

lemma unquote_unicode:
  assumes "hex4 (h @ t) = Some (r, t)" "r < 0xD800 \<or> 0xDFFF < r"
  shows "unquote (backslash # CHR ''u'' # h @ t) = map_option (apfst (\<lambda>v. utf8 r @ v)) (unquote t)"
  using assms by (simp add: unquote.simps unicode_escape_def quote_def backslash_def)

lemma char_code: "cp a = n \<Longrightarrow> a = char_of n"
  by auto

lemma unquote_char:
  assumes "cp a < 0x80"
  shows "unquote (esc_char a @ t) = map_option (apfst (\<lambda>v. a # v)) (unquote t)"
proof -
  have simple: "unquote (esc_char a @ t) = map_option (apfst (\<lambda>v. a # v)) (unquote t)"
    if "simple_escape e = Some [a]" "e \<noteq> CHR ''u''" "esc_char a = [backslash, e]" for e
    using that by (simp add: unquote.simps append_fun quote_def backslash_def)
  have ctl: "char_of (8::nat) = CHR 0x08" "char_of (12::nat) = CHR 0x0C" "char_of (10::nat) = CHR 0x0A"
    "char_of (13::nat) = CHR 0x0D" "char_of (9::nat) = CHR 0x09" by code_simp+
  consider "a = quote \<or> a = backslash" | "cp a = 8" | "cp a = 12" | "cp a = 10" | "cp a = 13" | "cp a = 9"
    | "a \<noteq> quote" "a \<noteq> backslash" "cp a \<notin> {8, 12, 10, 13, 9}" "cp a < 0x20 \<or> html_special a"
    | "a \<noteq> quote" "a \<noteq> backslash" "\<not> cp a < 0x20" "\<not> html_special a"
    by auto
  then show ?thesis
  proof cases
    case 1
    then show ?thesis using simple [of a] by (auto simp: esc_char_def simple_escape_def quote_def backslash_def)
  next
    case 2
    from char_code [OF this] show ?thesis
      using simple [of "CHR ''b''"] by (simp add: ctl esc_char_def simple_escape_def quote_def backslash_def)
  next
    case 3
    from char_code [OF this] show ?thesis
      using simple [of "CHR ''f''"] by (simp add: ctl esc_char_def simple_escape_def quote_def backslash_def)
  next
    case 4
    from char_code [OF this] show ?thesis
      using simple [of "CHR ''n''"] by (simp add: ctl esc_char_def simple_escape_def quote_def backslash_def)
  next
    case 5
    from char_code [OF this] show ?thesis
      using simple [of "CHR ''r''"] by (simp add: ctl esc_char_def simple_escape_def quote_def backslash_def)
  next
    case 6
    from char_code [OF this] show ?thesis
      using simple [of "CHR ''t''"] by (simp add: ctl esc_char_def simple_escape_def quote_def backslash_def)
  next
    case 7
    have "hex_val (hex_digit (cp a div 16)) = Some (cp a div 16)" "hex_val (hex_digit (cp a mod 16)) = Some (cp a mod 16)"
      using assms by (simp_all add: hex_val_digit)
    then have "hex4 ((''00'' @ [hex_digit (cp a div 16), hex_digit (cp a mod 16)]) @ t) = Some (cp a, t)"
      by (simp add: hex_val_plain)
    from unquote_unicode [OF this] have
      "unquote (backslash # CHR ''u'' # (''00'' @ [hex_digit (cp a div 16), hex_digit (cp a mod 16)]) @ t) =
        map_option (apfst (\<lambda>v. utf8 (cp a) @ v)) (unquote t)"
      using assms by simp
    moreover have "utf8 (cp a) = [a]" using assms by (simp add: utf8_def)
    moreover have "esc_char a = backslash # CHR ''u'' # ''00'' @ [hex_digit (cp a div 16), hex_digit (cp a mod 16)]"
      using 7 by (auto simp: esc_char_def)
    ultimately show ?thesis by (simp add: append_fun)
  next
    case 8
    then have "esc_char a = [a]" by (auto simp: esc_char_def)
    then show ?thesis using 8 rune_len_ascii [OF assms] by (simp add: unquote.simps Let_def append_fun)
  qed
qed

lemma utf8_points:
  "utf8 0xFFFD = replacement" "utf8 0x2028 = [CHR 0xE2, CHR 0x80, CHR 0xA8]" "utf8 0x2029 = [CHR 0xE2, CHR 0x80, CHR 0xA9]"
proof -
  have "map char_of [0xEF, 0xBF, 0xBD :: nat] = replacement"
    "map char_of [0xE2, 0x80, 0xA8 :: nat] = [CHR 0xE2, CHR 0x80, CHR 0xA8]"
    "map char_of [0xE2, 0x80, 0xA9 :: nat] = [CHR 0xE2, CHR 0x80, CHR 0xA9]" by code_simp+
  then show "utf8 0xFFFD = replacement" "utf8 0x2028 = [CHR 0xE2, CHR 0x80, CHR 0xA8]"
    "utf8 0x2029 = [CHR 0xE2, CHR 0x80, CHR 0xA9]" by (simp_all add: utf8_def)
qed

lemma unquote_separator:
  assumes "line_separator w"
  shows "unquote (backslash # ''u202'' @ [hex_digit (cp (last w) mod 16)] @ t) =
    map_option (apfst (\<lambda>v. w @ v)) (unquote t)"
proof -
  have "\<exists>r. hex4 (''202'' @ [hex_digit (cp (last w) mod 16)] @ t) = Some (r, t) \<and> r < 0xD800 \<and> utf8 r = w"
  proof -
    consider "w = [CHR 0xE2, CHR 0x80, CHR 0xA8]" | "w = [CHR 0xE2, CHR 0x80, CHR 0xA9]"
      using assms by (auto simp: line_separator_def)
    then show ?thesis
    proof cases
      case 1
      have "utf8 0x2028 = w" unfolding 1 by (rule utf8_points)
      moreover have "hex4 (''202'' @ [hex_digit (cp (last w) mod 16)] @ t) = Some (0x2028, t)"
        using hex_val_digit [of 8] unfolding 1 by (simp add: hex_val_plain)
      ultimately show ?thesis by (intro exI [of _ "0x2028"]) simp
    next
      case 2
      have "utf8 0x2029 = w" unfolding 2 by (rule utf8_points)
      moreover have "hex4 (''202'' @ [hex_digit (cp (last w) mod 16)] @ t) = Some (0x2029, t)"
        using hex_val_digit [of 9] unfolding 2 by (simp add: hex_val_plain)
      ultimately show ?thesis by (intro exI [of _ "0x2029"]) simp
    qed
  qed
  then obtain r where r: "hex4 ((''202'' @ [hex_digit (cp (last w) mod 16)]) @ t) = Some (r, t)" "r < 0xD800" "utf8 r = w"
    by auto
  show ?thesis using unquote_unicode [OF r(1)] r(2,3) by simp
qed

lemma to_valid_bad: "rune_len (a # s) = 0 \<Longrightarrow> to_valid (a # s) = replacement @ to_valid s"
  and to_valid_rune: "rune_len (a # s) \<noteq> 0 \<Longrightarrow>
    to_valid (a # s) = take (rune_len (a # s)) (a # s) @ to_valid (drop (rune_len (a # s) - 1) s)"
  by (simp_all only: to_valid.simps Let_def if_True if_False refl)

lemma json_esc_bad: "rune_len (a # s) = 0 \<Longrightarrow> json_esc (a # s) = backslash # ''ufffd'' @ json_esc s"
  and json_esc_ascii: "rune_len (a # s) = 1 \<Longrightarrow> json_esc (a # s) = esc_char a @ json_esc s"
  and json_esc_separator: "rune_len (a # s) \<noteq> 0 \<Longrightarrow> rune_len (a # s) \<noteq> 1 \<Longrightarrow>
    line_separator (take (rune_len (a # s)) (a # s)) \<Longrightarrow>
    json_esc (a # s) = backslash # ''u202'' @ [hex_digit (cp (last (take (rune_len (a # s)) (a # s))) mod 16)] @
      json_esc (drop (rune_len (a # s) - 1) s)"
  and json_esc_multi: "rune_len (a # s) \<noteq> 0 \<Longrightarrow> rune_len (a # s) \<noteq> 1 \<Longrightarrow>
    \<not> line_separator (take (rune_len (a # s)) (a # s)) \<Longrightarrow>
    json_esc (a # s) = take (rune_len (a # s)) (a # s) @ json_esc (drop (rune_len (a # s) - 1) s)"
  by (simp_all only: json_esc.simps Let_def if_True if_False append_Cons append_Nil append_assoc one_neq_zero refl)

lemma unquote_json_esc: "unquote (json_esc s @ quote # r) = Some (to_valid s, r)"
proof (induction "length s" arbitrary: s rule: less_induct)
  case less
  show ?case
  proof (cases s)
    case Nil
    then show ?thesis by (simp add: unquote.simps)
  next
    case (Cons a s')
    let ?n = "rune_len (a # s')" and ?w = "take (rune_len (a # s')) (a # s')"
    have IH: "unquote (json_esc (drop k s') @ quote # r) = Some (to_valid (drop k s'), r)" for k
      using less [of "drop k s'"] Cons by simp
    consider "?n = 0" | "?n = 1" | "?n \<noteq> 0" "?n \<noteq> 1" "line_separator ?w" | "?n \<noteq> 0" "?n \<noteq> 1" "\<not> line_separator ?w" by blast
    then show ?thesis
    proof cases
      case 1
      then have "json_esc s = backslash # CHR ''u'' # ''fffd'' @ json_esc s'" "to_valid s = replacement @ to_valid s'"
        using Cons by (simp_all add: json_esc_bad to_valid_bad)
      moreover have "hex4 (''fffd'' @ t) = Some (0xFFFD, t)" for t by (simp add: hex_val_plain)
      moreover note utf8_points(1)
      ultimately show ?thesis
        using IH [of 0] unquote_unicode [of "''fffd''" "json_esc s' @ quote # r" "0xFFFD"] by simp
    next
      case 2
      then have "json_esc s = esc_char a @ json_esc s'" "to_valid s = a # to_valid s'"
        using Cons by (simp_all add: json_esc_ascii to_valid_rune)
      then show ?thesis using IH [of 0] unquote_char [OF rune_len_1 [of a s']] 2 by simp
    next
      case 3
      then have "json_esc s = backslash # ''u202'' @ [hex_digit (cp (last ?w) mod 16)] @ json_esc (drop (?n - 1) s')"
        "to_valid s = ?w @ to_valid (drop (?n - 1) s')"
        using Cons by (simp_all only: json_esc_separator to_valid_rune not_False_eq_True)
      then show ?thesis using IH [of "?n - 1"] unquote_separator [OF 3(3)] by simp
    next
      case 4
      then have "json_esc s = ?w @ json_esc (drop (?n - 1) s')" "to_valid s = ?w @ to_valid (drop (?n - 1) s')"
        using Cons by (simp_all only: json_esc_multi to_valid_rune not_False_eq_True)
      then show ?thesis using IH [of "?n - 1"] unquote_multi [OF 4(1,2), of "json_esc (drop (?n - 1) s') @ quote # r"] by simp
    qed
  qed
qed

text \<open>Field names are printable ASCII and stand in the text as they are.\<close>

definition plain_name :: "string \<Rightarrow> bool" where
  "plain_name k = (\<forall>c \<in> set k. 0x20 \<le> cp c \<and> cp c < 0x80 \<and> c \<noteq> quote \<and> c \<noteq> backslash)"

lemma unquote_plain: "plain_name k \<Longrightarrow> unquote (k @ quote # r) = Some (k, r)"
proof (induction k)
  case (Cons c k)
  then have c: "cp c < 0x80" "\<not> cp c < 0x20" "c \<noteq> quote" "c \<noteq> backslash" and "plain_name k"
    by (auto simp: plain_name_def)
  then show ?case
    using Cons.IH rune_len_ascii [OF c(1)] by (simp add: unquote.simps Let_def)
qed (simp add: unquote.simps)

definition member_text :: "string \<times> string \<Rightarrow> string" where
  "member_text m = quote # fst m @ [quote] @ '':'' @ json_string (snd m)"

definition written :: "(string \<times> string \<times> bool) list \<Rightarrow> (string \<times> string) list" where
  "written fs = map (\<lambda>(k, v, _). (k, v)) (filter (\<lambda>(_, v, omitempty). \<not> (omitempty \<and> v = [])) fs)"

lemma json_fields_written: "json_fields fs = map member_text (written fs)"
  by (simp add: json_fields_def written_def member_text_def case_prod_beta)

definition member_value :: "string \<times> string \<Rightarrow> string \<times> json" where
  "member_value m = (fst m, JStr (to_valid (snd m)))"

lemma skip_ws_stop: "\<not> json_ws c \<Longrightarrow> skip_ws (c # s) = c # s"
  by (simp add: skip_ws_def)

lemma no_ws:
  "\<not> json_ws quote" "\<not> json_ws (CHR ''{'')" "\<not> json_ws (CHR ''}'')" "\<not> json_ws (CHR '','')" "\<not> json_ws (CHR '':'')"
  by (simp_all add: json_ws_def quote_def)

lemma parse_json_string: "parse_value (Suc f) d (json_string v @ r) = Some (JStr (to_valid v), r)"
  by (simp add: json_string_def skip_ws_stop no_ws unquote_json_esc)

lemma parse_member_text:
  assumes "plain_name (fst m)"
  shows "parse_members (Suc (Suc f)) d (member_text m @ c # r) =
    (case skip_ws (c # r) of
       [] \<Rightarrow> None
     | c # t \<Rightarrow>
         if c = CHR ''}'' then Some ([member_value m], t)
         else if c = CHR '','' then map_option (apfst (\<lambda>ms. member_value m # ms)) (parse_members (Suc f) d t)
         else None)"
proof -
  have t: "member_text m @ c # r = quote # fst m @ quote # CHR '':'' # json_string (snd m) @ c # r"
    by (simp add: member_text_def)
  show ?thesis
    unfolding t member_value_def
    by (subst parse_members.simps)
      (simp add: skip_ws_stop no_ws unquote_plain [OF assms] starts_def parse_json_string
        del: parse_value.simps parse_members.simps)
qed

lemma parse_written:
  assumes "ms \<noteq> []" "\<forall>m \<in> set ms. plain_name (fst m)" "length ms < f"
  shows "parse_members f d (join_with (CHR '','') (map member_text ms) @ CHR ''}'' # r) =
    Some (map member_value ms, r)"
  using assms
proof (induction ms arbitrary: f)
  case (Cons m ms)
  obtain f' where f: "f = Suc (Suc f')" using Cons.prems(3) by (cases f; cases "f - 1") auto
  have m: "plain_name (fst m)" using Cons.prems by simp
  show ?case
  proof (cases "ms = []")
    case True
    then show ?thesis
      unfolding f by (simp add: parse_member_text [OF m] skip_ws_stop no_ws del: parse_members.simps)
  next
    case False
    have IH: "parse_members (Suc f') d (join_with (CHR '','') (map member_text ms) @ CHR ''}'' # r) =
      Some (map member_value ms, r)"
      using Cons.IH [of "Suc f'"] False Cons.prems f by simp
    have t: "join_with (CHR '','') (map member_text (m # ms)) @ CHR ''}'' # r =
      member_text m @ CHR '','' # (join_with (CHR '','') (map member_text ms) @ CHR ''}'' # r)"
      using False by (simp add: join_with_Cons)
    show ?thesis
      unfolding t f by (simp add: parse_member_text [OF m] skip_ws_stop no_ws IH del: parse_members.simps)
  qed
qed simp

lemma join_length: "length ms \<le> Suc (length (join_with c (map member_text ms)))"
proof (induction ms)
  case (Cons m ms)
  then show ?case by (cases "ms = []") (simp_all add: join_with_Cons member_text_def)
qed simp

lemma quote_brace: "quote \<noteq> CHR ''}''" "CHR ''{'' \<noteq> quote"
  by (simp_all add: quote_def)

theorem json_parse_struct:
  assumes "\<forall>(k, _) \<in> set fs. plain_name k"
  shows "json_parse (json_struct fs) = Some (JObj (map member_value (written fs)))"
proof (cases "written fs = []")
  case True
  have "parse_value (Suc f) 0 ''{}'' = Some (JObj [], [])" for f
    by (subst parse_value.simps) (simp add: skip_ws_stop no_ws quote_def starts_def)
  from this [of 5] True show ?thesis
    by (simp add: json_parse_def json_struct_def json_fields_written skip_ws_def del: parse_value.simps)
next
  case False
  let ?ms = "written fs" and ?text = "json_struct fs"
  let ?body = "join_with (CHR '','') (map member_text (written fs)) @ ''}''"
  have names: "\<forall>m \<in> set ?ms. plain_name (fst m)" using assms by (auto simp: written_def)
  obtain b where b: "?body = quote # b"
    using False by (cases ?ms; cases "tl ?ms = []") (auto simp: member_text_def join_with_Cons)
  have "parse_value (2 * length ?text + 2) 0 ?text = map_option (apfst JObj) (parse_members (2 * length ?text + 1) 1 ?body)"
    by (simp add: json_struct_def json_fields_written skip_ws_stop no_ws starts_def del: parse_members.simps)
      (simp add: b [simplified] skip_ws_stop [OF no_ws(1)] quote_def [symmetric] quote_brace del: parse_members.simps)
  also have "parse_members (2 * length ?text + 1) 1 ?body = Some (map member_value ?ms, [])"
    using parse_written [OF False names, of "2 * length ?text + 1" 1 "[]"] join_length [of ?ms "CHR '',''"]
    by (simp add: json_struct_def json_fields_written)
  finally show ?thesis by (simp add: json_parse_def skip_ws_def)
qed

text \<open>What a decoder finds in the field \<open>k\<close>.\<close>

definition field_value :: "(string \<times> string \<times> bool) list \<Rightarrow> string \<Rightarrow> string" where
  "field_value fs k = (case map_of fs k of Some (v, _) \<Rightarrow> to_valid v | None \<Rightarrow> [])"

lemma decode_written:
  assumes "\<forall>m \<in> set ms. fold_name (fst m) = fst m \<and> fst m \<in> set names" "distinct (map fst ms)"
  shows "decode_members names (map member_value ms) f =
    (True, \<lambda>k. case map_of ms k of Some v \<Rightarrow> to_valid v | None \<Rightarrow> f k)"
  using assms
proof (induction ms arbitrary: f)
  case (Cons m ms)
  have "map_of ms (fst m) = None" using Cons.prems(2) by (simp add: map_of_eq_None_iff)
  have IH: "decode_members names (map member_value ms) (f(fst m := to_valid (snd m))) =
    (True, \<lambda>k. case map_of ms k of Some v \<Rightarrow> to_valid v | None \<Rightarrow> (f(fst m := to_valid (snd m))) k)"
    using Cons.prems by (intro Cons.IH) simp_all
  have "decode_members names (map member_value (m # ms)) f =
    decode_members names (map member_value ms) (f(fst m := to_valid (snd m)))"
    using Cons.prems(1) by (simp add: member_value_def)
  then show ?case
    unfolding IH using \<open>map_of ms (fst m) = None\<close> by (auto simp: fun_eq_iff split: option.split)
qed simp

lemma written_keys:
  shows "distinct (map fst fs) \<Longrightarrow> distinct (map fst (written fs))"
    and "set (map fst (written fs)) \<subseteq> set (map fst fs)"
proof -
  have "map fst (written fs) = map fst (filter (\<lambda>(_, v, omitempty). \<not> (omitempty \<and> v = [])) fs)"
    by (simp add: written_def case_prod_beta comp_def)
  then show "distinct (map fst fs) \<Longrightarrow> distinct (map fst (written fs))"
    "set (map fst (written fs)) \<subseteq> set (map fst fs)"
    by (auto simp: distinct_map_filter)
qed

lemma written_value:
  assumes "distinct (map fst fs)"
  shows "(case map_of (written fs) k of Some v \<Rightarrow> to_valid v | None \<Rightarrow> []) = field_value fs k"
  using assms
proof (induction fs)
  case (Cons x fs)
  obtain n v om where x: "x = (n, v, om)" by (cases x)
  have "map_of (written fs) n = None"
    using written_keys(2) [of fs] Cons.prems by (auto simp: x map_of_eq_None_iff)
  then show ?case
    using Cons by (auto simp: x written_def field_value_def split: option.split)
qed (simp add: written_def field_value_def)

theorem decode_json_struct:
  assumes "\<forall>k \<in> set (map fst fs). plain_name k \<and> fold_name k = k \<and> k \<in> set names" "distinct (map fst fs)"
  shows "decode_struct names (json_struct fs) = Some (field_value fs)"
proof -
  have "\<forall>(k, _) \<in> set fs. plain_name k" using assms(1) by fastforce
  from json_parse_struct [OF this] have "json_parse (json_struct fs) = Some (JObj (map member_value (written fs)))" .
  moreover have "decode_members names (map member_value (written fs)) (\<lambda>_. []) = (True, field_value fs)"
    using decode_written [of "written fs" names "\<lambda>_. []"] written_keys(1) [OF assms(2)] written_keys(2) [of fs] assms(1)
      written_value [OF assms(2)] by (force simp: fun_eq_iff)
  ultimately show ?thesis by (simp add: decode_struct_def)
qed

section \<open>What is written is clean\<close>

text \<open>JSON text is UTF-8, has no control character and nothing that HTML would read as markup.\<close>

definition clean_char :: "char \<Rightarrow> bool" where
  "clean_char c = (0x20 \<le> cp c \<and> \<not> html_special c)"

definition clean_text :: "string \<Rightarrow> bool" where
  "clean_text s = (valid_utf8 s \<and> list_all clean_char s)"

lemma valid_append: "valid_utf8 s \<Longrightarrow> valid_utf8 t \<Longrightarrow> valid_utf8 (s @ t)"
proof (induction s rule: valid_utf8.induct)
  case (2 a s)
  let ?n = "rune_len (a # s)"
  have n: "?n \<noteq> 0" and v: "valid_utf8 (drop (?n - 1) s)" using 2(2) by simp_all
  have split: "(a # s) @ t = take ?n (a # s) @ (drop ?n (a # s) @ t)" by (metis append_assoc append_take_drop_id)
  have "rune_len ((a # s) @ t) = ?n"
    unfolding split by (rule rune_len_append [OF n])
  moreover have "?n - 1 \<le> length s" using rune_len_bound(1) [of "a # s"] by simp
  ultimately show ?case using 2(1) [OF v 2(3)] n by simp
qed simp

lemma clean_append [intro]: "clean_text s \<Longrightarrow> clean_text t \<Longrightarrow> clean_text (s @ t)"
  by (simp add: clean_text_def valid_append)

lemma clean_Cons: "clean_char c \<Longrightarrow> cp c < 0x80 \<Longrightarrow> clean_text s \<Longrightarrow> clean_text (c # s)"
  using rune_len_ascii [of c s] by (simp add: clean_text_def)

lemma clean_Nil [simp, intro]: "clean_text []"
  by (simp add: clean_text_def)

lemma clean_ascii: "list_all (\<lambda>c. clean_char c \<and> cp c < 0x80) s \<Longrightarrow> clean_text s"
  by (induction s) (simp_all add: clean_Cons)

lemma hex_digit_clean: "n < 16 \<Longrightarrow> clean_char (hex_digit n) \<and> cp (hex_digit n) < 0x80"
proof -
  have "\<forall>n \<in> set [0..<16]. clean_char (hex_digit n) \<and> cp (hex_digit n) < 0x80" by code_simp
  then show "n < 16 \<Longrightarrow> clean_char (hex_digit n) \<and> cp (hex_digit n) < 0x80" by simp
qed

lemma clean_special: "clean_char quote" "clean_char backslash" "cp quote < 0x80" "cp backslash < 0x80"
  by (simp_all add: clean_char_def html_special_def quote_def backslash_def)

lemma esc_char_clean: "cp a < 0x80 \<Longrightarrow> clean_text (esc_char a)"
  using hex_digit_clean [of "cp a div 16"] hex_digit_clean [of "cp a mod 16"]
  unfolding esc_char_def
  by (intro clean_ascii) (auto simp: clean_special, auto simp: clean_char_def html_special_def)

lemma rune_bytes:
  assumes "rune_len (a # s) \<noteq> 0" "rune_len (a # s) \<noteq> 1"
  shows "\<forall>c \<in> set (take (rune_len (a # s)) (a # s)). 0x80 \<le> cp c"
proof -
  have a: "0x80 \<le> cp a" using rune_len_multi [of a s] assms by simp
  have high: "between 0x80 0xBF c \<Longrightarrow> 0x80 \<le> cp c" "between 0xA0 0xBF c \<Longrightarrow> 0x80 \<le> cp c" "between 0x90 0xBF c \<Longrightarrow> 0x80 \<le> cp c"
    "between 0x80 0x9F c \<Longrightarrow> 0x80 \<le> cp c" "between 0x80 0x8F c \<Longrightarrow> 0x80 \<le> cp c" for c
    by (simp_all add: between_def)
  have two: "0x80 \<le> cp b" if "rune_len (a # b # r) = 2" for b r
    using that by (auto simp: rune_len.simps split: if_splits list.splits dest: high)
  have three: "0x80 \<le> cp b \<and> 0x80 \<le> cp c" if "rune_len (a # b # c # r) = 3" for b c r
    using that by (auto simp: rune_len.simps split: if_splits list.splits dest: high)
  have four: "0x80 \<le> cp b \<and> 0x80 \<le> cp c \<and> 0x80 \<le> cp d" if "rune_len (a # b # c # d # r) = 4" for b c d r
    using that by (auto simp: rune_len.simps split: if_splits list.splits dest: high)
  consider b r where "s = b # r" "rune_len (a # s) = 2" | b c r where "s = b # c # r" "rune_len (a # s) = 3"
    | b c d r where "s = b # c # d # r" "rune_len (a # s) = 4"
    using assms by (auto simp: rune_len.simps split: if_splits list.splits)
  then show ?thesis by cases (use a two three four in fastforce)+
qed

lemma rune_clean:
  assumes "rune_len (a # s) \<noteq> 0" "rune_len (a # s) \<noteq> 1"
  shows "clean_text (take (rune_len (a # s)) (a # s))"
proof -
  let ?n = "rune_len (a # s)"
  have "rune_len (take ?n (a # s)) = ?n" using rune_len_append [OF assms(1), of "[]"] by simp
  then have "valid_utf8 (take ?n (a # s))" using assms(1) take_rune [OF assms(1)] by simp
  moreover have "clean_char c" if "c \<in> set (take ?n (a # s))" for c
    using rune_bytes [OF assms] that by (auto simp: clean_char_def html_special_def)
  ultimately show ?thesis by (simp add: clean_text_def list_all_iff)
qed

lemma json_esc_clean: "clean_text (json_esc s)"
proof (induction "length s" arbitrary: s rule: less_induct)
  case less
  show ?case
  proof (cases s)
    case (Cons a s')
    let ?n = "rune_len (a # s')" and ?w = "take (rune_len (a # s')) (a # s')"
    have IH: "clean_text (json_esc (drop k s'))" for k using less [of "drop k s'"] Cons by simp
    consider "?n = 0" | "?n = 1" | "?n \<noteq> 0" "?n \<noteq> 1" "line_separator ?w" | "?n \<noteq> 0" "?n \<noteq> 1" "\<not> line_separator ?w" by blast
    then show ?thesis
    proof cases
      case 1
      have "clean_text (backslash # ''ufffd'')"
        by (rule clean_ascii) (simp add: clean_special, simp add: clean_char_def html_special_def)
      from clean_append [OF this IH [of 0]] show ?thesis using json_esc_bad [OF 1] Cons by simp
    next
      case 2
      from clean_append [OF esc_char_clean IH [of 0]] show ?thesis using json_esc_ascii [OF 2] rune_len_1 [of a s'] 2 Cons by simp
    next
      case 3
      have "clean_text (backslash # ''u202'' @ [hex_digit (cp (last ?w) mod 16)])"
        using hex_digit_clean [of "cp (last ?w) mod 16"]
        by (intro clean_ascii) (simp add: clean_special, simp add: clean_char_def html_special_def)
      from clean_append [OF this IH] show ?thesis using json_esc_separator [OF 3] Cons by simp
    next
      case 4
      from clean_append [OF rune_clean [OF 4(1,2)] IH] show ?thesis using json_esc_multi [OF 4] Cons by simp
    qed
  qed simp
qed

lemma join_clean: "list_all clean_text ps \<Longrightarrow> clean_text (join_with (CHR '','') ps)"
proof (induction ps)
  case (Cons p ps)
  have "clean_char (CHR '','')" by (simp add: clean_char_def html_special_def)
  with Cons show ?case by (cases "ps = []") (auto simp: join_with_Cons intro!: clean_Cons clean_append)
qed simp

theorem json_struct_clean:
  assumes "list_all (\<lambda>k. list_all (\<lambda>c. clean_char c \<and> cp c < 0x80) k) (map fst fs)"
  shows "clean_text (json_struct fs)"
proof -
  have punct: "clean_char (CHR ''{'')" "clean_char (CHR ''}'')" "clean_char (CHR '':'')"
    by (simp_all add: clean_char_def html_special_def)
  have "clean_text (member_text m)" if "m \<in> set (written fs)" for m
  proof -
    have "fst m \<in> set (map fst fs)" using that written_keys(2) [of fs] by auto
    then have "clean_text (fst m)" using assms by (auto simp: list_all_iff intro: clean_ascii)
    then show ?thesis
      unfolding member_text_def json_string_def
      by (auto intro!: clean_Cons clean_append simp: clean_special punct json_esc_clean)
  qed
  then have "clean_text (join_with (CHR '','') (map member_text (written fs)))"
    by (intro join_clean) (simp add: list_all_iff)
  then show ?thesis
    unfolding json_struct_def json_fields_written by (auto intro!: clean_Cons clean_append simp: punct)
qed

section \<open>The fuel is enough\<close>

lemma skip_ws_length: "length (skip_ws s) \<le> length s"
  by (simp add: skip_ws_def length_dropWhile_le)

lemma unquote_length: "unquote s = Some (v, r) \<Longrightarrow> length r < length s"
proof (induction s arbitrary: v r rule: unquote.induct)
  case (2 a s)
  show ?case
  proof -
    note prems = 2
    consider "a = quote" | "a \<noteq> quote" "a = backslash" | "a \<noteq> quote" "a \<noteq> backslash" by blast
    then show ?thesis
    proof cases
      case 1
      then show ?thesis using prems(5) by (simp add: unquote.simps)
    next
      case 2
      then obtain e t where s: "s = e # t" using prems(5) by (cases s) (auto simp: unquote.simps)
      show ?thesis
      proof (cases "e = CHR ''u''")
        case True
        then obtain q t1 where h: "hex4 t = Some (q, t1)"
          using prems(5) 2 s by (auto simp: unquote.simps split: option.splits)
        then obtain v' where "unquote (snd (unicode_escape q t1)) = Some (v', r)"
          using prems(5) 2 s True by (auto simp: unquote.simps)
        from prems(1) [OF 2 s True h refl this] show ?thesis
          using unicode_escape_length [of q t1] hex4_length [OF h] s by simp
      next
        case False
        then obtain w v' where w: "simple_escape e = Some w" "unquote t = Some (v', r)"
          using prems(5) 2 s by (auto simp: unquote.simps split: option.splits)
        from prems(2) [OF 2 s False w] show ?thesis using s by simp
      qed
    next
      case 3
      then show ?thesis
        using prems(3) [OF 3] prems(4) [OF 3] prems(5)
        by (force simp: unquote.simps Let_def split: if_splits)
    qed
  qed
qed (simp add: unquote.simps)

lemma digits_length: "digits s = Some (d, r) \<Longrightarrow> length r < length s"
  by (cases s) (auto simp: digits_def starts_def le_imp_less_Suc length_dropWhile_le split: if_splits)

lemma frac_length: "frac_part s = Some (d, r) \<Longrightarrow> length r \<le> length s"
  by (cases s) (auto simp: frac_part_def starts_def split: if_splits dest!: digits_length)

lemma exp_length: "exp_part s = Some (d, r) \<Longrightarrow> length r \<le> length s"
  by (cases s) (auto simp: exp_part_def starts_def Let_def split: if_splits dest!: digits_length)

lemma number_length:
  assumes "number s = Some (d, r)" shows "length r < length s"
proof -
  let ?sign = "if starts (\<lambda>c. c = CHR ''-'') s then 1 else 0 :: nat"
  let ?t = "drop ?sign s"
  obtain i t1 where i: "(if starts (\<lambda>c. c = CHR ''0'') ?t then Some (''0'', tl ?t) else digits ?t) = Some (i, t1)"
    using assms by (auto simp: number_def Let_def split: option.splits if_splits)
  have "length t1 < length ?t"
    using i digits_length [of ?t i t1] length_tl [of ?t]
    by (cases "?t = []") (auto simp: starts_def digits_def split: if_splits)
  moreover obtain f t2 where f: "frac_part t1 = Some (f, t2)"
    using assms i by (auto simp: number_def Let_def split: option.splits)
  moreover obtain e where "exp_part t2 = Some (e, r)"
    using assms i f by (auto simp: number_def Let_def split: option.splits)
  ultimately show ?thesis
    using frac_length [of t1 f t2] exp_length [of t2 e r] by (simp split: if_splits)
qed

lemma skip_ws_Cons: "skip_ws s = c # r \<Longrightarrow> length r < length s"
  using skip_ws_length [of s] by simp

lemma parse_length:
  shows parse_value_length: "parse_value f d s = Some (v, r) \<Longrightarrow> length r < length s"
    and parse_elems_length: "parse_elems f d s = Some (vs, r) \<Longrightarrow> length r < length s"
    and parse_members_length: "parse_members f d s = Some (ms, r) \<Longrightarrow> length r < length s"
proof (induction f d s and f d s and f d s arbitrary: v r and vs r and ms r rule: parse_value_parse_elems_parse_members.induct)
  case (2 f d s)
  then obtain c t where s: "skip_ws s = c # t" by (cases "skip_ws s") auto
  have t: "length t < length s" by (rule skip_ws_Cons [OF s])
  have tail: "length (tl (skip_ws t)) \<le> length t" using skip_ws_length [of t] by simp
  show ?case
    using 2(3) t tail 2(1) [OF s] 2(2) [OF s] unquote_length [of t] number_length [of "c # t"]
    by (auto simp: s split: if_splits)
next
  case (4 f d s)
  then obtain v1 r1 where v1: "parse_value f d s = Some (v1, r1)" by (auto split: option.splits)
  have r1: "length r1 < length s" using 4(1) [OF v1] .
  obtain c t where t: "skip_ws r1 = c # t" using 4(3) v1 by (cases "skip_ws r1") auto
  show ?case
    using 4(3) 4(2) [OF v1 refl t] r1 skip_ws_Cons [OF t] v1 t by (auto split: if_splits)
next
  case (6 f d s)
  then obtain c t where s: "skip_ws s = c # t" by (cases "skip_ws s") auto
  then have c: "c = quote" using 6(3) by (auto split: if_splits)
  obtain k r1 where k: "unquote t = Some (k, r1)" using 6(3) s c by (auto split: option.splits)
  have colon: "starts (\<lambda>c. c = CHR '':'') (skip_ws r1)" using 6(3) s c k by (auto split: if_splits)
  obtain v r2 where v: "parse_value f d (tl (skip_ws r1)) = Some (v, r2)"
    using 6(3) s c k colon by (auto split: option.splits)
  obtain c' t' where t': "skip_ws r2 = c' # t'" using 6(3) s c k colon v by (cases "skip_ws r2") auto
  have "length t' < length s"
    using skip_ws_Cons [OF s] unquote_length [OF k] 6(1) [OF s _ k refl _ v] c colon skip_ws_length [of r1] skip_ws_Cons [OF t']
    by fastforce
  then show ?case
    using 6(3) 6(2) [OF s _ k refl _ v refl t'] s c k colon v t' by (auto split: if_splits)
qed simp_all

text \<open>
  A longer text is parsed with the same result by any two amounts of fuel above the bound: the
  parsers call one another on what is left of the text.
\<close>

definition fuel_free :: "nat \<Rightarrow> bool" where
  "fuel_free n =
     (\<forall>s f g d. length s < n \<longrightarrow>
        (2 * length s < f \<longrightarrow> 2 * length s < g \<longrightarrow> parse_value f d s = parse_value g d s) \<and>
        (2 * length s + 1 < f \<longrightarrow> 2 * length s + 1 < g \<longrightarrow> parse_elems f d s = parse_elems g d s) \<and>
        (2 * length s + 1 < f \<longrightarrow> 2 * length s + 1 < g \<longrightarrow> parse_members f d s = parse_members g d s))"

lemma fuel_freeD:
  assumes "fuel_free n" "length s < n"
  shows "2 * length s < f \<Longrightarrow> 2 * length s < g \<Longrightarrow> parse_value f d s = parse_value g d s"
    and "2 * length s + 1 < f \<Longrightarrow> 2 * length s + 1 < g \<Longrightarrow> parse_elems f d s = parse_elems g d s"
    and "2 * length s + 1 < f \<Longrightarrow> 2 * length s + 1 < g \<Longrightarrow> parse_members f d s = parse_members g d s"
  using assms unfolding fuel_free_def by blast+

lemma fuel_free_value:
  assumes "fuel_free (length s)" "2 * length s < f" "2 * length s < g"
  shows "parse_value f d s = parse_value g d s"
proof -
  obtain f' g' where fg: "f = Suc f'" "g = Suc g'" using assms(2,3) by (cases f; cases g) auto
  show ?thesis
  proof (cases "skip_ws s")
    case (Cons c r)
    have "length r < length s" by (rule skip_ws_Cons [OF Cons])
    then have "parse_elems f' (Suc d) r = parse_elems g' (Suc d) r" "parse_members f' (Suc d) r = parse_members g' (Suc d) r"
      using fuel_freeD(2,3) [OF assms(1), of r f' g' "Suc d"] assms(2,3) fg by simp_all
    then show ?thesis unfolding fg by (simp add: Cons)
  qed (simp add: fg)
qed

lemma fuel_free_rest:
  assumes "fuel_free (length s)" "2 * length s + 1 < f" "2 * length s + 1 < g"
  shows "parse_elems f d s = parse_elems g d s" and "parse_members f d s = parse_members g d s"
proof -
  obtain f' g' where fg: "f = Suc f'" "g = Suc g'" using assms(2,3) by (cases f; cases g) auto
  have rest: "parse_elems f' d t = parse_elems g' d t \<and> parse_members f' d t = parse_members g' d t"
    if "length t < length s" for t
    using fuel_freeD(2,3) [OF assms(1) that, of f' g' d] that assms(2,3) fg by simp
  have v: "parse_value f' d s = parse_value g' d s"
    using fuel_free_value [OF assms(1), of f' g' d] assms(2,3) fg by simp
  show "parse_elems f d s = parse_elems g d s"
  proof (cases "parse_value g' d s")
    case (Some p)
    obtain w r where p: "p = (w, r)" by (cases p)
    have "length r < length s" using parse_value_length Some p by simp
    then show ?thesis
      using rest skip_ws_Cons [of r] unfolding fg
      by (auto simp: v Some p split: list.split)
  qed (simp add: fg v)
  show "parse_members f d s = parse_members g d s"
  proof (cases "skip_ws s")
    case (Cons c r)
    show ?thesis
    proof (cases "c = quote \<and> (\<exists>k r1. unquote r = Some (k, r1) \<and> starts (\<lambda>c. c = CHR '':'') (skip_ws r1))")
      case True
      then obtain k r1 where k: "c = quote" "unquote r = Some (k, r1)" "starts (\<lambda>c. c = CHR '':'') (skip_ws r1)" by auto
      let ?u = "tl (skip_ws r1)"
      have u: "length ?u < length s"
        using skip_ws_Cons [OF Cons] unquote_length [OF k(2)] skip_ws_length [of r1] by simp
      have w: "parse_value f' d ?u = parse_value g' d ?u"
        using fuel_freeD(1) [OF assms(1) u, of f' g' d] u assms(2,3) fg by simp
      show ?thesis
      proof (cases "parse_value g' d ?u")
        case (Some p)
        obtain x r2 where p: "p = (x, r2)" by (cases p)
        have "length r2 < length s" using parse_value_length [of g' d ?u x r2] Some p u by simp
        then show ?thesis
          using rest skip_ws_Cons [of r2] k w unfolding fg
          by (auto simp: Cons Some p split: list.split)
      qed (simp add: fg Cons k w)
    qed (auto simp: fg Cons split: option.split)
  qed (simp add: fg)
qed

lemma fuel_free_all: "fuel_free n"
proof (induction n)
  case (Suc n)
  have *: "fuel_free (length s)" if "length s < Suc n" for s :: string
    using Suc that unfolding fuel_free_def by (meson less_trans_Suc less_Suc_eq_le order_less_le_trans)
  show ?case
    unfolding fuel_free_def
  proof (intro allI impI conjI)
    fix s :: string and f g d
    assume s: "length s < Suc n"
    show "2 * length s < f \<Longrightarrow> 2 * length s < g \<Longrightarrow> parse_value f d s = parse_value g d s"
      by (rule fuel_free_value [OF * [OF s]])
    show "2 * length s + 1 < f \<Longrightarrow> 2 * length s + 1 < g \<Longrightarrow> parse_elems f d s = parse_elems g d s"
      and "2 * length s + 1 < f \<Longrightarrow> 2 * length s + 1 < g \<Longrightarrow> parse_members f d s = parse_members g d s"
      by (rule fuel_free_rest [OF * [OF s]]; assumption)+
  qed
qed (simp add: fuel_free_def)

theorem json_fuel_enough:
  assumes "2 * length s < f"
  shows "json_parse s =
    (case parse_value f 0 s of None \<Rightarrow> None | Some (v, r) \<Rightarrow> if skip_ws r = [] then Some v else None)"
  unfolding json_parse_def using fuel_free_value [OF fuel_free_all assms, of "2 * length s + 2" 0] by simp

end
