(* ===== verification/Wire.thy ===== *)
theory Wire
  imports Web_Api Json
begin

text \<open>
  The text that crosses the program's connections: the JSON of the structs of
  \<^verbatim>\<open>internal/server/wss.go\<close> (\<^verbatim>\<open>wsIncoming\<close>, \<^verbatim>\<open>wsOutgoing\<close>, the authentication) and of
  \<^verbatim>\<open>BusMessage\<close> of \<^verbatim>\<open>internal/server/bus.go\<close>, with \<^verbatim>\<open>Receive\<close> and \<^verbatim>\<open>NewRedisMessageBus\<close> of
  \<^verbatim>\<open>internal/server/redis_bus.go\<close> and \<^verbatim>\<open>decodeJSONBody\<close> of \<^verbatim>\<open>internal/server/web.go\<close>.  Marshalling a struct
  of strings cannot fail.
\<close>

section \<open>Definitions\<close>

text \<open>The fields in the order of the struct, with their tags (the flag is \<^verbatim>\<open>omitempty\<close>).\<close>

definition bus_fields :: "BusMessage \<Rightarrow> (string \<times> string \<times> bool) list" where
  "bus_fields m =
     [(''origin_id'', bm_OriginID m, False), (''type'', bm_Type m, False), (''from'', bm_From m, True),
      (''to'', bm_To m, True), (''avatar'', bm_Avatar m, True), (''content'', bm_Content m, False),
      (''time'', bm_Time m, True)]"

definition bus_marshal :: "BusMessage \<Rightarrow> string" where
  "bus_marshal m = json_struct (bus_fields m)"

definition bus_of_fields :: "(string \<Rightarrow> string) \<Rightarrow> BusMessage" where
  "bus_of_fields f =
     \<lparr>bm_OriginID = f ''origin_id'', bm_Type = f ''type'', bm_From = f ''from'', bm_To = f ''to'',
      bm_Avatar = f ''avatar'', bm_Content = f ''content'', bm_Time = f ''time''\<rparr>"

definition bus_names :: "string list" where
  "bus_names = [''origin_id'', ''type'', ''from'', ''to'', ''avatar'', ''content'', ''time'']"

text \<open>
  \<^verbatim>\<open>Receive\<close>: the result of \<^verbatim>\<open>ReceiveMessage\<close> is an error or a payload.  (The text of a JSON error,
  which only the log shows, is left out.)
\<close>

definition Receive :: "string res \<Rightarrow> BusMessage res" where
  "Receive r =
     (case r of
        Inl e \<Rightarrow> Inl e
      | Inr payload \<Rightarrow>
          (case decode_struct bus_names payload of
             None \<Rightarrow> Inl ''bus unmarshal error''
           | Some f \<Rightarrow> Inr (bus_of_fields f)))"

text \<open>
  \<^verbatim>\<open>NewRedisMessageBus\<close>: the results of the ping and of the first receive on the subscription.  The
  result is the bus, with nothing published yet, and whether the client was closed again.
\<close>

definition NewRedisMessageBus :: "unit res \<Rightarrow> unit res \<Rightarrow> BusMessage list res \<times> bool" where
  "NewRedisMessageBus ping subscribe =
     (case ping of
        Inl e \<Rightarrow> (Inl (''redis bus ping failed: '' @ e), True)
      | Inr _ \<Rightarrow>
          (case subscribe of
             Inl e \<Rightarrow> (Inl (''redis bus subscribe failed: '' @ e), True)
           | Inr _ \<Rightarrow> (Inr [], False)))"

text \<open>\<^verbatim>\<open>Close\<close>: the error of the subscription if it has one, else that of the client; both are closed.\<close>

definition busClose :: "string option \<Rightarrow> string option \<Rightarrow> string option" where
  "busClose pubsub client = (case pubsub of Some err \<Rightarrow> Some err | None \<Rightarrow> client)"

definition ws_fields :: "wsOutgoing \<Rightarrow> (string \<times> string \<times> bool) list" where
  "ws_fields m =
     [(''type'', wo_Type m, False), (''mode'', wo_Mode m, True), (''from'', wo_From m, True), (''to'', wo_To m, True),
      (''group'', wo_Group m, True), (''avatar'', wo_Avatar m, True), (''content'', wo_Content m, False),
      (''time'', wo_Time m, True)]"

text \<open>What \<^verbatim>\<open>writeWS\<close> puts into the queue: a text frame.\<close>

definition ws_marshal :: "wsOutgoing \<Rightarrow> string" where
  "ws_marshal m = json_struct (ws_fields m)"

definition ws_unmarshal :: "string \<Rightarrow> wsIncoming option" where
  "ws_unmarshal text =
     (case decode_struct [''type'', ''mode'', ''to'', ''message''] text of
        None \<Rightarrow> None
      | Some f \<Rightarrow> Some \<lparr>wi_Type = f ''type'', wi_Mode = f ''mode'', wi_To = f ''to'', wi_Message = f ''message''\<rparr>)"

definition auth_unmarshal :: "string \<Rightarrow> (string \<times> string) option" where
  "auth_unmarshal text =
     (case decode_struct [''type'', ''token''] text of
        None \<Rightarrow> None
      | Some f \<Rightarrow> Some (f ''type'', f ''token''))"

text \<open>
  The two reads of \<^verbatim>\<open>handleWebSocket\<close>.  The first message authenticates; later ones are turns of the
  read loop, and a failing read ends the connection.  A read fails, among others, when the
  message is longer than the limit of 65536 bytes that \<^verbatim>\<open>SetReadLimit\<close> set.
\<close>

definition ws_first :: "env \<Rightarrow> string \<Rightarrow> string res \<Rightarrow> Server \<Rightarrow> ws_start \<times> Server" where
  "ws_first ev ip r s =
     ws_connect ev ip (case r of Inl _ \<Rightarrow> None | Inr text \<Rightarrow> Some (auth_unmarshal text)) s"

definition ws_turn :: "env \<Rightarrow> nat \<Rightarrow> string \<Rightarrow> string res \<Rightarrow> Server \<Rightarrow> Server option" where
  "ws_turn ev a username r s =
     (case r of
        Inl _ \<Rightarrow> Some (ws_end a username s)
      | Inr text \<Rightarrow> ws_frame ev a (ws_unmarshal text) s)"

text \<open>
  \<^verbatim>\<open>decodeJSONBody\<close> for a struct of string fields with the given names: the decoder reads the first
  JSON value of the body, of which it sees at most 1 MB, and leaves the rest.
\<close>

definition decodeJSONBody :: "string \<Rightarrow> string list \<Rightarrow> (string \<Rightarrow> string) option" where
  "decodeJSONBody body names =
     (let text = take (2 ^ 20) body
      in case parse_value (2 * length text + 2) 0 text of
           Some (JObj ms, _) \<Rightarrow>
             (case decode_members (map fold_name names) ms (\<lambda>_. []) of
                (ok, f) \<Rightarrow> if ok then Some (\<lambda>k. f (fold_name k)) else None)
         | Some (JNull, _) \<Rightarrow> Some (\<lambda>_. [])
         | _ \<Rightarrow> None)"

definition http_request :: "string \<Rightarrow> string \<Rightarrow> (string \<Rightarrow> string) \<Rightarrow> (string \<Rightarrow> string) \<Rightarrow> string \<Rightarrow> string \<Rightarrow> request" where
  "http_request method path query header addr body =
     \<lparr>rq_Method = method, rq_Path = path, rq_Query = query, rq_Header = header, rq_RemoteAddr = addr,
      rq_decode = decodeJSONBody body\<rparr>"

section \<open>Lemmas\<close>

definition bus_valid :: "BusMessage \<Rightarrow> BusMessage" where
  "bus_valid m =
     \<lparr>bm_OriginID = to_valid (bm_OriginID m), bm_Type = to_valid (bm_Type m), bm_From = to_valid (bm_From m),
      bm_To = to_valid (bm_To m), bm_Avatar = to_valid (bm_Avatar m), bm_Content = to_valid (bm_Content m),
      bm_Time = to_valid (bm_Time m)\<rparr>"

lemma fold_lower: "\<forall>c \<in> set k. cp c < 0x80 \<and> ascii_lower c = c \<Longrightarrow> fold_name k = k"
proof (induction k)
  case (Cons c k)
  have "c \<noteq> CHR 0xC5" "c \<noteq> CHR 0xE2" using Cons.prems by auto
  then show ?case using Cons by (simp add: HasPrefix_def)
qed simp

definition field_name :: "string \<Rightarrow> bool" where
  "field_name k = list_all (\<lambda>c. 0x5F \<le> cp c \<and> cp c < 0x80) k"

lemma field_name_ok: "field_name k \<Longrightarrow> plain_name k \<and> fold_name k = k"
proof
  assume *: "field_name k"
  then show "plain_name k" by (fastforce simp: field_name_def list_all_iff plain_name_def quote_def backslash_def)
  show "fold_name k = k"
    using * by (intro fold_lower) (auto simp: field_name_def list_all_iff ascii_lower_def)
qed

lemma decode_fields:
  assumes "list_all field_name (map fst fs)" "distinct (map fst fs)" "set (map fst fs) \<subseteq> set names"
  shows "decode_struct names (json_struct fs) = Some (field_value fs)"
  using assms by (intro decode_json_struct) (auto simp: list_all_iff dest: field_name_ok)

text \<open>A body is read to the end of its object, whatever follows, if that is within the limit.\<close>

lemma parse_struct_rest:
  assumes "\<forall>(k, _) \<in> set fs. plain_name k" "2 * length (json_struct fs) < n"
  shows "parse_value (Suc n) 0 (json_struct fs @ rest) = Some (JObj (map member_value (written fs)), rest)"
proof (cases "written fs = []")
  case True
  then show ?thesis
    by (simp add: json_struct_def json_fields_written skip_ws_stop no_ws quote_brace starts_def)
next
  case False
  let ?ms = "written fs" and ?body = "join_with (CHR '','') (map member_text (written fs)) @ CHR ''}'' # rest"
  have names: "\<forall>m \<in> set ?ms. plain_name (fst m)" using assms(1) by (auto simp: written_def)
  obtain b where b: "?body = quote # b"
    using False by (cases ?ms; cases "tl ?ms = []") (auto simp: member_text_def join_with_Cons)
  have "parse_value (Suc n) 0 (json_struct fs @ rest) = map_option (apfst JObj) (parse_members n 1 ?body)"
    by (simp add: json_struct_def json_fields_written skip_ws_stop no_ws starts_def del: parse_members.simps)
      (simp add: b skip_ws_stop [OF no_ws(1)] quote_brace del: parse_members.simps)
  moreover have "length ?ms < n"
    using assms(2) join_length [of ?ms "CHR '',''"] by (simp add: json_struct_def json_fields_written)
  ultimately show ?thesis using parse_written [OF False names, of n 1 rest] by simp
qed

lemma decodeJSONBody_struct:
  assumes "list_all field_name (map fst fs)" "distinct (map fst fs)" "set (map fst fs) \<subseteq> fold_name ` set names"
    "length (json_struct fs) \<le> 2 ^ 20"
  shows "\<exists>f. decodeJSONBody (json_struct fs @ rest) names = Some f \<and> (\<forall>k. f k = field_value fs (fold_name k))"
proof -
  let ?text = "take (2 ^ 20) (json_struct fs @ rest)"
  have t: "?text = json_struct fs @ take (2 ^ 20 - length (json_struct fs)) rest" using assms(4) by simp
  have ok: "\<forall>k \<in> set (map fst fs). plain_name k \<and> fold_name k = k"
    using assms(1) by (auto simp: list_all_iff dest: field_name_ok)
  then have p: "\<forall>(k, _) \<in> set fs. plain_name k" by fastforce
  have "parse_value (2 * length ?text + 2) 0 ?text =
    Some (JObj (map member_value (written fs)), take (2 ^ 20 - length (json_struct fs)) rest)"
    unfolding t using parse_struct_rest [OF p, of "2 * length (json_struct fs @ take (2 ^ 20 - length (json_struct fs)) rest) + 1"]
    by simp
  moreover have "decode_members (map fold_name names) (map member_value (written fs)) (\<lambda>_. []) = (True, field_value fs)"
    using decode_written [of "written fs" "map fold_name names" "\<lambda>_. []"] written_keys(1) [OF assms(2)]
      written_keys(2) [of fs] ok assms(3) written_value [OF assms(2)] by (force simp: fun_eq_iff)
  ultimately have "decodeJSONBody (json_struct fs @ rest) names = Some (\<lambda>k. field_value fs (fold_name k))"
    unfolding decodeJSONBody_def Let_def by (simp only: option.case json.case prod.case if_True)
  then show ?thesis by simp
qed

lemma Receive_marshal: "Receive (Inr (bus_marshal m)) = Inr (bus_valid m)"
proof -
  have "decode_struct bus_names (json_struct (bus_fields m)) = Some (field_value (bus_fields m))"
    by (rule decode_fields) (simp_all add: bus_fields_def bus_names_def field_name_def)
  then show ?thesis
    by (simp add: Receive_def bus_marshal_def bus_of_fields_def bus_valid_def field_value_def bus_fields_def)
qed

definition bus_texts :: "BusMessage \<Rightarrow> string list" where
  "bus_texts m = map (\<lambda>(_, v, _). v) (bus_fields m)"

lemma bus_valid_id: "list_all valid_utf8 (bus_texts m) \<Longrightarrow> bus_valid m = m"
  by (simp add: bus_texts_def bus_fields_def bus_valid_def valid_to_valid)

section \<open>Properties\<close>

text \<open>
  C13. A bus message that one server writes is read by another as it was: \<^verbatim>\<open>Receive\<close> decodes what
  \<^verbatim>\<open>Publish\<close> encoded, whatever quotes, control characters or markup the fields hold and
  whichever empty fields were omitted.  Only bytes that are no UTF-8 change: each becomes the
  replacement character.
\<close>

theorem bus_message_roundtrip:
  "Receive (Inr (bus_marshal m)) = Inr (bus_valid m)
    \<and> (list_all valid_utf8 (bus_texts m) \<longrightarrow> Receive (Inr (bus_marshal m)) = Inr m)"
  using Receive_marshal bus_valid_id by simp

definition quoted_message :: BusMessage where
  "quoted_message =
     \<lparr>bm_OriginID = ''0a'', bm_Type = ''public'', bm_From = ''bob'', bm_To = [], bm_Avatar = [],
      bm_Content = ''<b>'' @ [quote, CHR 0x0A, CHR 0xE4, CHR 0xBD, CHR 0xA0, CHR 0xE2, CHR 0x80, CHR 0xA8],
      bm_Time = ''10:00''\<rparr>"

theorem bus_message_roundtrip_witness:
  "Receive (Inr (bus_marshal quoted_message)) = Inr quoted_message
    \<and> bus_marshal quoted_message =
        map (\<lambda>c. if c = CHR ''$'' then quote else c)
          (''{$origin_id$:$0a$,$type$:$public$,$from$:$bob$,$content$:$'' @ backslash # ''u003cb'' @ backslash # ''u003e'' @
           [backslash, CHR ''$'', backslash, CHR ''n'', CHR 0xE4, CHR 0xBD, CHR 0xA0, backslash] @ ''u2028$,$time$:$10:00$}'')"
proof -
  have "list_all valid_utf8 (bus_texts quoted_message)" by code_simp
  moreover have "bus_marshal quoted_message =
        map (\<lambda>c. if c = CHR ''$'' then quote else c)
          (''{$origin_id$:$0a$,$type$:$public$,$from$:$bob$,$content$:$'' @ backslash # ''u003cb'' @ backslash # ''u003e'' @
           [backslash, CHR ''$'', backslash, CHR ''n'', CHR 0xE4, CHR 0xBD, CHR 0xA0, backslash] @ ''u2028$,$time$:$10:00$}'')"
    by code_simp
  ultimately show ?thesis using bus_message_roundtrip [of quoted_message] by blast
qed

text \<open>
  C28. Whatever a user types, the frame that reaches a browser is one JSON object in valid UTF-8 (so that
  no client closes the connection over it), without control characters and without \<^verbatim>\<open><\<close>,
  \<^verbatim>\<open>>\<close> and \<^verbatim>\<open>&\<close>.  A parser finds the type, sender, receiver, group, avatar, text and time of the message
  under their names, in this order, with each byte that is no UTF-8 replaced; a member is missing exactly if
  its field is empty, except for the type and the text, which are always there.
\<close>

theorem ws_frame_clean:
  "clean_text (ws_marshal m)
    \<and> json_parse (ws_marshal m) = Some (JObj
        ([(''type'', JStr (to_valid (wo_Type m)))]
         @ (if wo_Mode m = [] then [] else [(''mode'', JStr (to_valid (wo_Mode m)))])
         @ (if wo_From m = [] then [] else [(''from'', JStr (to_valid (wo_From m)))])
         @ (if wo_To m = [] then [] else [(''to'', JStr (to_valid (wo_To m)))])
         @ (if wo_Group m = [] then [] else [(''group'', JStr (to_valid (wo_Group m)))])
         @ (if wo_Avatar m = [] then [] else [(''avatar'', JStr (to_valid (wo_Avatar m)))])
         @ [(''content'', JStr (to_valid (wo_Content m)))]
         @ (if wo_Time m = [] then [] else [(''time'', JStr (to_valid (wo_Time m)))])))"
proof
  show "clean_text (ws_marshal m)"
    unfolding ws_marshal_def
    by (rule json_struct_clean) (simp add: ws_fields_def clean_char_def html_special_def)
  have "list_all (\<lambda>(k, _). field_name k) (ws_fields m)" by (simp add: ws_fields_def field_name_def)
  then have "\<forall>(k, _) \<in> set (ws_fields m). plain_name k" by (auto simp: list_all_iff dest: field_name_ok)
  from json_parse_struct [OF this] show "json_parse (ws_marshal m) = Some (JObj
        ([(''type'', JStr (to_valid (wo_Type m)))]
         @ (if wo_Mode m = [] then [] else [(''mode'', JStr (to_valid (wo_Mode m)))])
         @ (if wo_From m = [] then [] else [(''from'', JStr (to_valid (wo_From m)))])
         @ (if wo_To m = [] then [] else [(''to'', JStr (to_valid (wo_To m)))])
         @ (if wo_Group m = [] then [] else [(''group'', JStr (to_valid (wo_Group m)))])
         @ (if wo_Avatar m = [] then [] else [(''avatar'', JStr (to_valid (wo_Avatar m)))])
         @ [(''content'', JStr (to_valid (wo_Content m)))]
         @ (if wo_Time m = [] then [] else [(''time'', JStr (to_valid (wo_Time m)))])))"
    by (simp add: ws_marshal_def ws_fields_def written_def member_value_def)
qed

end
