(* ===== verification/Cluster.thy ===== *)
theory Cluster
  imports Wire Chat_Order
begin

text \<open>
  Several servers on one Redis channel.  Every server runs as in \<open>Chat_System\<close> and records what it
  publishes.  Redis is outside: the one thing assumed of it is that a payload that a receiver gets
  was published on the channel.  Which payloads a receiver gets, how often, in which order, and
  whether it gets an error instead is left open.
\<close>

section \<open>Definitions\<close>

text \<open>The servers are numbered below \<open>cl_size\<close>.\<close>

record cluster =
  cl_size :: nat
  cl_node :: "nat \<Rightarrow> tcp_system"

definition publications :: "Server \<Rightarrow> BusMessage list" where
  "publications s = (case bus s of None \<Rightarrow> [] | Some ms \<Rightarrow> ms)"

definition new_publications :: "Server \<Rightarrow> Server \<Rightarrow> BusMessage list" where
  "new_publications s s' = drop (length (publications s)) (publications s')"

abbreviation server_at :: "cluster \<Rightarrow> nat \<Rightarrow> Server" where
  "server_at c i \<equiv> ts_server (cl_node c i)"

text \<open>One server works on an event.\<close>

definition cluster_step :: "env \<Rightarrow> nat \<Rightarrow> event \<Rightarrow> cluster \<Rightarrow> cluster option" where
  "cluster_step ev i e c = map_option (\<lambda>t. c\<lparr>cl_node := (cl_node c)(i := t)\<rparr>) (system_step ev e (cl_node c i))"

text \<open>
  The receiver of a server gets an error or the JSON text of a message that some server of the
  cluster has published.
\<close>

definition from_channel :: "cluster \<Rightarrow> BusMessage res \<Rightarrow> bool" where
  "from_channel c r =
     ((\<exists>err. r = Receive (Inl err))
      \<or> (\<exists>k < cl_size c. \<exists>m \<in> set (publications (server_at c k)). r = Receive (Inr (bus_marshal m))))"

definition cluster_possible :: "nat \<Rightarrow> event \<Rightarrow> cluster \<Rightarrow> bool" where
  "cluster_possible i e c =
     (i < cl_size c \<and> possible e (cl_node c i) \<and> (\<forall>r. e = BusIn r \<longrightarrow> from_channel c r))"

text \<open>Servers start with the Redis backend, different ids and nothing published.\<close>

inductive cluster_reachable :: "cluster \<Rightarrow> bool" where
  start: "\<forall>i < cl_size c. reachable (cl_node c i) \<and> bus (server_at c i) = Some [] \<Longrightarrow>
    inj_on (\<lambda>i. serverID (server_at c i)) {..<cl_size c} \<Longrightarrow> cluster_reachable c"
| step: "cluster_reachable c \<Longrightarrow> cluster_possible i e c \<Longrightarrow> env_ok ev \<Longrightarrow> cluster_step ev i e c = Some c' \<Longrightarrow>
    cluster_reachable c'"

section \<open>Lemmas\<close>

lemma published_publications:
  assumes "published s s'" "bus s \<noteq> None"
  shows "bus s' \<noteq> None" "serverID s' = serverID s"
    "publications s' = publications s @ new_publications s s'"
    "\<forall>m \<in> set (new_publications s s'). bm_OriginID m = serverID s"
  using assms by (auto simp: published_def publications_def new_publications_def)

lemma hex_digit_ascii: "n < 16 \<Longrightarrow> cp (hex_digit n) < 0x80"
  using hex_digit_clean by simp

lemma ascii_valid: "\<forall>c \<in> set s. cp c < 0x80 \<Longrightarrow> valid_utf8 s"
  by (induction s) (simp_all add: rune_len_ascii)

lemma hex_valid: "valid_utf8 (EncodeToString bs)"
proof (rule ascii_valid)
  have "unat b < 256" for b :: "8 word" using unsigned_less [of b, where 'a = nat] by simp
  then have "unat b div 16 < 16" "unat b mod 16 < 16" for b :: "8 word" by (simp_all add: less_mult_imp_div_less)
  then show "\<forall>c \<in> set (EncodeToString bs). cp c < 0x80"
    by (auto simp: EncodeToString_def hex_byte_def hex_digit_ascii)
qed

lemma reachable_id: "reachable t \<Longrightarrow> valid_utf8 (serverID (ts_server t))"
proof (induction rule: reachable.induct)
  case (start drv rs rb cert rawID cfg db fs s h)
  then have "serverID s = EncodeToString rawID"
    by (auto simp: New_def Let_def split: sum.splits if_splits)
  then show ?case by (simp add: hex_valid)
next
  case (step t e ev t')
  then show ?case using system_step_published [OF reachable_ok [OF step(1)] step(2-4)] by (simp add: published_def)
qed

text \<open>The receiver publishes nothing.\<close>

lemma receiver_publishes_nothing:
  assumes "server_ok s" "any_order (ev_order ev)" "startBusReceiver ev r s = Some s'"
  shows "bus s' = bus s \<and> serverID s' = serverID s"
proof -
  have "only_queues s s'" if "deliverBusMessage ev m s = Some s'" for m
    using that deliverBusMessage_ok [OF assms(1,2), of m] by auto
  then have "only_queues s s' \<or> s' = s"
    using assms(3) by (auto simp: startBusReceiver_def split: sum.splits if_splits)
  then show ?thesis using only_queues_fields by fastforce
qed

lemma bus_turn:
  assumes "reachable t" "env_ok ev"
  shows "\<exists>t'. system_step ev (BusIn r) t = Some t' \<and> reachable t' \<and> publications (ts_server t') = publications (ts_server t)
    \<and> bus (ts_server t') = bus (ts_server t) \<and> serverID (ts_server t') = serverID (ts_server t)
    \<and> startBusReceiver ev r (ts_server t) = Some (ts_server t')"
proof -
  have ok: "server_ok (ts_server t)" "any_order (ev_order ev)"
    using reachable_ok [OF assms(1)] assms(2) by (simp_all add: tcp_sys_ok_def env_ok_def)
  obtain s' where s': "startBusReceiver ev r (ts_server t) = Some s'" using startBusReceiver_ok [OF ok] by blast
  then have "system_step ev (BusIn r) t = Some (t\<lparr>ts_server := s'\<rparr>)" by (simp add: on_server_def)
  moreover from reachable.step [OF assms(1) _ assms(2) this] have "reachable (t\<lparr>ts_server := s'\<rparr>)" by (simp add: possible_def)
  ultimately show ?thesis using receiver_publishes_nothing [OF ok s'] s' by (auto simp: publications_def)
qed

text \<open>A public message of another server reaches the WebSocket clients.\<close>

lemma public_delivery:
  assumes "server_ok r" "any_order (ev_order ev)" "bm_OriginID m \<noteq> serverID r" "bm_Type m = ''public''"
    "startBusReceiver ev (Inr m) r = Some r'"
  shows "wsHeap r' a = (if \<exists>u. map_of (WSConns r) u = Some a
    then ws_send (ev_skip ev a) (bus_ws ''public'' m) (wsHeap r a) else wsHeap r a)"
proof -
  let ?h = "\<lambda>a. if a \<in> snd ` set (OnlineMap r) then put_line a (bm_Content m) (userHeap r a) else userHeap r a"
  have ws: "ws_ok (r\<lparr>userHeap := ?h\<rparr>)" "ws_ok r" using server_okD(2) [OF assms(1)] by (simp_all add: ws_ok_def)
  have "r' = writeAllWS ev (bus_ws ''public'' m) (r\<lparr>userHeap := ?h\<rparr>)"
    using assms(3-5) fanoutTCP_ok [OF server_okD(1) [OF assms(1)] assms(2), of "bm_Content m"]
    by (auto simp: startBusReceiver_def deliverBusMessage_def)
  then show ?thesis using writeAllWS_ok [OF ws(1) assms(2)] ws_addr [OF ws(2)] by (auto cong: if_cong)
qed

text \<open>The invariant.\<close>

definition cluster_ok :: "cluster \<Rightarrow> bool" where
  "cluster_ok c =
     ((\<forall>i < cl_size c. reachable (cl_node c i) \<and> bus (server_at c i) \<noteq> None
         \<and> (\<forall>m \<in> set (publications (server_at c i)). bm_OriginID m = serverID (server_at c i)))
      \<and> inj_on (\<lambda>i. serverID (server_at c i)) {..<cl_size c})"

lemma cluster_okD:
  assumes "cluster_ok c" "i < cl_size c"
  shows "reachable (cl_node c i)" "bus (server_at c i) \<noteq> None"
    "\<forall>m \<in> set (publications (server_at c i)). bm_OriginID m = serverID (server_at c i)"
  using assms unfolding cluster_ok_def by blast+

lemma server_ids:
  assumes "cluster_ok c" "i < cl_size c" "k < cl_size c"
  shows "serverID (server_at c i) = serverID (server_at c k) \<longleftrightarrow> i = k"
  using assms by (auto simp: cluster_ok_def inj_on_def)

lemma origin_kept:
  assumes "cluster_ok c" "i < cl_size c" "bm_OriginID m = serverID (server_at c i)"
  shows "bm_OriginID (bus_valid m) = serverID (server_at c i)"
  using assms(3) valid_to_valid [OF reachable_id [OF cluster_okD(1) [OF assms(1,2)]]] by (simp add: bus_valid_def)

lemma cluster_step_ok:
  assumes "cluster_ok c" "cluster_possible i e c" "env_ok ev" "cluster_step ev i e c = Some c'"
  shows "cluster_ok c'"
proof -
  have i: "i < cl_size c" "possible e (cl_node c i)" using assms(2) by (simp_all add: cluster_possible_def)
  note ci = cluster_okD [OF assms(1) i(1)]
  obtain t where t: "system_step ev e (cl_node c i) = Some t" and c': "c' = c\<lparr>cl_node := (cl_node c)(i := t)\<rparr>"
    using assms(4) by (auto simp: cluster_step_def)
  have r: "reachable t" by (rule reachable.step [OF ci(1) i(2) assms(3) t])
  note new = published_publications [OF system_step_published [OF reachable_ok [OF ci(1)] i(2) assms(3) t] ci(2)]
  have id: "serverID (server_at c' k) = serverID (server_at c k)" for k using new(2) by (simp add: c')
  have "reachable (cl_node c' k) \<and> bus (server_at c' k) \<noteq> None
      \<and> (\<forall>m \<in> set (publications (server_at c' k)). bm_OriginID m = serverID (server_at c' k))" if "k < cl_size c" for k
    using cluster_okD [OF assms(1) that] r new by (auto simp: c')
  moreover have "inj_on (\<lambda>i. serverID (server_at c' i)) {..<cl_size c}"
    using assms(1) by (simp add: id cluster_ok_def)
  ultimately show ?thesis unfolding cluster_ok_def by (simp add: c')
qed

lemma cluster_reachable_ok: "cluster_reachable c \<Longrightarrow> cluster_ok c"
proof (induction rule: cluster_reachable.induct)
  case (start c)
  then show ?case by (simp add: cluster_ok_def publications_def)
next
  case (step c i e ev c')
  then show ?case using cluster_step_ok by blast
qed

section \<open>The cluster of the witnesses\<close>

lemma Accept_publishes:
  assumes "tcp_sys_ok t" "env_ok ev" "bus (ts_server t) = Some sent" "Handler ev (Accept addr) t = Some t1"
  shows "\<exists>m. bus (ts_server t1) = Some (sent @ [m])"
proof -
  obtain a s where n: "NewUser addr (ts_server t) = (a, s)" by fastforce
  have ok: "server_ok (ts_server t)" using assms(1) by (simp add: tcp_sys_ok_def)
  note nu = NewUser_ok [OF ok n]
  have b: "bus (enter_map a s) = Some sent" using n assms(3) by (auto simp: NewUser_def enter_map_def Let_def)
  have "Online ev a s = Some (ts_server t1)" using n assms(4) by auto
  moreover have "server_ok (enter_map a s)" using nu by (intro enter_map_ok) simp_all
  moreover obtain msg where "sanitizeInputWithLimit sysOnline (maxMsgLength (enter_map a s)) = Some msg"
    using server_sanitize [OF \<open>server_ok (enter_map a s)\<close>] .
  ultimately show ?thesis
    using broadcastPublic_bus [OF _ _ b] assms(2) by (auto simp: Online_def BroadCast_def Let_def env_ok_def)
qed

definition redis_config :: Config where
  "redis_config = DefaultConfig\<lparr>cf_App := (cf_App DefaultConfig)\<lparr>ac_SessionBackend := ''redis''\<rparr>\<rparr>"

lemma redis_server:
  obtains s where "New (plain_driver 5) (Inr ()) (Inr ()) (Inr ()) raw redis_config empty_db [] = Inr s"
    "serverID s = EncodeToString raw" "bus s = Some []"
  by (simp add: New_def InitDatabase_def createTables_def table_names_def DefaultConfig_def redis_config_def Let_def)

text \<open>Two servers after a connection to the first.\<close>

lemma two_servers:
  obtains c m where "cluster_reachable c" "cl_size c = 2" "publications (server_at c 0) = [m]"
    "publications (server_at c 1) = []"
proof -
  obtain s where s: "New (plain_driver 5) (Inr ()) (Inr ()) (Inr ()) [1] redis_config empty_db [] = Inr s"
    "serverID s = EncodeToString [1]" "bus s = Some []" using redis_server .
  obtain r where r: "New (plain_driver 5) (Inr ()) (Inr ()) (Inr ()) [2] redis_config empty_db [] = Inr r"
    "serverID r = EncodeToString [2]" "bus r = Some []" using redis_server .
  let ?c = "\<lparr>cl_size = 2, cl_node = (\<lambda>i. fresh_system redis_config (if i = 0 then s else r))\<rparr>"
  have "0 \<le> ac_MaxMsgLength (cf_App redis_config)" by (simp add: redis_config_def DefaultConfig_def)
  note up = reachable.start [OF _ empty_db_ok this]
  have n: "reachable (cl_node ?c i)" for i using up [OF s(1)] up [OF r(1)] by simp
  have "EncodeToString [1] \<noteq> EncodeToString [2]" by code_simp
  then have "inj_on (\<lambda>i. serverID (server_at ?c i)) {..<cl_size ?c}"
    using s(2) r(2) by (auto simp: inj_on_def)
  then have "cluster_reachable ?c" using n s(3) r(3) by (intro cluster_reachable.start) auto
  then obtain c where c: "cluster_reachable c" "cl_size c = 2" "bus (server_at c 0) = Some []" "bus (server_at c 1) = Some []"
    "reachable (cl_node c 0)"
    using s(3) r(3) n [of 0] by (intro that [of ?c]) simp_all
  let ?e = "Tcp (Accept ''10.0.0.9:5'')"
  have e: "env_ok (plain_env 6)" "possible ?e (cl_node c 0)" "\<not> panics ?e (cl_node c 0)"
    by (simp_all add: env_ok_def possible_def panics_def)
  obtain t where t: "system_step (plain_env 6) ?e (cl_node c 0) = Some t"
    using system_step_ok [OF reachable_ok [OF c(5)] e(2,1,3)] by blast
  obtain m where m: "bus (ts_server t) = Some [m]"
    using Accept_publishes [OF reachable_ok [OF c(5)] e(1) c(3)] t by auto
  let ?c1 = "c\<lparr>cl_node := (cl_node c)(0 := t)\<rparr>"
  have st: "cluster_step (plain_env 6) 0 ?e c = Some ?c1" using t by (simp add: cluster_step_def del: system_step.simps)
  have "cluster_possible 0 ?e c" using e(2) c(2) by (simp add: cluster_possible_def)
  from cluster_reachable.step [OF c(1) this e(1) st] show thesis
    using that [of ?c1 m] m c(2,4) by (simp add: publications_def)
qed

section \<open>Properties\<close>

text \<open>
  C11. No echo and no storm: whatever the receiver of a server gets, an error or the text of a message
  that a server of the cluster has published, at whatever time and however often, the receiver
  does not panic, publishes nothing, touches no other server and does nothing for an error.  The
  server that published the message ignores it, and any other server queues a public message for
  each of its WebSocket clients, with the sender, text, avatar and time of the server that
  published it.
\<close>

theorem cluster_delivery:
  assumes "cluster_reachable c" "cluster_possible i (BusIn r) c" "env_ok ev"
  shows "\<exists>c'. cluster_step ev i (BusIn r) c = Some c' \<and> cluster_reachable c'
    \<and> (\<forall>j. publications (server_at c' j) = publications (server_at c j)) \<and> (\<forall>j. j \<noteq> i \<longrightarrow> cl_node c' j = cl_node c j)
    \<and> ((\<exists>err. r = Inl err) \<and> cl_node c' i = cl_node c i
     \<or> (\<exists>k < cl_size c. \<exists>m \<in> set (publications (server_at c k)). Receive (Inr (bus_marshal m)) = r \<and> r = Inr (bus_valid m)
         \<and> (k = i \<longrightarrow> cl_node c' i = cl_node c i)
         \<and> (k \<noteq> i \<and> bm_Type m = ''public'' \<longrightarrow>
             (\<forall>a. wsHeap (server_at c' i) a =
               (if \<exists>u. map_of (WSConns (server_at c i)) u = Some a
                then ws_send (ev_skip ev a) (bus_ws ''public'' (bus_valid m)) (wsHeap (server_at c i) a)
                else wsHeap (server_at c i) a)))))"
proof -
  note ok = cluster_reachable_ok [OF assms(1)]
  have i: "i < cl_size c" and ch: "from_channel c r" using assms(2) by (simp_all add: cluster_possible_def)
  note ri = cluster_okD(1) [OF ok i]
  obtain t where t: "system_step ev (BusIn r) (cl_node c i) = Some t" "publications (ts_server t) = publications (server_at c i)"
    "startBusReceiver ev r (server_at c i) = Some (ts_server t)" using bus_turn [OF ri assms(3)] by blast
  let ?c' = "c\<lparr>cl_node := (cl_node c)(i := t)\<rparr>"
  have st: "cluster_step ev i (BusIn r) c = Some ?c'" using t(1) by (simp add: cluster_step_def del: system_step.simps)
  have node: "t = (cl_node c i)\<lparr>ts_server := ts_server t\<rparr>" using t(1) by (auto simp: on_server_def)
  have same: "cl_node ?c' i = cl_node c i" if "ts_server t = server_at c i" using node that by simp
  have rest: "cluster_reachable ?c'" "\<forall>j. publications (server_at ?c' j) = publications (server_at c j)"
    "\<forall>j. j \<noteq> i \<longrightarrow> cl_node ?c' j = cl_node c j"
    using cluster_reachable.step [OF assms(1-3) st] t(2) by simp_all
  show ?thesis
  proof (cases "\<exists>err. r = Inl err")
    case True
    then have "ts_server t = server_at c i" using t(3) by (auto simp: startBusReceiver_def)
    then show ?thesis using True st rest same by blast
  next
    case False
    then obtain k m where k: "k < cl_size c" "m \<in> set (publications (server_at c k))" "Receive (Inr (bus_marshal m)) = r"
      using ch by (auto simp: from_channel_def Receive_def)
    then have r: "r = Inr (bus_valid m)" by (simp add: Receive_marshal)
    have origin: "bm_OriginID (bus_valid m) = serverID (server_at c k)"
      using origin_kept [OF ok k(1)] cluster_okD(3) [OF ok k(1)] k(2) by blast
    have own: "cl_node ?c' i = cl_node c i" if "k = i"
      using t(3) origin that by (intro same) (simp add: r startBusReceiver_def)
    have srv: "server_ok (server_at c i)" "any_order (ev_order ev)"
      using reachable_ok [OF ri] assms(3) by (simp_all add: tcp_sys_ok_def env_ok_def)
    have other: "wsHeap (server_at ?c' i) a =
        (if \<exists>u. map_of (WSConns (server_at c i)) u = Some a
         then ws_send (ev_skip ev a) (bus_ws ''public'' (bus_valid m)) (wsHeap (server_at c i) a)
         else wsHeap (server_at c i) a)" if "k \<noteq> i" "bm_Type m = ''public''" for a
    proof -
      have ty: "bm_Type (bus_valid m) = ''public''" using that(2) by (simp add: bus_valid_def) code_simp
      have new: "bm_OriginID (bus_valid m) \<noteq> serverID (server_at c i)"
        using origin server_ids [OF ok k(1) i] that(1) by simp
      show ?thesis using public_delivery [OF srv new ty] t(3) by (simp add: r)
    qed
    show ?thesis
      by (intro exI [of _ ?c'] conjI disjI2 exI [of _ k] bexI [of _ m]) (use st rest k r own other in auto)
  qed
qed

theorem cluster_delivery_witness:
  "\<exists>c c' m. cl_size c = 2 \<and> publications (server_at c 0) = [m]
     \<and> cluster_step (plain_env 7) 1 (BusIn (Receive (Inr (bus_marshal m)))) c = Some c'
     \<and> publications (server_at c' 0) = [m] \<and> cl_node c' 0 = cl_node c 0"
proof -
  obtain c m where c: "cluster_reachable c" "cl_size c = 2" "publications (server_at c 0) = [m]" using two_servers .
  let ?r = "Receive (Inr (bus_marshal m))"
  have "from_channel c ?r" unfolding from_channel_def using c(2,3) by (intro disjI2 exI [of _ 0]) auto
  then have "cluster_possible 1 (BusIn ?r) c" "env_ok (plain_env 7)"
    using c(2) by (simp_all add: cluster_possible_def possible_def env_ok_def)
  from cluster_delivery [OF c(1) this] obtain c' where "cluster_step (plain_env 7) 1 (BusIn ?r) c = Some c'"
    "\<forall>j. publications (server_at c' j) = publications (server_at c j)" "\<forall>j. j \<noteq> 1 \<longrightarrow> cl_node c' j = cl_node c j" by blast
  then show ?thesis using c(2,3) by (metis zero_neq_one)
qed

end
