(* ===== verification/Lifecycle.thy ===== *)
theory Lifecycle
  imports Config
begin

text \<open>
  Start and stop of the process: \<^verbatim>\<open>main\<close> of \<^verbatim>\<open>main.go\<close> and \<^verbatim>\<open>Start\<close>, \<^verbatim>\<open>StartWeb\<close>, \<^verbatim>\<open>WGAdd\<close>, \<^verbatim>\<open>Shutdown\<close> and the
  background goroutine of \<^verbatim>\<open>internal/server\<close>, as the steps of the goroutines between two
  points where they can wait.  What the goroutines do with connections is in the other theories;
  here they only listen, accept, serve and end.
\<close>

section \<open>The state\<close>

text \<open>\<^verbatim>\<open>tcpListener\<close> and \<^verbatim>\<open>webListener\<close>: nil, open or closed.\<close>

datatype listener = NilListener | OpenListener | ClosedListener

datatype goroutine = Beginning | Serving | Ended

text \<open>The statement of \<^verbatim>\<open>Shutdown\<close> that is next.\<close>

datatype shutdown_at = NotCalled | AtCancel | AtCloseWeb | AtCloseTcp | AtCloseStores | AtWait | ShutdownReturned

text \<open>\<^verbatim>\<open>main\<close> waits for a signal, waits for \<^verbatim>\<open>Shutdown\<close>, or has ended, in time or by the 15 seconds.\<close>

datatype main_at = AwaitingSignal | AwaitingShutdown | MainEnded bool

record life =
  lc_wg :: int
  lc_cancelled :: bool
  lc_tcp :: listener
  lc_web :: listener
  lc_start :: goroutine
  lc_startweb :: goroutine
  lc_background :: goroutine
  lc_ticker :: "int option"
  lc_handlers :: nat
  lc_stores_open :: bool
  lc_shutdown :: shutdown_at
  lc_main :: main_at
  lc_crashed :: bool

section \<open>Start\<close>

definition WGAdd :: "int \<Rightarrow> life \<Rightarrow> life" where
  "WGAdd n l = l\<lparr>lc_wg := lc_wg l + n\<rparr>"

text \<open>
  What \<^verbatim>\<open>New\<close> leaves running: one goroutine, the bus receiver with the Redis backend and otherwise
  the clean-up of sessions with its ticker.
\<close>

definition new_life :: "Config \<Rightarrow> life" where
  "new_life cfg =
     \<lparr>lc_wg = 1, lc_cancelled = False, lc_tcp = NilListener, lc_web = NilListener, lc_start = Beginning,
      lc_startweb = Beginning, lc_background = Beginning,
      lc_ticker = (if ac_SessionBackend (cf_App cfg) = ''redis'' then None else Some (ac_SessionCleanup (cf_App cfg))),
      lc_handlers = 0, lc_stores_open = True, lc_shutdown = NotCalled, lc_main = AwaitingSignal, lc_crashed = False\<rparr>"

text \<open>
  \<^verbatim>\<open>main\<close> up to the wait for a signal: the configuration with the flags that were passed, then the
  server.  \<open>start_server\<close> is \<^verbatim>\<open>New\<close>.
\<close>

datatype 's started = ExitCode int | ServerFailed string | Running 's Config life

definition main_start :: "string + Config \<Rightarrow> cmd_flag list \<Rightarrow> (Config \<Rightarrow> string + 's) \<Rightarrow> 's started" where
  "main_start loaded flags start_server =
     (case loaded of
        Inl err \<Rightarrow> ExitCode 1
      | Inr cfg0 \<Rightarrow>
          (let cfg = fold apply_flag flags cfg0
           in case start_server cfg of
                Inl err \<Rightarrow> ServerFailed err
              | Inr srv \<Rightarrow> Running srv cfg (WGAdd 2 (new_life cfg))))"

section \<open>Steps\<close>

datatype life_event =
    StartListens bool
  | AcceptConn
  | ConnectionEnds
  | AcceptFails
  | WebListens bool
  | ServeReturns
  | BackgroundStarts
  | BackgroundStops
  | Signal
  | ShutdownTurn
  | ShutdownSeen
  | FifteenSeconds

definition end_start :: "life \<Rightarrow> life" where
  "end_start l = WGAdd (-1) (l\<lparr>lc_start := Ended\<rparr>)"

definition end_startweb :: "life \<Rightarrow> life" where
  "end_startweb l = WGAdd (-1) (l\<lparr>lc_startweb := Ended\<rparr>)"

definition end_background :: "life \<Rightarrow> life" where
  "end_background l = WGAdd (-1) (l\<lparr>lc_background := Ended\<rparr>)"

definition close_listener :: "listener \<Rightarrow> listener" where
  "close_listener x = (if x = NilListener then NilListener else ClosedListener)"

text \<open>The statements of \<^verbatim>\<open>Shutdown\<close>.  The last one waits for the counter.\<close>

fun shutdown_turn :: "life \<Rightarrow> life option" where
  "shutdown_turn l =
     (case lc_shutdown l of
        NotCalled \<Rightarrow> None
      | AtCancel \<Rightarrow> Some (l\<lparr>lc_cancelled := True, lc_shutdown := AtCloseWeb\<rparr>)
      | AtCloseWeb \<Rightarrow> Some (l\<lparr>lc_web := close_listener (lc_web l), lc_shutdown := AtCloseTcp\<rparr>)
      | AtCloseTcp \<Rightarrow> Some (l\<lparr>lc_tcp := close_listener (lc_tcp l), lc_shutdown := AtCloseStores\<rparr>)
      | AtCloseStores \<Rightarrow> Some (l\<lparr>lc_stores_open := False, lc_shutdown := AtWait\<rparr>)
      | AtWait \<Rightarrow> if lc_wg l = 0 then Some (l\<lparr>lc_shutdown := ShutdownReturned\<rparr>) else None
      | ShutdownReturned \<Rightarrow> None)"

text \<open>
  The steps of the goroutines.  \<^const>\<open>None\<close> means that the step cannot happen.  \<^verbatim>\<open>Accept\<close> on a closed listener
  fails; \<^verbatim>\<open>Start\<close> ends on an error only if the context is cancelled and otherwise tries again.
  The goroutines that \<^verbatim>\<open>Start\<close> begins for the connections are not in the wait group; they end on their own.
  \<^verbatim>\<open>http.Serve\<close> returns on an error, which a closed listener gives; its deferred function sets the field to nil.
  \<^verbatim>\<open>time.NewTicker\<close> panics for an interval that is not positive.
\<close>

fun life_turn :: "life_event \<Rightarrow> life \<Rightarrow> life option" where
  "life_turn (StartListens ok) l =
     (if lc_start l \<noteq> Beginning then None
      else if ok then Some (l\<lparr>lc_tcp := OpenListener, lc_start := Serving\<rparr>)
      else Some (end_start l))"
| "life_turn AcceptConn l =
     (if lc_start l = Serving \<and> lc_tcp l = OpenListener then Some (l\<lparr>lc_handlers := lc_handlers l + 1\<rparr>) else None)"
| "life_turn ConnectionEnds l = (if 0 < lc_handlers l then Some (l\<lparr>lc_handlers := lc_handlers l - 1\<rparr>) else None)"
| "life_turn AcceptFails l =
     (if lc_start l \<noteq> Serving then None
      else if lc_cancelled l then Some (end_start l)
      else Some l)"
| "life_turn (WebListens ok) l =
     (if lc_startweb l \<noteq> Beginning then None
      else if ok then Some (l\<lparr>lc_web := OpenListener, lc_startweb := Serving\<rparr>)
      else Some (end_startweb l))"
| "life_turn ServeReturns l =
     (if lc_startweb l = Serving then Some (end_startweb (l\<lparr>lc_web := NilListener\<rparr>)) else None)"
| "life_turn BackgroundStarts l =
     (if lc_background l \<noteq> Beginning then None
      else case lc_ticker l of
             Some d \<Rightarrow> if d \<le> 0 then Some (l\<lparr>lc_crashed := True\<rparr>) else Some (l\<lparr>lc_background := Serving\<rparr>)
           | None \<Rightarrow> Some (l\<lparr>lc_background := Serving\<rparr>))"
| "life_turn BackgroundStops l =
     (if lc_background l = Serving \<and> lc_cancelled l then Some (end_background l) else None)"
| "life_turn Signal l =
     (if lc_main l = AwaitingSignal then Some (l\<lparr>lc_main := AwaitingShutdown, lc_shutdown := AtCancel\<rparr>) else None)"
| "life_turn ShutdownTurn l = shutdown_turn l"
| "life_turn ShutdownSeen l =
     (if lc_main l = AwaitingShutdown \<and> lc_shutdown l = ShutdownReturned then Some (l\<lparr>lc_main := MainEnded True\<rparr>) else None)"
| "life_turn FifteenSeconds l =
     (if lc_main l = AwaitingShutdown then Some (l\<lparr>lc_main := MainEnded False\<rparr>) else None)"

text \<open>After a panic or the end of \<^verbatim>\<open>main\<close> the process is gone.\<close>

definition life_step :: "life_event \<Rightarrow> life \<Rightarrow> life option" where
  "life_step e l = (if lc_crashed l \<or> (\<exists>b. lc_main l = MainEnded b) then None else life_turn e l)"

fun life_run :: "life_event list \<Rightarrow> life \<Rightarrow> life option" where
  "life_run [] l = Some l"
| "life_run (e # es) l = (case life_step e l of None \<Rightarrow> None | Some l' \<Rightarrow> life_run es l')"

inductive life_reachable :: "Config \<Rightarrow> life \<Rightarrow> bool" for cfg :: Config where
  boot: "life_reachable cfg (WGAdd 2 (new_life cfg))"
| turn: "life_reachable cfg l \<Longrightarrow> life_step e l = Some l' \<Longrightarrow> life_reachable cfg l'"

section \<open>The invariant\<close>

text \<open>How many statements of \<^verbatim>\<open>Shutdown\<close> are still to come.\<close>

fun statements_left :: "shutdown_at \<Rightarrow> nat" where
  "statements_left NotCalled = 6"
| "statements_left AtCancel = 5"
| "statements_left AtCloseWeb = 4"
| "statements_left AtCloseTcp = 3"
| "statements_left AtCloseStores = 2"
| "statements_left AtWait = 1"
| "statements_left ShutdownReturned = 0"

definition running :: "goroutine \<Rightarrow> int" where
  "running g = (if g = Ended then 0 else 1)"

text \<open>The interval of the clean-up of sessions is positive, or there is no clean-up.\<close>

definition can_start :: "Config \<Rightarrow> bool" where
  "can_start cfg = (\<forall>d. lc_ticker (new_life cfg) = Some d \<longrightarrow> 0 < d)"

definition life_ok :: "Config \<Rightarrow> life \<Rightarrow> bool" where
  "life_ok cfg l =
     (lc_wg l = running (lc_start l) + running (lc_startweb l) + running (lc_background l)
      \<and> (lc_start l = Serving \<longrightarrow> lc_tcp l \<noteq> NilListener) \<and> (lc_start l = Beginning \<longrightarrow> lc_tcp l = NilListener)
      \<and> (lc_startweb l = Serving \<longleftrightarrow> lc_web l \<noteq> NilListener)
      \<and> (lc_cancelled l \<longleftrightarrow> statements_left (lc_shutdown l) \<le> 4)
      \<and> (lc_main l = AwaitingSignal \<longleftrightarrow> lc_shutdown l = NotCalled)
      \<and> (lc_tcp l = ClosedListener \<longrightarrow> statements_left (lc_shutdown l) \<le> 2)
      \<and> (lc_web l = ClosedListener \<longrightarrow> statements_left (lc_shutdown l) \<le> 3)
      \<and> (lc_shutdown l = ShutdownReturned \<longrightarrow> lc_start l = Ended \<and> lc_startweb l = Ended \<and> lc_background l = Ended)
      \<and> lc_ticker l = lc_ticker (new_life cfg)
      \<and> (lc_crashed l \<longrightarrow> \<not> can_start cfg))"

lemmas life_defs = life_step_def end_start_def end_startweb_def end_background_def WGAdd_def close_listener_def

text \<open>What a step does to the state.\<close>

lemma step_turn: "life_step e l = Some l' \<Longrightarrow> life_turn e l = Some l' \<and> \<not> lc_crashed l \<and> (\<forall>b. lc_main l \<noteq> MainEnded b)"
  by (simp add: life_step_def split: if_splits)

lemma life_ok_step:
  assumes "life_ok cfg l" "life_step e l = Some l'"
  shows "life_ok cfg l'"
proof -
  note t = step_turn [OF assms(2)]
  show ?thesis
  proof (cases e)
    case (StartListens ok)
    then have "lc_start l = Beginning" "l' = (if ok then l\<lparr>lc_tcp := OpenListener, lc_start := Serving\<rparr> else end_start l)"
      using t by (simp_all split: if_splits)
    then show ?thesis using assms(1) by (cases ok) (simp_all add: life_ok_def life_defs running_def split: if_splits)
  next
    case AcceptConn
    then have "l' = l\<lparr>lc_handlers := lc_handlers l + 1\<rparr>" using t by (simp split: if_splits)
    then show ?thesis using assms(1) by (simp add: life_ok_def)
  next
    case ConnectionEnds
    then have "l' = l\<lparr>lc_handlers := lc_handlers l - 1\<rparr>" using t by (simp split: if_splits)
    then show ?thesis using assms(1) by (simp add: life_ok_def)
  next
    case AcceptFails
    then have "lc_start l = Serving" "l' = l \<or> l' = end_start l" using t by (simp_all split: if_splits)
    then show ?thesis using assms(1) by (elim disjE) (simp_all add: life_ok_def life_defs running_def)
  next
    case (WebListens ok)
    then have "lc_startweb l = Beginning" "l' = (if ok then l\<lparr>lc_web := OpenListener, lc_startweb := Serving\<rparr> else end_startweb l)"
      using t by (simp_all split: if_splits)
    then show ?thesis using assms(1) by (cases ok) (simp_all add: life_ok_def life_defs running_def split: if_splits)
  next
    case ServeReturns
    then have "lc_startweb l = Serving" "l' = end_startweb (l\<lparr>lc_web := NilListener\<rparr>)" using t by (simp_all split: if_splits)
    then show ?thesis using assms(1) by (simp add: life_ok_def life_defs running_def)
  next
    case BackgroundStarts
    then have "lc_background l = Beginning" and
      "l' = l\<lparr>lc_background := Serving\<rparr> \<or> l' = l\<lparr>lc_crashed := True\<rparr> \<and> (\<exists>d \<le> 0. lc_ticker l = Some d)"
      using t by (simp_all split: if_splits option.splits)
    then show ?thesis
    proof (elim disjE conjE exE)
      fix d assume d: "d \<le> 0" "lc_ticker l = Some d" and l': "l' = l\<lparr>lc_crashed := True\<rparr>"
      have "lc_ticker (new_life cfg) = lc_ticker l" using assms(1) by (simp add: life_ok_def)
      then have "\<not> can_start cfg" using d by (simp add: can_start_def)
      then show ?thesis using assms(1) by (simp add: life_ok_def l')
    qed (use assms(1) \<open>lc_background l = Beginning\<close> in \<open>simp add: life_ok_def running_def\<close>)
  next
    case BackgroundStops
    then have "lc_background l = Serving" "l' = end_background l" using t by (simp_all split: if_splits)
    then show ?thesis using assms(1) by (simp add: life_ok_def life_defs running_def)
  next
    case Signal
    then have "lc_main l = AwaitingSignal" "l' = l\<lparr>lc_main := AwaitingShutdown, lc_shutdown := AtCancel\<rparr>"
      using t by (simp_all split: if_splits)
    then show ?thesis using assms(1) by (auto simp: life_ok_def)
  next
    case ShutdownTurn
    then have "shutdown_turn l = Some l'" using t by simp
    show ?thesis
    proof (cases "lc_shutdown l = AtWait")
      case True
      then have "lc_wg l = 0" "l' = l\<lparr>lc_shutdown := ShutdownReturned\<rparr>"
        using \<open>shutdown_turn l = Some l'\<close> by (simp_all split: if_splits)
      moreover have "lc_start l = Ended \<and> lc_startweb l = Ended \<and> lc_background l = Ended"
        using assms(1) \<open>lc_wg l = 0\<close> by (simp add: life_ok_def running_def split: if_splits)
      ultimately show ?thesis using assms(1) True by (simp add: life_ok_def running_def)
    next
      case False
      then consider "lc_shutdown l = AtCancel" "l' = l\<lparr>lc_cancelled := True, lc_shutdown := AtCloseWeb\<rparr>"
        | "lc_shutdown l = AtCloseWeb" "l' = l\<lparr>lc_web := close_listener (lc_web l), lc_shutdown := AtCloseTcp\<rparr>"
        | "lc_shutdown l = AtCloseTcp" "l' = l\<lparr>lc_tcp := close_listener (lc_tcp l), lc_shutdown := AtCloseStores\<rparr>"
        | "lc_shutdown l = AtCloseStores" "l' = l\<lparr>lc_stores_open := False, lc_shutdown := AtWait\<rparr>"
        using \<open>shutdown_turn l = Some l'\<close> by (cases "lc_shutdown l") auto
      then show ?thesis by cases (use assms(1) in \<open>simp_all add: life_ok_def close_listener_def split: if_splits\<close>)
    qed
  next
    case ShutdownSeen
    then have "lc_main l = AwaitingShutdown" "l' = l\<lparr>lc_main := MainEnded True\<rparr>" using t by (simp_all split: if_splits)
    then show ?thesis using assms(1) by (simp add: life_ok_def)
  next
    case FifteenSeconds
    then have "lc_main l = AwaitingShutdown" "l' = l\<lparr>lc_main := MainEnded False\<rparr>" using t by (simp_all split: if_splits)
    then show ?thesis using assms(1) by (simp add: life_ok_def)
  qed
qed

lemma life_reachable_ok: "life_reachable cfg l \<Longrightarrow> life_ok cfg l"
proof (induction rule: life_reachable.induct)
  case boot
  then show ?case by (simp add: life_ok_def new_life_def WGAdd_def running_def)
next
  case (turn l e l')
  then show ?case using life_ok_step by blast
qed

section \<open>The end of Shutdown\<close>

text \<open>
  The steps that happen without the outside: those of \<^verbatim>\<open>Shutdown\<close> and \<^verbatim>\<open>main\<close>, the end of the background
  goroutine, and the error that a closed listener gives.
\<close>

fun due :: "life_event \<Rightarrow> life \<Rightarrow> bool" where
  "due AcceptFails l = (lc_tcp l = ClosedListener)"
| "due ServeReturns l = (lc_web l = ClosedListener)"
| "due ShutdownTurn l = True"
| "due ShutdownSeen l = True"
| "due BackgroundStarts l = True"
| "due BackgroundStops l = True"
| "due _ l = False"

text \<open>
  Both listeners were opened (or failed to) before \<^verbatim>\<open>Shutdown\<close> looked at them.
\<close>

definition settled :: "life \<Rightarrow> bool" where
  "settled l =
     (lc_start l \<noteq> Beginning \<and> lc_startweb l \<noteq> Beginning
      \<and> (lc_startweb l = Serving \<and> statements_left (lc_shutdown l) \<le> 3 \<longrightarrow> lc_web l = ClosedListener)
      \<and> (lc_start l = Serving \<and> statements_left (lc_shutdown l) \<le> 2 \<longrightarrow> lc_tcp l = ClosedListener))"

fun goroutine_turns :: "goroutine \<Rightarrow> nat" where
  "goroutine_turns Beginning = 2"
| "goroutine_turns Serving = 1"
| "goroutine_turns Ended = 0"

definition remaining :: "life \<Rightarrow> nat" where
  "remaining l =
     statements_left (lc_shutdown l) + goroutine_turns (lc_start l) + goroutine_turns (lc_startweb l) + goroutine_turns (lc_background l)
     + (if lc_main l = AwaitingShutdown then 1 else 0)"

lemma settled_step:
  assumes "life_ok cfg l" "settled l" "lc_shutdown l \<noteq> NotCalled" "can_start cfg" "life_step e l = Some l'"
  shows "settled l' \<and> lc_shutdown l' \<noteq> NotCalled \<and> remaining l' + (if due e l then 1 else 0) \<le> remaining l"
proof -
  note t = step_turn [OF assms(5)]
  have c: "statements_left (lc_shutdown l) \<le> 3 \<Longrightarrow> lc_cancelled l"
    "lc_tcp l = ClosedListener \<Longrightarrow> lc_cancelled l" "lc_main l \<noteq> AwaitingSignal"
    using assms(1,3) by (auto simp: life_ok_def)
  show ?thesis
  proof (cases e)
    case (StartListens ok)
    then show ?thesis using t assms(2) by (simp add: settled_def)
  next
    case AcceptConn
    then have "l' = l\<lparr>lc_handlers := lc_handlers l + 1\<rparr>" using t by (simp split: if_splits)
    then show ?thesis using AcceptConn assms(2,3) by (simp add: settled_def remaining_def)
  next
    case ConnectionEnds
    then have "l' = l\<lparr>lc_handlers := lc_handlers l - 1\<rparr>" using t by (simp split: if_splits)
    then show ?thesis using ConnectionEnds assms(2,3) by (simp add: settled_def remaining_def)
  next
    case AcceptFails
    then have "lc_start l = Serving" "\<not> lc_cancelled l \<and> l' = l \<or> l' = end_start l" using t by (simp_all split: if_splits)
    then show ?thesis
      using AcceptFails assms(2,3) c(2) by (elim disjE) (auto simp: settled_def remaining_def life_defs)
  next
    case (WebListens ok)
    then show ?thesis using t assms(2) by (simp add: settled_def)
  next
    case ServeReturns
    then have "lc_startweb l = Serving" "l' = end_startweb (l\<lparr>lc_web := NilListener\<rparr>)" using t by (simp_all split: if_splits)
    then show ?thesis using ServeReturns assms(2,3) by (simp add: settled_def remaining_def life_defs)
  next
    case BackgroundStarts
    have "lc_ticker l = lc_ticker (new_life cfg)" using assms(1) by (simp add: life_ok_def)
    then have "lc_background l = Beginning" "l' = l\<lparr>lc_background := Serving\<rparr>"
      using t BackgroundStarts assms(4) by (auto simp: can_start_def split: if_splits option.splits)
    then show ?thesis using BackgroundStarts assms(2,3) by (simp add: settled_def remaining_def)
  next
    case BackgroundStops
    then have "lc_background l = Serving" "l' = end_background l" using t by (simp_all split: if_splits)
    then show ?thesis using BackgroundStops assms(2,3) by (simp add: settled_def remaining_def life_defs)
  next
    case Signal
    then show ?thesis using t c(3) by simp
  next
    case ShutdownTurn
    then have "shutdown_turn l = Some l'" using t by simp
    moreover have "lc_startweb l = Serving \<Longrightarrow> lc_web l \<noteq> NilListener" "lc_start l = Serving \<Longrightarrow> lc_tcp l \<noteq> NilListener"
      using assms(1) by (simp_all add: life_ok_def)
    ultimately show ?thesis
      using ShutdownTurn assms(2,3)
      by (cases "lc_shutdown l") (auto simp: settled_def remaining_def close_listener_def split: if_splits)
  next
    case ShutdownSeen
    then have "lc_main l = AwaitingShutdown" "l' = l\<lparr>lc_main := MainEnded True\<rparr>" using t by (simp_all split: if_splits)
    then show ?thesis using ShutdownSeen assms(2,3) by (simp add: settled_def remaining_def)
  next
    case FifteenSeconds
    then have "lc_main l = AwaitingShutdown" "l' = l\<lparr>lc_main := MainEnded False\<rparr>" using t by (simp_all split: if_splits)
    then show ?thesis using FifteenSeconds assms(2,3) by (simp add: settled_def remaining_def)
  qed
qed

lemma settled_progress:
  assumes "life_ok cfg l" "settled l" "can_start cfg" "lc_main l = AwaitingShutdown"
  shows "\<exists>e. due e l \<and> life_step e l \<noteq> None"
proof -
  have live: "life_step e l = life_turn e l" for e
    using assms(1,3,4) by (auto simp: life_step_def life_ok_def can_start_def)
  show ?thesis
  proof (cases "lc_shutdown l = ShutdownReturned")
    case True
    then have "due ShutdownSeen l \<and> life_step ShutdownSeen l \<noteq> None" using assms(4) by (simp add: live)
    then show ?thesis by blast
  next
    case False
    show ?thesis
    proof (cases "lc_shutdown l = AtWait \<and> lc_wg l \<noteq> 0")
      case True
      then have c: "lc_cancelled l" using assms(1) by (simp add: life_ok_def)
      consider "lc_start l = Serving" | "lc_startweb l = Serving" | "lc_background l = Serving" | "lc_background l = Beginning"
        using True assms(1,2) by (cases "lc_start l"; cases "lc_startweb l"; cases "lc_background l")
          (auto simp: life_ok_def settled_def running_def)
      then show ?thesis
      proof cases
        case 1
        then have "due AcceptFails l \<and> life_step AcceptFails l \<noteq> None" using True assms(2) c by (simp add: live settled_def)
        then show ?thesis by blast
      next
        case 2
        then have "due ServeReturns l \<and> life_step ServeReturns l \<noteq> None" using True assms(2) by (simp add: live settled_def)
        then show ?thesis by blast
      next
        case 3
        then have "due BackgroundStops l \<and> life_step BackgroundStops l \<noteq> None" using c by (simp add: live)
        then show ?thesis by blast
      next
        case 4
        then have "due BackgroundStarts l \<and> life_step BackgroundStarts l \<noteq> None" by (simp add: live split: option.split)
        then show ?thesis by blast
      qed
    next
      case False
      then have "life_step ShutdownTurn l \<noteq> None"
        using \<open>lc_shutdown l \<noteq> ShutdownReturned\<close> assms(1,4) by (cases "lc_shutdown l") (auto simp: live life_ok_def)
      moreover have "due ShutdownTurn l" by simp
      ultimately show ?thesis by blast
    qed
  qed
qed

text \<open>The steps of a run that were due.\<close>

fun due_count :: "life_event list \<Rightarrow> life \<Rightarrow> nat" where
  "due_count [] l = 0"
| "due_count (e # es) l =
     (case life_step e l of None \<Rightarrow> 0 | Some l' \<Rightarrow> (if due e l then 1 else 0) + due_count es l')"

lemma settled_run:
  assumes "life_ok cfg l" "settled l" "lc_shutdown l \<noteq> NotCalled" "can_start cfg" "life_run es l = Some l'"
  shows "life_ok cfg l' \<and> settled l' \<and> lc_shutdown l' \<noteq> NotCalled \<and> due_count es l + remaining l' \<le> remaining l"
  using assms
proof (induction es arbitrary: l)
  case (Cons e es)
  obtain l1 where l1: "life_step e l = Some l1" "life_run es l1 = Some l'"
    using Cons.prems(5) by (auto split: option.splits)
  note s = settled_step [OF Cons.prems(1-4) l1(1)]
  have "life_ok cfg l' \<and> settled l' \<and> lc_shutdown l' \<noteq> NotCalled \<and> due_count es l1 + remaining l' \<le> remaining l1"
    by (rule Cons.IH) (use s life_ok_step [OF Cons.prems(1) l1(1)] Cons.prems(4) l1(2) in auto)
  then show ?case using s l1(1) by auto
qed simp

text \<open>\<^verbatim>\<open>main\<close> ends in time only after \<^verbatim>\<open>Shutdown\<close>.\<close>

lemma life_reachable_end:
  "life_reachable cfg l \<Longrightarrow> (lc_main l = MainEnded True \<longrightarrow> lc_shutdown l = ShutdownReturned \<and> lc_wg l = 0 \<and> lc_start l = Ended \<and> lc_startweb l = Ended
       \<and> lc_background l = Ended \<and> \<not> lc_stores_open l)
     \<and> (statements_left (lc_shutdown l) \<le> 1 \<longrightarrow> \<not> lc_stores_open l)"
proof (induction rule: life_reachable.induct)
  case boot
  then show ?case by (simp add: new_life_def WGAdd_def)
next
  case (turn l e l')
  note t = step_turn [OF turn(2)]
  have ok: "life_ok cfg l" using life_reachable_ok [OF turn(1)] .
  show ?case
  proof (cases e)
    case ShutdownTurn
    then show ?thesis using t turn(3) by (cases "lc_shutdown l") (auto split: if_splits)
  next
    case ShutdownSeen
    then show ?thesis using t turn(3) ok by (auto simp: life_ok_def running_def split: if_splits)
  qed (use t turn(3) in \<open>auto simp: life_defs split: if_splits option.splits\<close>)
qed

section \<open>The run of the witnesses\<close>

definition booted :: life where
  "booted = WGAdd 2 (new_life DefaultConfig)"

text \<open>Both listeners are up when the signal comes.\<close>

definition up_and_signalled :: "life_event list" where
  "up_and_signalled = [BackgroundStarts, StartListens True, AcceptConn, WebListens True, Signal]"

lemma run_reachable: "life_reachable cfg l \<Longrightarrow> life_run es l = Some l' \<Longrightarrow> life_reachable cfg l'"
  by (induction es arbitrary: l) (auto split: option.splits intro: life_reachable.turn)

lemma up_and_signalled_run:
  obtains l where "life_run up_and_signalled booted = Some l" "settled l" "lc_main l = AwaitingShutdown"
    "life_run [ShutdownTurn, ShutdownTurn, ShutdownTurn, AcceptFails, ShutdownTurn, BackgroundStops, ServeReturns, ShutdownTurn, ShutdownSeen] l
      = Some (l\<lparr>lc_cancelled := True, lc_web := NilListener, lc_tcp := ClosedListener, lc_start := Ended, lc_startweb := Ended,
          lc_background := Ended, lc_wg := 0, lc_stores_open := False, lc_shutdown := ShutdownReturned, lc_main := MainEnded True\<rparr>)"
  by (simp add: up_and_signalled_def booted_def new_life_def DefaultConfig_def settled_def life_defs second_def)

lemma default_can_start: "can_start DefaultConfig"
  by (simp add: can_start_def new_life_def DefaultConfig_def second_def)

section \<open>Properties\<close>

text \<open>
  The wait group is balanced: in every state of the process its counter is the number of goroutines that
  will still call \<^verbatim>\<open>Done\<close>, so it is never negative; \<^verbatim>\<open>Shutdown\<close> returns only after all of them have ended
  and the stores are closed; and the process panics at the start only for an interval of the clean-up that is
  not positive.
\<close>

theorem wait_group_balanced:
  assumes "life_reachable cfg l"
  shows "lc_wg l = running (lc_start l) + running (lc_startweb l) + running (lc_background l) \<and> 0 \<le> lc_wg l
    \<and> (lc_shutdown l = ShutdownReturned \<longrightarrow> lc_start l = Ended \<and> lc_startweb l = Ended \<and> lc_background l = Ended)
    \<and> (can_start cfg \<longrightarrow> \<not> lc_crashed l)"
  using life_reachable_ok [OF assms] by (auto simp: life_ok_def running_def)

theorem wait_group_balanced_witness:
  "\<exists>l. life_run (up_and_signalled @ [ShutdownTurn, ShutdownTurn, ShutdownTurn, AcceptFails]) booted = Some l \<and> lc_wg l = 2"
proof -
  have r: "life_reachable DefaultConfig booted" unfolding booted_def by (rule life_reachable.boot)
  obtain l where l: "life_run (up_and_signalled @ [ShutdownTurn, ShutdownTurn, ShutdownTurn, AcceptFails]) booted = Some l"
    "lc_start l = Ended" "lc_startweb l = Serving" "lc_background l = Serving"
    by (simp add: up_and_signalled_def booted_def new_life_def DefaultConfig_def life_defs second_def)
  from wait_group_balanced [OF run_reachable [OF r l(1)]] l show ?thesis by (simp add: running_def)
qed

text \<open>
  C29. \<^verbatim>\<open>Shutdown\<close> comes to its end, for every configuration whose clean-up interval is positive where there is a
  clean-up: once the signal was caught with both listeners up (or failed), then however connections, failing
  accepts and the goroutines interleave, at most ten steps of the program are still to be made, and as long
  as \<^verbatim>\<open>main\<close> has not ended one of them can be made; so unless the 15 seconds are over first, \<^verbatim>\<open>main\<close> ends after
  \<^verbatim>\<open>Shutdown\<close> has returned.  Then the three goroutines of the wait group have ended, those of \<^verbatim>\<open>Start\<close>, of \<^verbatim>\<open>StartWeb\<close> and
  of the clean-up or the bus receiver, and the stores are closed.  The goroutines of the connections are not
  in the wait group; nothing is said of them.
\<close>

theorem shutdown_completes:
  assumes "life_reachable cfg l" "can_start cfg" "settled l" "lc_main l = AwaitingShutdown" "life_run es l = Some l'"
  shows "due_count es l \<le> 10
    \<and> ((\<forall>e. due e l' \<longrightarrow> life_step e l' = None) \<longrightarrow> (\<exists>b. lc_main l' = MainEnded b))
    \<and> (lc_main l' = MainEnded True \<longrightarrow> lc_shutdown l' = ShutdownReturned \<and> lc_wg l' = 0 \<and> lc_start l' = Ended
        \<and> lc_startweb l' = Ended \<and> lc_background l' = Ended \<and> \<not> lc_stores_open l')"
proof -
  note ok = life_reachable_ok [OF assms(1)]
  have s: "lc_shutdown l \<noteq> NotCalled" using ok assms(4) by (auto simp: life_ok_def)
  note run = settled_run [OF ok assms(3) s assms(2,5)]
  have "statements_left (lc_shutdown l) \<le> 5" using s by (cases "lc_shutdown l") simp_all
  moreover have "goroutine_turns (lc_start l) \<le> 1" "goroutine_turns (lc_startweb l) \<le> 1" "goroutine_turns (lc_background l) \<le> 2"
    using assms(3) by (cases "lc_start l"; cases "lc_startweb l"; cases "lc_background l"; simp add: settled_def)+
  ultimately have "remaining l \<le> 10" using assms(4) by (simp add: remaining_def)
  then have "due_count es l \<le> 10" using run by simp
  moreover have "lc_main l' \<noteq> AwaitingSignal" using run by (auto simp: life_ok_def)
  then have "(\<forall>e. due e l' \<longrightarrow> life_step e l' = None) \<longrightarrow> (\<exists>b. lc_main l' = MainEnded b)"
    using settled_progress [of cfg l'] run assms(2) by (cases "lc_main l'") auto
  moreover have "lc_main l' = MainEnded True \<longrightarrow> lc_shutdown l' = ShutdownReturned \<and> lc_wg l' = 0 \<and> lc_start l' = Ended
      \<and> lc_startweb l' = Ended \<and> lc_background l' = Ended \<and> \<not> lc_stores_open l'"
    using life_reachable_end [OF run_reachable [OF assms(1,5)]] by simp
  ultimately show ?thesis by blast
qed

theorem shutdown_completes_witness:
  "\<exists>l l'. life_run up_and_signalled booted = Some l
     \<and> life_run [ShutdownTurn, ShutdownTurn, ShutdownTurn, AcceptFails, ShutdownTurn, BackgroundStops, ServeReturns, ShutdownTurn, ShutdownSeen] l = Some l'
     \<and> lc_main l' = MainEnded True \<and> lc_start l' = Ended \<and> \<not> lc_stores_open l'"
proof -
  have r: "life_reachable DefaultConfig booted" unfolding booted_def by (rule life_reachable.boot)
  obtain l where l: "life_run up_and_signalled booted = Some l" "settled l" "lc_main l = AwaitingShutdown"
    "life_run [ShutdownTurn, ShutdownTurn, ShutdownTurn, AcceptFails, ShutdownTurn, BackgroundStops, ServeReturns, ShutdownTurn, ShutdownSeen] l
      = Some (l\<lparr>lc_cancelled := True, lc_web := NilListener, lc_tcp := ClosedListener, lc_start := Ended, lc_startweb := Ended,
          lc_background := Ended, lc_wg := 0, lc_stores_open := False, lc_shutdown := ShutdownReturned, lc_main := MainEnded True\<rparr>)"
    by (rule up_and_signalled_run)
  from shutdown_completes [OF run_reachable [OF r l(1)] default_can_start l(2,3,4)] l(1,4) show ?thesis by simp
qed

text \<open>
  A signal that comes before \<^verbatim>\<open>Start\<close> has its listener is not enough: \<^verbatim>\<open>Shutdown\<close> finds no listener to close,
  \<^verbatim>\<open>Start\<close> then opens one and waits for connections, and \<^verbatim>\<open>Shutdown\<close> waits for \<^verbatim>\<open>Start\<close> until the 15 seconds are
  over: no step of the program is possible.
\<close>

theorem late_listener_blocks_shutdown:
  "\<exists>es l. life_run es booted = Some l \<and> lc_main l = AwaitingShutdown \<and> lc_shutdown l = AtWait \<and> lc_tcp l = OpenListener
    \<and> (\<forall>e. due e l \<longrightarrow> life_step e l = None)"
proof -
  let ?es = "[BackgroundStarts, WebListens True, Signal, ShutdownTurn, ShutdownTurn, ShutdownTurn, ShutdownTurn,
    StartListens True, ServeReturns, BackgroundStops]"
  obtain l where l: "life_run ?es booted = Some l" "lc_main l = AwaitingShutdown" "lc_shutdown l = AtWait" "lc_tcp l = OpenListener"
    "lc_web l = NilListener" "lc_background l = Ended" "lc_wg l = 1"
    by (simp add: booted_def new_life_def DefaultConfig_def life_defs second_def)
  have "life_step e l = None" if "due e l" for e
    using that l(2-7) by (cases e) (simp_all add: life_step_def)
  then show ?thesis using l by blast
qed

text \<open>
  C30. An invalid clean-up interval ends the process: if \<^verbatim>\<open>IM_SESSION_CLEANUP\<close> is set to a text that is no duration, the
  warning says that the default is used, the interval becomes 0, and the goroutine that New started for
  the sessions in memory panics in \<^verbatim>\<open>time.NewTicker\<close>.
\<close>

theorem invalid_interval_crashes:
  assumes "any_order order" "look ''IM_SESSION_CLEANUP'' = Some v" "parse v = None" "look ''IM_SESSION_BACKEND'' = None"
    and "main_start (Load order parse look None env) [] start_server = Running srv cfg l"
  shows "map_option lc_crashed (life_step BackgroundStarts l) = Some True"
proof -
  have "cfg = merged_config parse look DefaultConfig" "l = WGAdd 2 (new_life cfg)"
    using assms(5) overrides_merged [OF assms(1), of parse look DefaultConfig]
    by (auto simp: main_start_def Load_def Let_def split: sum.splits)
  then show ?thesis
    using assms(2-4)
    by (simp add: life_step_def new_life_def WGAdd_def merged_config_def parseEnvDuration_def DefaultConfig_def)
qed

theorem invalid_interval_crashes_witness:
  "map_option lc_crashed (life_step BackgroundStarts
     (WGAdd 2 (new_life (merged_config (\<lambda>_. None) [''IM_SESSION_CLEANUP'' \<mapsto> ''30''] DefaultConfig)))) = Some True"
proof -
  have o: "any_order (\<lambda>xs. xs)" by (simp add: any_order_id)
  have "main_start (Load (\<lambda>xs. xs) (\<lambda>_. None) [''IM_SESSION_CLEANUP'' \<mapsto> ''30''] None ''dev'') [] (\<lambda>_. Inr ()) =
    Running () (merged_config (\<lambda>_. None) [''IM_SESSION_CLEANUP'' \<mapsto> ''30''] DefaultConfig)
      (WGAdd 2 (new_life (merged_config (\<lambda>_. None) [''IM_SESSION_CLEANUP'' \<mapsto> ''30''] DefaultConfig)))"
    by (simp add: main_start_def Load_def overrides_merged [OF o] Let_def)
  from invalid_interval_crashes [OF o _ _ _ this] show ?thesis by simp
qed

end
