(* ===== verification/Config_File.thy ===== *)
theory Config_File
  imports Config Json
begin

text \<open>
  The configuration file: \<^verbatim>\<open>Load\<close> of \<^verbatim>\<open>internal/config/config.go\<close> unmarshals the JSON of
  \<^verbatim>\<open>config/{env}.json\<close> over the defaults, with \<^verbatim>\<open>UnmarshalJSON\<close> of \<^verbatim>\<open>Duration\<close> for the times.
  \<^verbatim>\<open>time.ParseDuration\<close> is the argument \<open>parse\<close>, as in the theory \<open>Config\<close>.
\<close>

section \<open>Definitions\<close>

text \<open>
  Storing a JSON value in a field; \<^const>\<open>None\<close> is an error, after which \<^verbatim>\<open>Load\<close> gives no
  configuration.  Null leaves a field as it is, but \<^verbatim>\<open>UnmarshalJSON\<close> is called for null too: the
  string in it stays empty.  A number for an \<^verbatim>\<open>int\<close> is a literal without fraction and exponent.
\<close>

definition set_string :: "(string \<Rightarrow> 'c \<Rightarrow> 'c) \<Rightarrow> json \<Rightarrow> 'c \<Rightarrow> 'c option" where
  "set_string f v c = (case v of JStr x \<Rightarrow> Some (f x c) | JNull \<Rightarrow> Some c | _ \<Rightarrow> None)"

definition set_int :: "(int \<Rightarrow> 'c \<Rightarrow> 'c) \<Rightarrow> json \<Rightarrow> 'c \<Rightarrow> 'c option" where
  "set_int f v c =
     (case v of JNum x \<Rightarrow> map_option (\<lambda>n. f n c) (Atoi x) | JNull \<Rightarrow> Some c | _ \<Rightarrow> None)"

definition set_bool :: "(bool \<Rightarrow> 'c \<Rightarrow> 'c) \<Rightarrow> json \<Rightarrow> 'c \<Rightarrow> 'c option" where
  "set_bool f v c = (case v of JBool b \<Rightarrow> Some (f b c) | JNull \<Rightarrow> Some c | _ \<Rightarrow> None)"

definition Duration_UnmarshalJSON :: "(string \<Rightarrow> int option) \<Rightarrow> json \<Rightarrow> int option" where
  "Duration_UnmarshalJSON parse b = (case b of JStr s \<Rightarrow> parse s | JNull \<Rightarrow> parse [] | _ \<Rightarrow> None)"

text \<open>\<^verbatim>\<open>MarshalJSON\<close>; \<open>show\<close> is \<^verbatim>\<open>String\<close> of \<^verbatim>\<open>time.Duration\<close>.\<close>

definition Duration_MarshalJSON :: "(int \<Rightarrow> string) \<Rightarrow> int \<Rightarrow> string" where
  "Duration_MarshalJSON show d = json_string (show d)"

definition ToDuration :: "int \<Rightarrow> int" where
  "ToDuration d = d"

definition set_duration :: "(string \<Rightarrow> int option) \<Rightarrow> (int \<Rightarrow> 'c \<Rightarrow> 'c) \<Rightarrow> json \<Rightarrow> 'c \<Rightarrow> 'c option" where
  "set_duration parse f v c = map_option (\<lambda>d. f d c) (Duration_UnmarshalJSON parse v)"

type_synonym 'c setter = "json \<Rightarrow> 'c \<Rightarrow> 'c option"

text \<open>The members of an object one after the other; a member without a field is ignored.\<close>

fun set_members :: "(string \<times> 'c setter) list \<Rightarrow> (string \<times> json) list \<Rightarrow> 'c \<Rightarrow> 'c option" where
  "set_members setters [] c = Some c"
| "set_members setters ((k, v) # ms) c =
     (case map_of setters (fold_name k) of
        None \<Rightarrow> set_members setters ms c
      | Some store \<Rightarrow> (case store v c of None \<Rightarrow> None | Some c' \<Rightarrow> set_members setters ms c'))"

definition set_struct :: "(string \<times> 'c setter) list \<Rightarrow> 'c setter" where
  "set_struct setters v c =
     (case v of JObj ms \<Rightarrow> set_members setters ms c | JNull \<Rightarrow> Some c | _ \<Rightarrow> None)"

text \<open>A struct inside another one.\<close>

definition set_inner :: "('d \<Rightarrow> 'c) \<Rightarrow> ('c \<Rightarrow> 'd \<Rightarrow> 'd) \<Rightarrow> 'c setter \<Rightarrow> 'd setter" where
  "set_inner get put store v d = map_option (\<lambda>c. put c d) (store v (get d))"

definition server_setters :: "(string \<Rightarrow> int option) \<Rightarrow> (string \<times> ServerConfig setter) list" where
  "server_setters parse =
     [(''ip'', set_string (\<lambda>x c. c\<lparr>sc_IP := x\<rparr>)),
      (''port'', set_int (\<lambda>x c. c\<lparr>sc_Port := x\<rparr>)),
      (''tls'', set_bool (\<lambda>x c. c\<lparr>sc_TLS := x\<rparr>)),
      (''idle_timeout'', set_duration parse (\<lambda>x c. c\<lparr>sc_IdleTimeout := x\<rparr>))]"

definition web_setters :: "(string \<times> WebConfig setter) list" where
  "web_setters =
     [(''addr'', set_string (\<lambda>x c. c\<lparr>wbc_Addr := x\<rparr>)), (''upload_dir'', set_string (\<lambda>x c. c\<lparr>wbc_UploadDir := x\<rparr>))]"

definition db_setters :: "(string \<times> string setter) list" where
  "db_setters = [(''path'', set_string (\<lambda>x c. x))]"

definition app_setters :: "(string \<Rightarrow> int option) \<Rightarrow> (string \<times> AppConfig setter) list" where
  "app_setters parse =
     [(''session_ttl'', set_duration parse (\<lambda>x c. c\<lparr>ac_SessionTTL := x\<rparr>)),
      (''session_cleanup'', set_duration parse (\<lambda>x c. c\<lparr>ac_SessionCleanup := x\<rparr>)),
      (''rate_limit'', set_int (\<lambda>x c. c\<lparr>ac_RateLimit := x\<rparr>)),
      (''rate_window'', set_duration parse (\<lambda>x c. c\<lparr>ac_RateWindow := x\<rparr>)),
      (''max_msg_length'', set_int (\<lambda>x c. c\<lparr>ac_MaxMsgLength := x\<rparr>)),
      (''history_limit'', set_int (\<lambda>x c. c\<lparr>ac_HistoryLimit := x\<rparr>)),
      (''history_max'', set_int (\<lambda>x c. c\<lparr>ac_HistoryMax := x\<rparr>)),
      (''session_backend'', set_string (\<lambda>x c. c\<lparr>ac_SessionBackend := x\<rparr>)),
      (''redis_addr'', set_string (\<lambda>x c. c\<lparr>ac_RedisAddr := x\<rparr>)),
      (''redis_password'', set_string (\<lambda>x c. c\<lparr>ac_RedisPassword := x\<rparr>)),
      (''redis_db'', set_int (\<lambda>x c. c\<lparr>ac_RedisDB := x\<rparr>))]"

definition config_setters :: "(string \<Rightarrow> int option) \<Rightarrow> (string \<times> Config setter) list" where
  "config_setters parse =
     [(''server'', set_inner cf_Server (\<lambda>x c. c\<lparr>cf_Server := x\<rparr>) (set_struct (server_setters parse))),
      (''web'', set_inner cf_Web (\<lambda>x c. c\<lparr>cf_Web := x\<rparr>) (set_struct web_setters)),
      (''db'', set_inner cf_DBPath (\<lambda>x c. c\<lparr>cf_DBPath := x\<rparr>) (set_struct db_setters)),
      (''app'', set_inner cf_App (\<lambda>x c. c\<lparr>cf_App := x\<rparr>) (set_struct (app_setters parse)))]"

definition config_unmarshal :: "(string \<Rightarrow> int option) \<Rightarrow> string \<Rightarrow> Config \<Rightarrow> Config res" where
  "config_unmarshal parse data cfg =
     (case json_parse data of
        None \<Rightarrow> Inl ''invalid JSON''
      | Some v \<Rightarrow>
          (case set_struct (config_setters parse) v cfg of
             None \<Rightarrow> Inl ''cannot unmarshal''
           | Some cfg' \<Rightarrow> Inr cfg'))"

text \<open>\<open>data\<close> is the content of the file, \<^const>\<open>None\<close> if it cannot be read.\<close>

definition Load_file ::
  "((string \<times> (Config \<Rightarrow> Config)) list \<Rightarrow> (string \<times> (Config \<Rightarrow> Config)) list) \<Rightarrow>
   (string \<Rightarrow> int option) \<Rightarrow> lookup_env \<Rightarrow> string option \<Rightarrow> string \<Rightarrow> Config res" where
  "Load_file order parse look data env = Load order parse look (map_option (config_unmarshal parse) data) env"

section \<open>What a file changes\<close>

lemma set_members_frame:
  assumes "set_members setters ms c = Some c'" "\<forall>(k, _) \<in> set ms. fold_name k \<noteq> n"
    and "\<And>k store v c c'. (k, store) \<in> set setters \<Longrightarrow> k \<noteq> n \<Longrightarrow> store v c = Some c' \<Longrightarrow> g c' = g c"
  shows "g c' = g c"
  using assms
proof (induction setters ms c rule: set_members.induct)
  case (2 setters k v ms c)
  have rest: "\<forall>(k, _) \<in> set ms. fold_name k \<noteq> n" using "2.prems"(2) by simp
  show ?case
  proof (cases "map_of setters (fold_name k)")
    case None
    then show ?thesis using 2 rest by simp
  next
    case (Some store)
    then obtain c1 where c1: "store v c = Some c1" "set_members setters ms c1 = Some c'"
      using "2.prems"(1) by (auto split: option.splits)
    have "g c1 = g c" by (rule "2.prems"(3) [OF map_of_SomeD [OF Some] _ c1(1)]) (use "2.prems"(2) in simp)
    then show ?thesis using "2.IH"(2) [OF Some c1 rest] "2.prems"(3) by simp
  qed
qed simp

text \<open>A section that the file does not name keeps its defaults.\<close>

lemma file_keeps_section:
  assumes "json_parse data = Some (JObj ms)" "config_unmarshal parse data cfg = Inr cfg'"
    "\<forall>(k, _) \<in> set ms. fold_name k \<noteq> ''app''"
  shows "cf_App cfg' = cf_App cfg"
proof -
  have s: "set_members (config_setters parse) ms cfg = Some cfg'"
    using assms(1,2) by (auto simp: config_unmarshal_def set_struct_def split: option.splits)
  show ?thesis
    by (rule set_members_frame [OF s assms(3)])
      (auto simp: config_setters_def set_inner_def)
qed

definition small_file :: string where
  "small_file = map (\<lambda>c. if c = CHR '';'' then quote else c) ''{;app;: {;rate_limit;:100}}''"

lemma small_file_parses: "json_parse small_file = Some (JObj [(''app'', JObj [(''rate_limit'', JNum ''100'')])])"
  by code_simp

lemma small_file_loads:
  "Load_file (\<lambda>xs. xs) parse (\<lambda>_. None) (Some small_file) ''test'' =
     Inr (DefaultConfig\<lparr>cf_App := (cf_App DefaultConfig)\<lparr>ac_RateLimit := 100\<rparr>\<rparr>)"
proof -
  have n: "fold_name ''app'' = ''app''" "fold_name ''rate_limit'' = ''rate_limit''" "Atoi ''100'' = Some 100" by code_simp+
  have "set_struct (config_setters parse) (JObj [(''app'', JObj [(''rate_limit'', JNum ''100'')])]) DefaultConfig =
    Some (DefaultConfig\<lparr>cf_App := (cf_App DefaultConfig)\<lparr>ac_RateLimit := 100\<rparr>\<rparr>)"
    by (simp add: set_struct_def config_setters_def set_inner_def app_setters_def set_int_def n(3) ascii_lower_def HasPrefix_def)
  then have "config_unmarshal parse small_file DefaultConfig = Inr (DefaultConfig\<lparr>cf_App := (cf_App DefaultConfig)\<lparr>ac_RateLimit := 100\<rparr>\<rparr>)"
    by (simp add: config_unmarshal_def small_file_parses)
  then show ?thesis
    by (simp add: Load_file_def Load_def applyEnvOverrides_def overrides_def apply_if_set_def)
qed

end
