(* ===== verification/Redis_Session.thy ===== *)
theory Redis_Session
  imports Session_Store Config
begin

text \<open>
  Sessions in Redis, \<^verbatim>\<open>internal/server/redis_session.go\<close>.  The Redis client is an argument: the
  record \<open>redis\<close> has the four commands the store uses, on a database of some type.  What the
  store relies on is \<open>redis_documented\<close>, the documented behaviour of the commands read through a
  function \<open>look\<close> that gives the value and the expiry of a key.  Under it the store meets the
  same interface as the store in memory.
\<close>

section \<open>The commands\<close>

text \<open>
  \<open>rd_set\<close> is \<^verbatim>\<open>SET\<close> with an expiry (0 for none) and gives the error, if any; \<open>rd_get\<close> gives an
  error for a missing key; \<open>rd_ttl\<close> is \<^verbatim>\<open>TTL(...).Val()\<close>, which is 0 after an error, \<open>-1\<close> for a key
  without expiry and \<open>-2\<close> for a missing key.
\<close>

record 'r redis =
  rd_set :: "int \<Rightarrow> string \<Rightarrow> string \<Rightarrow> int \<Rightarrow> 'r \<Rightarrow> string option \<times> 'r"
  rd_get :: "int \<Rightarrow> string \<Rightarrow> 'r \<Rightarrow> string res"
  rd_ttl :: "int \<Rightarrow> string \<Rightarrow> 'r \<Rightarrow> int"
  rd_del :: "int \<Rightarrow> string \<Rightarrow> 'r \<Rightarrow> 'r"

section \<open>The store\<close>

definition NewRedisSessionStore :: "string option \<Rightarrow> unit res" where
  "NewRedisSessionStore ping = (case ping of Some e \<Rightarrow> Inl (''redis ping failed: '' @ e) | None \<Rightarrow> Inr ())"

definition redisCreate :: "'r redis \<Rightarrow> 8 word list res \<Rightarrow> int \<Rightarrow> string \<Rightarrow> int \<Rightarrow> 'r \<Rightarrow> string res \<times> 'r" where
  "redisCreate rd rnd now username ttl s =
     (case generateToken rnd of
        Inl e \<Rightarrow> (Inl e, s)
      | Inr token \<Rightarrow>
          (case rd_set rd now token username ttl s of
             (Some e, s1) \<Rightarrow> (Inl (''redis set failed: '' @ e), s1)
           | (None, s1) \<Rightarrow> (Inr token, s1)))"

definition redisGetUsername :: "'r redis \<Rightarrow> int \<Rightarrow> string \<Rightarrow> 'r \<Rightarrow> string option" where
  "redisGetUsername rd now token s = (case rd_get rd now token s of Inl _ \<Rightarrow> None | Inr val \<Rightarrow> Some val)"

definition redisUpdateUsername :: "'r redis \<Rightarrow> int \<Rightarrow> string \<Rightarrow> string \<Rightarrow> 'r \<Rightarrow> 'r" where
  "redisUpdateUsername rd now token username s =
     (let ttl = rd_ttl rd now token s
      in if ttl > 0 then snd (rd_set rd now token username ttl s)
         else if ttl = -1 then snd (rd_set rd now token username 0 s)
         else s)"

definition redisDelete :: "'r redis \<Rightarrow> int \<Rightarrow> string \<Rightarrow> 'r \<Rightarrow> 'r" where
  "redisDelete rd now token s = rd_del rd now token s"

definition redisCleanup :: "'r redis \<Rightarrow> int \<Rightarrow> 'r \<Rightarrow> 'r" where
  "redisCleanup rd expiredBefore s = s"

text \<open>One operation of a run on the store in Redis.\<close>

fun redis_step :: "'r redis \<Rightarrow> int \<Rightarrow> session_op \<Rightarrow> 'r \<Rightarrow> 'r" where
  "redis_step rd now (OpCreate b u ttl) s = snd (redisCreate rd (Inr b) now u ttl s)"
| "redis_step rd now (OpGet tok) s = s"
| "redis_step rd now (OpUpdate tok u) s = redisUpdateUsername rd now tok u s"
| "redis_step rd now (OpDelete tok) s = redisDelete rd now tok s"
| "redis_step rd now OpCleanup s = redisCleanup rd now s"

fun redis_run :: "'r redis \<Rightarrow> (int \<times> session_op) list \<Rightarrow> 'r \<Rightarrow> 'r" where
  "redis_run rd [] s = s"
| "redis_run rd ((now, p) # ps) s = redis_run rd ps (redis_step rd now p s)"

section \<open>What Redis documents\<close>

type_synonym 'r look = "int \<Rightarrow> 'r \<Rightarrow> string \<Rightarrow> (string \<times> int option) option"

text \<open>A key keeps its value until its expiry and is gone from then on.\<close>

definition keys_expire :: "'r look \<Rightarrow> bool" where
  "keys_expire look =
     (\<forall>t t' s k. t \<le> t' \<longrightarrow>
        look t' s k = (case look t s k of
            None \<Rightarrow> None
          | Some (v, None) \<Rightarrow> Some (v, None)
          | Some (v, Some e) \<Rightarrow> if t' < e then Some (v, Some e) else None))"

definition set_documented :: "'r redis \<Rightarrow> 'r look \<Rightarrow> bool" where
  "set_documented rd look =
     (\<forall>now k v ex s t. now \<le> t \<longrightarrow>
        (0 \<le> ex \<longrightarrow> fst (rd_set rd now k v ex s) = None
          \<and> look t (snd (rd_set rd now k v ex s)) k =
              (if ex = 0 then Some (v, None) else if t < now + ex then Some (v, Some (now + ex)) else None))
        \<and> (\<forall>k'. k' \<noteq> k \<longrightarrow> look t (snd (rd_set rd now k v ex s)) k' = look t s k'))"

definition get_documented :: "'r redis \<Rightarrow> 'r look \<Rightarrow> bool" where
  "get_documented rd look =
     (\<forall>now k s. case look now s k of
        None \<Rightarrow> (\<exists>e. rd_get rd now k s = Inl e)
      | Some (v, _) \<Rightarrow> rd_get rd now k s = Inr v)"

definition del_documented :: "'r redis \<Rightarrow> 'r look \<Rightarrow> bool" where
  "del_documented rd look =
     (\<forall>now k k' s t. now \<le> t \<longrightarrow> look t (rd_del rd now k s) k' = (if k' = k then None else look t s k'))"

text \<open>\<^verbatim>\<open>TTL\<close> counts in whole seconds, rounded.\<close>

definition ttl_documented :: "'r redis \<Rightarrow> 'r look \<Rightarrow> bool" where
  "ttl_documented rd look =
     (\<forall>now k s. case look now s k of
        None \<Rightarrow> rd_ttl rd now k s = -2
      | Some (_, None) \<Rightarrow> rd_ttl rd now k s = -1
      | Some (_, Some e) \<Rightarrow> (\<exists>n. rd_ttl rd now k s = n * second \<and> 2 * \<bar>n * second - (e - now)\<bar> \<le> second))"

definition redis_documented :: "'r redis \<Rightarrow> 'r look \<Rightarrow> bool" where
  "redis_documented rd look =
     (keys_expire look \<and> set_documented rd look \<and> get_documented rd look \<and> del_documented rd look \<and> ttl_documented rd look)"

lemmas redis_docs =
  redis_documented_def keys_expire_def set_documented_def get_documented_def del_documented_def ttl_documented_def

text \<open>Redis over an association list, for concrete runs.\<close>

definition plain_look :: "(string \<times> int option) gomap look" where
  "plain_look now s k =
     (case map_of s k of
        Some (v, Some e) \<Rightarrow> if now < e then Some (v, Some e) else None
      | x \<Rightarrow> x)"

definition plain_redis :: "(string \<times> int option) gomap redis" where
  "plain_redis =
     \<lparr>rd_set = (\<lambda>now k v ex s. if ex < 0 then (Some ''invalid expire time'', s)
          else (None, AList.update k (v, if ex = 0 then None else Some (now + ex)) s)),
      rd_get = (\<lambda>now k s. case plain_look now s k of None \<Rightarrow> Inl ''redis: nil'' | Some (v, _) \<Rightarrow> Inr v),
      rd_ttl = (\<lambda>now k s. case plain_look now s k of
          None \<Rightarrow> -2 | Some (_, None) \<Rightarrow> -1 | Some (_, Some e) \<Rightarrow> (e - now + second div 2) div second * second),
      rd_del = (\<lambda>now k s. AList.delete k s)\<rparr>"

lemma rounded_seconds: "2 * \<bar>(d + second div 2) div second * second - d\<bar> \<le> second" for d :: int
proof -
  let ?q = "(d + second div 2) div second" and ?m = "(d + second div 2) mod second"
  have "?q * second + ?m = d + second div 2" by (rule div_mult_mod_eq)
  moreover have "0 \<le> ?m" "?m < second" by (simp_all add: second_def)
  moreover have "second div 2 * 2 = second" by (simp add: second_def)
  ultimately have "?q * second - d \<le> second div 2" "- (?q * second - d) \<le> second div 2" "second div 2 * 2 = second"
    by linarith+
  then show ?thesis by (metis abs_leI mult.commute mult_left_mono zero_le_numeral)
qed

lemma plain_redis_documented: "redis_documented plain_redis plain_look"
  unfolding redis_docs
proof (intro conjI allI impI)
  fix now k s
  show "case plain_look now s k of
        None \<Rightarrow> rd_ttl plain_redis now k s = -2
      | Some (_, None) \<Rightarrow> rd_ttl plain_redis now k s = -1
      | Some (_, Some e) \<Rightarrow> (\<exists>n. rd_ttl plain_redis now k s = n * second \<and> 2 * \<bar>n * second - (e - now)\<bar> \<le> second)"
    using rounded_seconds by (auto simp: plain_redis_def split: option.split)
qed (auto simp: plain_redis_def plain_look_def gomap_simps split: option.split)

section \<open>The store meets the interface\<close>

lemma redisGetUsername_look:
  "redis_documented rd look \<Longrightarrow> redisGetUsername rd t tok s = map_option fst (look t s tok)"
  unfolding redis_documented_def get_documented_def redisGetUsername_def
  by (elim conjE, drule_tac x = t in spec, drule_tac x = tok in spec, drule_tac x = s in spec) (auto split: option.splits)

text \<open>The state after \<^verbatim>\<open>Create\<close> has drawn the token.\<close>

definition redis_add :: "'r redis \<Rightarrow> string \<Rightarrow> int \<Rightarrow> string \<Rightarrow> int \<Rightarrow> 'r \<Rightarrow> 'r" where
  "redis_add rd tok now u ttl s = snd (rd_set rd now tok u ttl s)"

lemma redisCreate_adds:
  assumes "redis_documented rd look" "0 \<le> ttl"
  shows "redisCreate rd (Inr b) now u ttl s = (Inr (EncodeToString b), redis_add rd (EncodeToString b) now u ttl s)"
proof -
  have "fst (rd_set rd now (EncodeToString b) u ttl s) = None"
    using assms order_refl unfolding redis_documented_def set_documented_def by blast
  then show ?thesis
    by (auto simp: redisCreate_def generateToken_def redis_add_def split: prod.splits option.splits)
qed

lemma redisCreate_state: "snd (redisCreate rd (Inr b) now u ttl s) = redis_add rd (EncodeToString b) now u ttl s"
  by (simp add: redisCreate_def generateToken_def redis_add_def split: prod.split option.split)

lemma look_set:
  assumes "redis_documented rd look" "now \<le> t"
  shows "0 \<le> ex \<Longrightarrow> look t (snd (rd_set rd now k v ex s)) k =
      (if ex = 0 then Some (v, None) else if t < now + ex then Some (v, Some (now + ex)) else None)"
    and "k' \<noteq> k \<Longrightarrow> look t (snd (rd_set rd now k v ex s)) k' = look t s k'"
  using assms unfolding redis_documented_def set_documented_def by blast+

lemma look_later:
  assumes "redis_documented rd look" "t \<le> t'"
  shows "look t' s k = (case look t s k of None \<Rightarrow> None | Some (v, None) \<Rightarrow> Some (v, None)
      | Some (v, Some e) \<Rightarrow> if t' < e then Some (v, Some e) else None)"
  using assms unfolding redis_documented_def keys_expire_def by blast

lemma look_del:
  assumes "redis_documented rd look" "now \<le> t"
  shows "look t (rd_del rd now k s) k' = (if k' = k then None else look t s k')"
  using assms unfolding redis_documented_def del_documented_def by blast

lemma ttl_cases:
  assumes "redis_documented rd look"
  obtains "look now s k = None" "rd_ttl rd now k s = -2"
  | v where "look now s k = Some (v, None)" "rd_ttl rd now k s = -1"
  | v e n where "look now s k = Some (v, Some e)" "rd_ttl rd now k s = n * second" "2 * \<bar>n * second - (e - now)\<bar> \<le> second"
proof -
  have "case look now s k of
        None \<Rightarrow> rd_ttl rd now k s = -2
      | Some (_, None) \<Rightarrow> rd_ttl rd now k s = -1
      | Some (_, Some e) \<Rightarrow> (\<exists>n. rd_ttl rd now k s = n * second \<and> 2 * \<bar>n * second - (e - now)\<bar> \<le> second)"
    using assms unfolding redis_documented_def ttl_documented_def by blast
  note doc = this
  show thesis
  proof (cases "look now s k")
    case None
    then show ?thesis using doc that(1) by simp
  next
    case (Some p)
    obtain v x where p: "p = (v, x)" by (cases p)
    show ?thesis using doc Some p that(2,3) [of v] by (cases x) auto
  qed
qed

lemma redis_store:
  assumes "redis_documented rd look"
  shows "session_store (\<lambda>t s tok. redisGetUsername rd t tok s) (redis_add rd)
    (\<lambda>now tok s. (redisGetUsername rd now tok s, s)) (redisUpdateUsername rd) (redisDelete rd) (redisCleanup rd)
    (\<lambda>_. True) (<) (\<lambda>ttl. 0 < ttl)"
proof -
  note g = redisGetUsername_look [OF assms]
  have other: "look t (redisUpdateUsername rd now tok u s) tok' = look t s tok'" if "now \<le> t" "tok' \<noteq> tok" for t now tok tok' u s
    using look_set(2) [OF assms that(1)] that(2) by (simp add: redisUpdateUsername_def Let_def)
  have dead: "look t (redisUpdateUsername rd now tok u s) tok = None" if "now \<le> t" "look now s tok = None" for t now tok u s
    using that look_later [OF assms that(1), of s tok]
    by (cases rule: ttl_cases [OF assms, of now s tok]) (auto simp: redisUpdateUsername_def)
  show ?thesis
    by unfold_locales
      (auto simp: g redis_add_def look_set [OF assms] other dead redisDelete_def look_del [OF assms] redisCleanup_def
        look_later [OF assms] split: option.splits)
qed

text \<open>The runs of the interface are the runs of the store.\<close>

lemma redis_exec_all:
  assumes "redis_documented rd look"
  shows "session_store.exec_all (redis_add rd) (\<lambda>now tok s. (redisGetUsername rd now tok s, s)) (redisUpdateUsername rd)
    (redisDelete rd) (redisCleanup rd) ps s = redis_run rd ps s"
proof -
  note st = redis_store [OF assms]
  have "session_store.exec (redis_add rd) (\<lambda>now tok s. (redisGetUsername rd now tok s, s)) (redisUpdateUsername rd)
    (redisDelete rd) (redisCleanup rd) now p s = redis_step rd now p s" for now p s
    by (cases p) (simp_all add: session_store.exec.simps [OF st] redisCreate_state)
  then show ?thesis
    by (induction ps arbitrary: s) (auto simp: session_store.exec_all.simps [OF st])
qed

section \<open>Properties\<close>

text \<open>
  C21. Sessions in Redis live as long as sessions in memory: a token created with a positive session time stands
  for its user until that time is over and for nobody afterwards, after any run of operations
  that do not update, delete or overwrite it, given that Redis behaves as documented.
\<close>

theorem redis_session_lifetime:
  assumes "redis_documented rd look" "0 < ttl" "now \<le> t" "redisCreate rd (Inr b) now u ttl s = (Inr tok, s')"
    and "\<forall>(now', p) \<in> set ps. \<not> touches tok p \<and> now' \<le> t"
  shows "redisGetUsername rd t tok (redis_run rd ps s') = (if t < now + ttl then Some u else None)"
proof -
  have s': "tok = EncodeToString b" "s' = redis_add rd tok now u ttl s"
    using redisCreate_adds [OF assms(1), of ttl b now u s] assms(2,4) by auto
  show ?thesis
    using session_store.token_lifetime [OF redis_store [OF assms(1)], where s = s and ttl = ttl and now = now and t = t
        and ps = ps and tok = tok and u = u] assms(2,3,5)
    by (simp add: redis_exec_all [OF assms(1)] s'(2))
qed

theorem redis_session_lifetime_witness:
  "redisGetUsername plain_redis 14 (EncodeToString (replicate 16 0)) (redis_run plain_redis [(6, OpDelete ''x''), (7, OpCleanup)]
     (snd (redisCreate plain_redis (Inr (replicate 16 0)) 5 ''alice'' 10 []))) = Some ''alice''"
proof -
  let ?s = "snd (redisCreate plain_redis (Inr (replicate 16 0)) 5 ''alice'' 10 [])"
  have c: "redisCreate plain_redis (Inr (replicate 16 0)) 5 ''alice'' 10 [] = (Inr (EncodeToString (replicate 16 0)), ?s)"
    using redisCreate_adds [OF plain_redis_documented, of 10] by simp
  have "EncodeToString (replicate 16 0) \<noteq> ''x''" by code_simp
  with redis_session_lifetime [OF plain_redis_documented _ _ c, where ps = "[(6, OpDelete ''x''), (7, OpCleanup)]" and t = 14]
  show ?thesis by simp
qed

text \<open>
  Renaming in Redis moves the expiry: \<^verbatim>\<open>UpdateUsername\<close> on a live token either sets a new expiry that is at most half a
  second away from the old one, because \<^verbatim>\<open>TTL\<close> counts whole seconds, or, when at most half a
  second is left, does nothing at all, so that the token keeps the old name.
\<close>

theorem redis_rename_moves_expiry:
  assumes "redis_documented rd look" "look now s tok = Some (v, Some e)"
  shows "(\<exists>d. 2 * \<bar>d - e\<bar> \<le> second \<and>
        (\<forall>t \<ge> now. redisGetUsername rd t tok (redisUpdateUsername rd now tok u s) = (if t < d then Some u else None)))
    \<or> 2 * (e - now) \<le> second \<and> redisUpdateUsername rd now tok u s = s"
proof -
  obtain n where n: "rd_ttl rd now tok s = n * second" "2 * \<bar>n * second - (e - now)\<bar> \<le> second"
    using assms(2) by (cases rule: ttl_cases [OF assms(1), of now s tok]) auto
  show ?thesis
  proof (cases "n * second > 0")
    case True
    let ?d = "now + n * second"
    have "redisGetUsername rd t tok (redisUpdateUsername rd now tok u s) = (if t < ?d then Some u else None)" if "now \<le> t" for t
      using True n(1) look_set(1) [OF assms(1) that, of "n * second"] redisGetUsername_look [OF assms(1)]
      by (auto simp: redisUpdateUsername_def)
    moreover have "2 * \<bar>?d - e\<bar> \<le> second" using n(2) by (simp add: algebra_simps)
    ultimately show ?thesis by blast
  next
    case False
    have "n * second \<noteq> -1"
    proof
      assume "n * second = -1"
      then have "second dvd -1" by (metis dvd_triv_right)
      then show False by (simp add: second_def)
    qed
    then have "redisUpdateUsername rd now tok u s = s" using False n(1) by (simp add: redisUpdateUsername_def)
    moreover have "2 * (e - now) \<le> second"
      using n(2) False by arith
    ultimately show ?thesis by blast
  qed
qed

theorem redis_rename_moves_expiry_witness:
  "\<exists>d. 2 * \<bar>d - 10 * second\<bar> \<le> second
     \<and> redisGetUsername plain_redis 5 ''t'' (redisUpdateUsername plain_redis 0 ''t'' ''bob'' [(''t'', (''alice'', Some (10 * second)))])
         = Some ''bob''"
proof -
  let ?s = "[(''t'', (''alice'', Some (10 * second)))]"
  have l: "plain_look 0 ?s ''t'' = Some (''alice'', Some (10 * second))" by (simp add: plain_look_def second_def)
  have "\<not> 2 * (10 * second - 0) \<le> second" by (simp add: second_def)
  with redis_rename_moves_expiry [where look = plain_look, OF plain_redis_documented l, of "''bob''"] obtain d where
    d: "2 * \<bar>d - 10 * second\<bar> \<le> second"
    "\<forall>t \<ge> 0. redisGetUsername plain_redis t ''t'' (redisUpdateUsername plain_redis 0 ''t'' ''bob'' ?s) = (if t < d then Some ''bob'' else None)"
    by blast
  have "5 < d" using d(1) by (simp add: second_def)
  with d show ?thesis by auto
qed

text \<open>
  A session time of zero means opposite things: the store in memory drops the session at the next instant, the store in Redis
  never drops it.
\<close>

theorem zero_session_time:
  assumes "redis_documented rd look" "sessions_ok m" "now < t"
  shows "fst (GetUsername t (EncodeToString b) (snd (Create (Inr b) now u 0 m))) = None
    \<and> redisGetUsername rd t (EncodeToString b) (snd (redisCreate rd (Inr b) now u 0 s)) = Some u"
proof
  show "fst (GetUsername t (EncodeToString b) (snd (Create (Inr b) now u 0 m))) = None"
    using mem.token_lifetime [where s = m and ttl = 0 and now = now and t = t and ps = "[]" and tok = "EncodeToString b"
        and u = u] assms(2,3)
    by (simp add: Create_adds)
  show "redisGetUsername rd t (EncodeToString b) (snd (redisCreate rd (Inr b) now u 0 s)) = Some u"
    using look_set(1) [OF assms(1), of now t 0] assms(3) redisGetUsername_look [OF assms(1)]
    by (simp add: redisCreate_state redis_add_def)
qed

theorem zero_session_time_witness:
  "redisGetUsername plain_redis 99 (EncodeToString (replicate 16 0))
     (snd (redisCreate plain_redis (Inr (replicate 16 0)) 5 ''alice'' 0 [])) = Some ''alice''"
  using zero_session_time [OF plain_redis_documented sessions_ok_new, of 5 99 "replicate 16 0" "''alice''" "[]"] by simp

end
