(* ===== verification/Tcp_Client.thy ===== *)
theory Tcp_Client
  imports Chat_System
begin

text \<open>
  The command line client, \<^verbatim>\<open>cmd/client/main.go\<close>.  The user at the terminal and the server are
  outside: the client record holds what the calls of \<^verbatim>\<open>Scanln\<close> will store (\<^const>\<open>None\<close> where nothing is
  stored, as for an empty line; nothing is stored either once the input has ended), what the
  writes will report and what the reads will return.  The prompts are left out.  A loop that may
  not end is a partial function: its result \<^const>\<open>None\<close> is a client that never returns.
\<close>

section \<open>The client and its environment\<close>

record Client =
  cl_Name :: string
  cl_flag :: int
  cl_authenticated :: bool
  cl_strs :: "string option list"
  cl_ints :: "int option list"
  cl_wok :: "bool list"
  cl_lines :: "string res list"
  cl_sent :: "string list"

text \<open>\<^verbatim>\<open>NewClient\<close>: no client if the connection fails.\<close>

definition NewClient ::
  "unit res \<Rightarrow> string option list \<Rightarrow> int option list \<Rightarrow> bool list \<Rightarrow> string res list \<Rightarrow> Client option" where
  "NewClient dial strs ints woks ls =
     (case dial of
        Inl _ \<Rightarrow> None
      | Inr _ \<Rightarrow> Some \<lparr>cl_Name = [], cl_flag = 99, cl_authenticated = False, cl_strs = strs, cl_ints = ints,
          cl_wok = woks, cl_lines = ls, cl_sent = []\<rparr>)"

text \<open>\<^verbatim>\<open>fmt.Scanln\<close> into a string and into a number that hold \<open>old\<close>.\<close>

definition scan_str :: "string \<Rightarrow> Client \<Rightarrow> string \<times> Client" where
  "scan_str old c =
     (case cl_strs c of
        [] \<Rightarrow> (old, c)
      | x # r \<Rightarrow> ((case x of None \<Rightarrow> old | Some v \<Rightarrow> v), c\<lparr>cl_strs := r\<rparr>))"

definition scan_int :: "int \<Rightarrow> Client \<Rightarrow> int \<times> Client" where
  "scan_int old c =
     (case cl_ints c of
        [] \<Rightarrow> (old, c)
      | x # r \<Rightarrow> ((case x of None \<Rightarrow> old | Some v \<Rightarrow> v), c\<lparr>cl_ints := r\<rparr>))"

text \<open>
  \<^verbatim>\<open>c.writer.WriteString\<close> and \<^verbatim>\<open>Flush\<close> of one line, and whether \<^verbatim>\<open>WriteString\<close> succeeds; \<^verbatim>\<open>cl_sent\<close> is
  what the writer accepted (the code never looks at the result of \<^verbatim>\<open>Flush\<close>).
\<close>

definition write_line :: "string \<Rightarrow> Client \<Rightarrow> bool \<times> Client" where
  "write_line msg c =
     (case cl_wok c of
        [] \<Rightarrow> (True, c\<lparr>cl_sent := cl_sent c @ [msg]\<rparr>)
      | True # r \<Rightarrow> (True, c\<lparr>cl_sent := cl_sent c @ [msg], cl_wok := r\<rparr>)
      | False # r \<Rightarrow> (False, c\<lparr>cl_wok := r\<rparr>))"

definition read_line :: "Client \<Rightarrow> string res \<times> Client" where
  "read_line c = (case cl_lines c of [] \<Rightarrow> (Inl ''EOF'', c) | x # r \<Rightarrow> (x, c\<lparr>cl_lines := r\<rparr>))"

section \<open>Logging in\<close>

definition doLogin :: "Client \<Rightarrow> bool \<times> Client" where
  "doLogin c =
     (case scan_str [] c of (username, c1) \<Rightarrow>
     (case scan_str [] c1 of (password, c2) \<Rightarrow>
     (case write_line (''login|'' @ username @ ''|'' @ password @ [CHR 0x0A]) c2 of (ok, c3) \<Rightarrow>
     (if \<not> ok then (False, c3)
      else
     (case read_line c3 of
        (Inl _, c4) \<Rightarrow> (False, c4)
      | (Inr resp, c4) \<Rightarrow>
          if Contains (TrimSpace resp) txt_cl_login_ok
          then (True, c4\<lparr>cl_Name := username, cl_authenticated := True\<rparr>)
          else (False, c4))))))"

definition doRegister :: "Client \<Rightarrow> bool \<times> Client" where
  "doRegister c =
     (case scan_str [] c of (username, c1) \<Rightarrow>
     (case scan_str [] c1 of (password, c2) \<Rightarrow>
     (case write_line (''register|'' @ username @ ''|'' @ password @ [CHR 0x0A]) c2 of (ok, c3) \<Rightarrow>
     (if \<not> ok then (False, c3)
      else
     (case read_line c3 of
        (Inl _, c4) \<Rightarrow> (False, c4)
      | (Inr resp, c4) \<Rightarrow> (Contains (TrimSpace resp) txt_cl_register_ok, c4))))))"

definition authMenu :: "Client \<Rightarrow> bool \<times> Client" where
  "authMenu c =
     (case scan_int 0 c of (choice, c1) \<Rightarrow>
        if choice = 1 then doLogin c1
        else if choice = 2 then doRegister c1
        else (False, c1))"

section \<open>Chatting\<close>

definition menu :: "Client \<Rightarrow> bool \<times> Client" where
  "menu c =
     (case scan_int 0 c of (flag, c1) \<Rightarrow>
        if 0 \<le> flag \<and> flag \<le> 5 then (True, c1\<lparr>cl_flag := flag\<rparr>) else (False, c1))"

text \<open>Sending a text that is not empty; the flag says whether the loop goes on.\<close>

definition send_text :: "string \<Rightarrow> string \<Rightarrow> Client \<Rightarrow> bool \<times> Client" where
  "send_text text line c = (if text = [] then (True, c) else write_line line c)"

partial_function (option) public_loop :: "string \<Rightarrow> Client \<Rightarrow> Client option" where
  "public_loop chatMsg c =
     (if chatMsg = ''exit'' then Some c
      else
        (case send_text chatMsg (chatMsg @ [CHR 0x0A]) c of (ok, c1) \<Rightarrow>
           if \<not> ok then Some c1
           else (case scan_str [] c1 of (m, c2) \<Rightarrow> public_loop m c2)))"

definition PublicChat :: "Client \<Rightarrow> Client option" where
  "PublicChat c = (case scan_str [] c of (chatMsg, c1) \<Rightarrow> public_loop chatMsg c1)"

definition SearchUsers :: "Client \<Rightarrow> Client" where
  "SearchUsers c = snd (write_line (''who'' @ [CHR 0x0A]) c)"

text \<open>The inner loop of \<^verbatim>\<open>Privatechat\<close> keeps the last text, which the next round starts from.\<close>

partial_function (option) private_inner :: "string \<Rightarrow> string \<Rightarrow> Client \<Rightarrow> (string \<times> Client) option" where
  "private_inner remote chatMsg c =
     (if chatMsg = ''exit'' then Some (chatMsg, c)
      else
        (case send_text chatMsg (''to|'' @ remote @ ''|'' @ chatMsg @ [CHR 0x0A]) c of (ok, c1) \<Rightarrow>
           if \<not> ok then Some (chatMsg, c1)
           else (case scan_str [] c1 of (m, c2) \<Rightarrow> private_inner remote m c2)))"

partial_function (option) private_outer :: "string \<Rightarrow> string \<Rightarrow> Client \<Rightarrow> Client option" where
  "private_outer remote chatMsg c =
     (if remote = ''exit'' then Some c
      else
        (case scan_str chatMsg c of (m, c1) \<Rightarrow>
         Option.bind (private_inner remote m c1) (\<lambda>(m', c2).
           case scan_str remote (SearchUsers c2) of (remote', c3) \<Rightarrow> private_outer remote' m' c3)))"

definition Privatechat :: "Client \<Rightarrow> Client option" where
  "Privatechat c = (case scan_str [] (SearchUsers c) of (remote, c1) \<Rightarrow> private_outer remote [] c1)"

definition GroupChat :: "Client \<Rightarrow> Client" where
  "GroupChat c =
     (case scan_str [] c of (action, c1) \<Rightarrow>
      if action \<in> {''create'', ''join'', ''leave''} then
        (case scan_str [] c1 of (groupName, c2) \<Rightarrow>
           snd (write_line (''group|'' @ action @ ''|'' @ groupName @ [CHR 0x0A]) c2))
      else if action = ''send'' then
        (case scan_str [] c1 of (groupName, c2) \<Rightarrow>
         (case scan_str [] c2 of (content, c3) \<Rightarrow>
            snd (write_line (''group|send|'' @ groupName @ ''|'' @ content @ [CHR 0x0A]) c3)))
      else c1)"

definition UpdateName :: "Client \<Rightarrow> bool \<times> Client" where
  "UpdateName c =
     (case scan_str (cl_Name c) c of (name, c1) \<Rightarrow>
        write_line (''rename|'' @ name @ [CHR 0x0A]) (c1\<lparr>cl_Name := name\<rparr>))"

section \<open>Running\<close>

partial_function (option) auth_loop :: "Client \<Rightarrow> (bool \<times> Client) option" where
  "auth_loop c =
     (if cl_authenticated c then Some (True, c)
      else (case authMenu c of (ok, c1) \<Rightarrow> if ok then auth_loop c1 else Some (False, c1)))"

partial_function (option) menu_loop :: "Client \<Rightarrow> Client option" where
  "menu_loop c = (case menu c of (ok, c1) \<Rightarrow> if ok then Some c1 else menu_loop c1)"

definition chat_mode :: "Client \<Rightarrow> Client option" where
  "chat_mode c =
     (if cl_flag c = 1 then PublicChat c
      else if cl_flag c = 2 then Privatechat c
      else if cl_flag c = 3 then Some (GroupChat c)
      else if cl_flag c = 4 then Some (snd (UpdateName c))
      else if cl_flag c = 5 then Some (SearchUsers c)
      else Some c)"

partial_function (option) main_loop :: "Client \<Rightarrow> Client option" where
  "main_loop c =
     (if cl_flag c = 0 then Some c
      else Option.bind (menu_loop c) (\<lambda>c1. Option.bind (chat_mode c1) main_loop))"

definition Run :: "Client \<Rightarrow> Client option" where
  "Run c = Option.bind (auth_loop c) (\<lambda>(ok, c1). if ok then main_loop c1 else Some c1)"

text \<open>\<^verbatim>\<open>main\<close>: whether the connection was made, and the client that \<^verbatim>\<open>Run\<close> leaves if it returns.\<close>

definition client_main ::
  "unit res \<Rightarrow> string option list \<Rightarrow> int option list \<Rightarrow> bool list \<Rightarrow> string res list \<Rightarrow> (bool \<times> Client option)" where
  "client_main dial strs ints woks ls =
     (case NewClient dial strs ints woks ls of None \<Rightarrow> (False, None) | Some c \<Rightarrow> (True, Run c))"

section \<open>Public chat\<close>

text \<open>What a session of public chat reads and sends when the writes succeed.\<close>

definition typed :: "string option list \<Rightarrow> string list" where
  "typed xs = filter (\<lambda>v. v \<noteq> []) (map (case_option [] (\<lambda>v. v)) (takeWhile (\<lambda>x. x \<noteq> Some ''exit'') xs))"

lemma typed_Cons:
  "typed (x # xs) =
     (if x = Some ''exit'' then [] else (case x of None \<Rightarrow> [] | Some v \<Rightarrow> if v = [] then [] else [v]) @ typed xs)"
  by (cases x) (simp_all add: typed_def)

lemma public_loop_exit: "public_loop ''exit'' c = Some c"
  by (subst public_loop.simps) simp

lemma public_loop_text:
  assumes "m \<noteq> ''exit''" "cl_wok c = []"
  shows "public_loop m c = PublicChat (if m = [] then c else c\<lparr>cl_sent := cl_sent c @ [m @ [CHR 0x0A]]\<rparr>)"
  using assms by (subst public_loop.simps) (simp add: send_text_def write_line_def PublicChat_def)

lemma PublicChat_input:
  assumes "cl_strs c = x # r" "cl_wok c = []"
  shows "PublicChat c =
     (if x = Some ''exit'' then Some (c\<lparr>cl_strs := r\<rparr>)
      else (case x of None \<Rightarrow> PublicChat (c\<lparr>cl_strs := r\<rparr>)
        | Some m \<Rightarrow> PublicChat (if m = [] then c\<lparr>cl_strs := r\<rparr>
            else c\<lparr>cl_strs := r, cl_sent := cl_sent c @ [m @ [CHR 0x0A]]\<rparr>)))"
proof -
  have "PublicChat c = public_loop (case x of None \<Rightarrow> [] | Some v \<Rightarrow> v) (c\<lparr>cl_strs := r\<rparr>)"
    using assms(1) by (simp add: PublicChat_def scan_str_def)
  then show ?thesis
    using assms(2) by (cases x) (auto simp: public_loop_exit public_loop_text)
qed

lemma public_loop_diverges:
  assumes "public_loop m c = Some r"
  shows "cl_strs c = [] \<longrightarrow> cl_wok c = [] \<longrightarrow> m = ''exit''"
proof (rule public_loop.raw_induct [OF _ assms])
  fix loop m c r
  assume IH: "\<And>m c r. loop m c = Some r \<Longrightarrow> cl_strs c = [] \<longrightarrow> cl_wok c = [] \<longrightarrow> m = ''exit''"
    and body: "(if m = ''exit'' then Some c
      else case send_text m (m @ [CHR 0x0A]) c of (ok, c1) \<Rightarrow>
        if \<not> ok then Some c1 else (case scan_str [] c1 of (m, c2) \<Rightarrow> loop m c2)) = Some r"
  show "cl_strs c = [] \<longrightarrow> cl_wok c = [] \<longrightarrow> m = ''exit''"
  proof (intro impI, rule ccontr)
    assume c: "cl_strs c = []" "cl_wok c = []" and m: "m \<noteq> ''exit''"
    let ?c = "if m = [] then c else c\<lparr>cl_sent := cl_sent c @ [m @ [CHR 0x0A]]\<rparr>"
    have "loop [] ?c = Some r"
      using body c m by (auto simp: send_text_def write_line_def scan_str_def)
    from IH [OF this] c show False by (auto split: if_splits)
  qed
qed

lemma PublicChat_no_input:
  assumes "cl_strs c = []" "cl_wok c = []"
  shows "PublicChat c = None"
proof -
  have "public_loop [] c \<noteq> Some r" for r using public_loop_diverges [of "[]" c r] assms by auto
  then show ?thesis using assms by (cases "public_loop [] c") (auto simp: PublicChat_def scan_str_def)
qed

lemma PublicChat_result:
  "cl_strs c = xs \<Longrightarrow> cl_wok c = [] \<Longrightarrow>
   PublicChat c =
     (if Some ''exit'' \<in> set xs
      then Some (c\<lparr>cl_strs := tl (dropWhile (\<lambda>x. x \<noteq> Some ''exit'') xs),
             cl_sent := cl_sent c @ map (\<lambda>v. v @ [CHR 0x0A]) (typed xs)\<rparr>)
      else None)"
proof (induction xs arbitrary: c)
  case Nil
  then show ?case by (simp add: PublicChat_no_input)
next
  case (Cons x xs)
  show ?case
    unfolding PublicChat_input [OF Cons.prems]
    using Cons by (auto simp: typed_Cons split: option.split)
qed

text \<open>
  C24. Public chat ends exactly when the user types exit.  With a connection that accepts the writes,
  the loop returns if and only if the input holds the word exit; then it has sent each non-empty
  text typed before it as one line, in order, and left the rest of the input.  At the end of the
  input without that word it spins for ever.
\<close>

theorem public_chat_returns:
  assumes "cl_wok c = []"
  shows "PublicChat c =
     (if Some ''exit'' \<in> set (cl_strs c)
      then Some (c\<lparr>cl_strs := tl (dropWhile (\<lambda>x. x \<noteq> Some ''exit'') (cl_strs c)),
             cl_sent := cl_sent c @ map (\<lambda>v. v @ [CHR 0x0A]) (typed (cl_strs c))\<rparr>)
      else None)"
  using assms by (intro PublicChat_result) simp_all

definition typing_client :: "string option list \<Rightarrow> string res list \<Rightarrow> Client" where
  "typing_client xs ls =
     \<lparr>cl_Name = [], cl_flag = 99, cl_authenticated = False, cl_strs = xs, cl_ints = [Some 1], cl_wok = [], cl_lines = ls, cl_sent = []\<rparr>"

theorem public_chat_returns_witness:
  "(\<exists>c. PublicChat (typing_client [Some ''hi'', None, Some ''exit'', Some ''x''] []) = Some c
      \<and> cl_sent c = [''hi'' @ [CHR 0x0A]] \<and> cl_strs c = [Some ''x''])
   \<and> PublicChat (typing_client [Some ''hi''] []) = None"
  using public_chat_returns [of "typing_client [Some ''hi'', None, Some ''exit'', Some ''x''] []"]
    public_chat_returns [of "typing_client [Some ''hi''] []"]
  by (simp add: typing_client_def typed_def)

section \<open>Logging in to the server\<close>

text \<open>The first line on a new connection is the news that the connection itself is online.\<close>

lemma Contains_subset: "Contains s p \<Longrightarrow> set p \<subseteq> set s"
proof (induction s)
  case (Cons c s)
  then show ?case
    using set_take_subset [of "length p" "c # s"] by (auto simp: HasPrefix_def)
qed simp

lemma server_heap_kept:
  "userHeap (Publish m s) = userHeap s" "userHeap (saved_public ev n x s) = userHeap s"
  "OnlineMap (saved_public ev n x s) = OnlineMap s"
  by (simp_all add: Publish_def saved_public_def save_best_effort_def split: option.split sum.split)

lemma Accept_first_line:
  assumes "tcp_sys_ok t" "env_ok ev" "Handler ev (Accept addr) t = Some t1" "a = userNext (ts_server t)"
  obtains msg where "sanitizeInputWithLimit sysOnline (maxMsgLength (ts_server t)) = Some msg"
    "userHeap (ts_server t1) a = \<lparr>us_Name = addr, us_Addr = addr,
       us_C = \<lparr>ch_buf = [addr @ '': '' @ msg], ch_cap = 100, ch_closed = False\<rparr>, us_conn = True, us_auth = False,
       us_Avatar = [], us_sent = [], us_listening = True\<rparr>"
proof -
  obtain s where s: "NewUser addr (ts_server t) = (a, s)" using assms(4) by (simp add: NewUser_def)
  have ok: "server_ok (ts_server t)" "any_order (ev_order ev)" using assms(1,2) by (simp_all add: tcp_sys_ok_def env_ok_def)
  note n = NewUser_ok [OF ok(1) s]
  have e: "server_ok (enter_map a s)" using n by (intro enter_map_ok) simp_all
  have u: "userHeap (enter_map a s) a = \<lparr>us_Name = addr, us_Addr = addr, us_C = make_chan 100, us_conn = True, us_auth = False,
       us_Avatar = [], us_sent = [], us_listening = True\<rparr>" "maxMsgLength (enter_map a s) = maxMsgLength (ts_server t)"
    using s by (auto simp: NewUser_def enter_map_def Let_def)
  have "map_of (OnlineMap (enter_map a s)) (us_Name (userHeap s a)) = Some a"
    by (simp add: enter_map_def Let_def gomap_simps)
  then have mem: "a \<in> snd ` set (OnlineMap (enter_map a s))" by (metis imageI map_of_SomeD snd_conv)
  obtain msg where msg: "sanitizeInputWithLimit sysOnline (maxMsgLength (ts_server t)) = Some msg"
    using server_sanitize [OF ok(1)] .
  obtain m where "Online ev a s = Some (Publish m (public_sent ev addr msg [] True (saved_public ev addr msg (enter_map a s))))"
    using broadcastPublic_eq [OF e ok(2), of sysOnline msg addr "[]" True] msg u by (auto simp: Online_def BroadCast_def Let_def)
  then have "ts_server t1 = Publish m (public_sent ev addr msg [] True (saved_public ev addr msg (enter_map a s)))"
    using assms(3) s by auto
  then have "userHeap (ts_server t1) a = put_line a (addr @ '': '' @ msg) (userHeap (enter_map a s) a)"
    using mem by (simp add: server_heap_kept public_sent_def)
  with msg u show ?thesis by (intro that) (simp_all add: put_line_def enqueue_def make_chan_def)
qed

lemma online_bytes:
  assumes "sanitizeInputWithLimit sysOnline n = Some msg" "0 \<le> n"
  shows "set msg \<subseteq> set sysOnline \<union> {CHR ''.''}"
proof -
  have "strip_tags sysOnline = sysOnline" by code_simp
  then have "msg = TrimSpace (if int (length sysOnline) > n then take (nat n) sysOnline @ ''...'' else sysOnline)"
    using assms(1) unfolding sanitize_some [OF assms(2)] \<open>strip_tags sysOnline = sysOnline\<close> by simp
  then have "set msg \<subseteq> set (if int (length sysOnline) > n then take (nat n) sysOnline @ ''...'' else sysOnline)"
    using TrimSpace_subset by metis
  then show ?thesis using set_take_subset [of "nat n" sysOnline] by (auto split: if_splits)
qed

lemma not_login_reply:
  assumes "\<forall>c \<in> set addr. (of_char c :: nat) < 128" "set msg \<subseteq> set sysOnline \<union> {CHR ''.''}"
  shows "\<not> Contains (TrimSpace (addr @ '': '' @ msg @ [CHR 0x0A])) txt_cl_login_ok"
    "\<not> Contains (TrimSpace (addr @ '': '' @ msg @ [CHR 0x0A])) txt_cl_register_ok"
proof -
  let ?l = "TrimSpace (addr @ '': '' @ msg @ [CHR 0x0A])"
  have l: "set ?l \<subseteq> set addr \<union> set sysOnline \<union> set '': .'' \<union> {CHR 0x0A}"
    using TrimSpace_subset [of "addr @ '': '' @ msg @ [CHR 0x0A]"] assms(2) by auto
  have "CHR 0x99 \<notin> set addr" "CHR 0xA8 \<notin> set addr" using assms(1) by auto
  then have "CHR 0x99 \<notin> set ?l" "CHR 0xA8 \<notin> set ?l" using l by (auto simp: sysOnline_def)
  moreover have "CHR 0x99 \<in> set txt_cl_login_ok" "CHR 0xA8 \<in> set txt_cl_register_ok"
    by (simp_all add: txt_cl_login_ok_def txt_cl_register_ok_def)
  ultimately show "\<not> Contains ?l txt_cl_login_ok" "\<not> Contains ?l txt_cl_register_ok"
    using Contains_subset by blast+
qed

lemma scan_lines: "cl_lines (snd (scan_str x c)) = cl_lines c" "cl_lines (snd (scan_int i c)) = cl_lines c"
  "cl_authenticated (snd (scan_str x c)) = cl_authenticated c" "cl_authenticated (snd (scan_int i c)) = cl_authenticated c"
  by (simp_all add: scan_str_def scan_int_def split: list.split)

lemma write_lines: "cl_lines (snd (write_line m c)) = cl_lines c" "cl_authenticated (snd (write_line m c)) = cl_authenticated c"
  by (simp_all add: write_line_def split: list.split bool.split)

lemma auth_fails:
  assumes "cl_lines c = Inr l # ls" "\<not> cl_authenticated c"
    and "\<not> Contains (TrimSpace l) txt_cl_login_ok" "\<not> Contains (TrimSpace l) txt_cl_register_ok"
  shows "\<exists>c'. authMenu c = (False, c') \<and> \<not> cl_authenticated c'"
proof -
  have "\<not> fst (doLogin d) \<and> \<not> cl_authenticated (snd (doLogin d)) \<and> \<not> fst (doRegister d) \<and> \<not> cl_authenticated (snd (doRegister d))"
    if "cl_lines d = Inr l # ls" "\<not> cl_authenticated d" for d
    using that assms(3,4) unfolding doLogin_def doRegister_def case_prod_beta read_line_def
    by (simp add: scan_lines write_lines)
  then have "\<not> fst (authMenu c) \<and> \<not> cl_authenticated (snd (authMenu c))"
    using assms(1,2) unfolding authMenu_def case_prod_beta by (simp add: scan_lines)
  then show ?thesis by (metis prod.collapse)
qed

text \<open>
  C26. The client cannot log in.  On every state the server can reach, the first line it writes to a new
  connection is the presence message of that connection, its address and the cut text for
  going online; a client that reads this line as the answer to its login or registration gives
  up, whatever the user types, and never chats.
\<close>

theorem client_never_logs_in:
  assumes "reachable t" "env_ok ev" "a = userNext (ts_server t)" "\<forall>c \<in> set addr. (of_char c :: nat) < 128"
    and "Handler ev (Accept addr) t = Some t1" "Handler ev1 (Written a True) t1 = Some t2"
  shows "\<exists>msg l. sanitizeInputWithLimit sysOnline (maxMsgLength (ts_server t)) = Some msg
    \<and> l = addr @ '': '' @ msg @ [CHR 0x0A] \<and> us_sent (userHeap (ts_server t2) a) = [l]
    \<and> (\<forall>c ls. cl_lines c = Inr l # ls \<and> \<not> cl_authenticated c \<longrightarrow>
          (\<exists>c'. Run c = Some c' \<and> \<not> cl_authenticated c' \<and> authMenu c = (False, c')))"
proof -
  have ok: "tcp_sys_ok t" by (rule reachable_ok [OF assms(1)])
  obtain msg where msg: "sanitizeInputWithLimit sysOnline (maxMsgLength (ts_server t)) = Some msg"
    and u: "userHeap (ts_server t1) a = \<lparr>us_Name = addr, us_Addr = addr,
       us_C = \<lparr>ch_buf = [addr @ '': '' @ msg], ch_cap = 100, ch_closed = False\<rparr>, us_conn = True, us_auth = False,
       us_Avatar = [], us_sent = [], us_listening = True\<rparr>"
    using Accept_first_line [OF ok assms(2,5,3)] .
  let ?l = "addr @ '': '' @ msg @ [CHR 0x0A]"
  have "ts_server t2 = ListenMessage True a (ts_server t1)" using assms(6) by auto
  then have sent: "us_sent (userHeap (ts_server t2) a) = [?l]"
    using u by (simp add: ListenMessage_def upd_user_def listen_turn_def)
  have "0 \<le> maxMsgLength (ts_server t)" using ok by (simp add: tcp_sys_ok_def server_ok_def)
  note no = not_login_reply [OF assms(4) online_bytes [OF msg this]]
  have "\<exists>c'. Run c = Some c' \<and> \<not> cl_authenticated c' \<and> authMenu c = (False, c')"
    if c: "cl_lines c = Inr ?l # ls" "\<not> cl_authenticated c" for c ls
  proof -
    obtain c' where c': "authMenu c = (False, c')" "\<not> cl_authenticated c'" using auth_fails [OF c no] by blast
    then have "auth_loop c = Some (False, c')" using c(2) by (subst auth_loop.simps) simp
    then show ?thesis using c' by (simp add: Run_def)
  qed
  then show ?thesis using sent msg by blast
qed

theorem client_never_logs_in_witness:
  "\<exists>s t1 t2 l c. fresh_server DefaultConfig = Inr s
     \<and> Handler (plain_env 6) (Accept ''10.0.0.9:5'') (fresh_system DefaultConfig s) = Some t1
     \<and> Handler (plain_env 7) (Written (userNext s) True) t1 = Some t2
     \<and> us_sent (userHeap (ts_server t2) (userNext s)) = [l]
     \<and> Run (typing_client [Some ''admin'', Some ''secret''] [Inr l]) = Some c \<and> \<not> cl_authenticated c"
proof -
  obtain s where s: "fresh_server DefaultConfig = Inr s" and r: "reachable (fresh_system DefaultConfig s)" using default_reachable .
  let ?t = "fresh_system DefaultConfig s"
  have e: "env_ok (plain_env n)" for n by (simp add: env_ok_def)
  obtain t1 where t1: "Handler (plain_env 6) (Accept ''10.0.0.9:5'') ?t = Some t1"
    using Handler_ok [OF reachable_ok [OF r] _ e, of "Accept ''10.0.0.9:5''"]
    by (auto simp: late_online_def simp del: Handler.simps)
  obtain t2 where t2: "Handler (plain_env 7) (Written (userNext s) True) t1 = Some t2" by simp
  have "userNext s = userNext (ts_server ?t)" "\<forall>c \<in> set ''10.0.0.9:5''. (of_char c :: nat) < 128" by simp_all
  from client_never_logs_in [OF r e this t1 t2] obtain l where l: "us_sent (userHeap (ts_server t2) (userNext s)) = [l]"
    and run: "\<And>c ls. cl_lines c = Inr l # ls \<and> \<not> cl_authenticated c \<Longrightarrow> \<exists>c'. Run c = Some c' \<and> \<not> cl_authenticated c'"
    by blast
  have "\<exists>c'. Run (typing_client [Some ''admin'', Some ''secret''] [Inr l]) = Some c' \<and> \<not> cl_authenticated c'"
    by (rule run [where ls = "[]"]) (simp add: typing_client_def)
  then show ?thesis using s t1 t2 l by blast
qed

section \<open>The server understands the client\<close>

text \<open>
  White space is cut at the end of a line only, and a separator shields what precedes it.
\<close>

lemma drop_enc_sep:
  assumes "drop_enc encs m = None" "\<forall>e \<in> set encs. x \<notin> set e"
  shows "drop_enc encs (m @ x # r) = None"
proof -
  have "\<not> HasPrefix (m @ x # r) e" if "e \<in> set encs" "e \<noteq> []" for e
  proof
    assume "HasPrefix (m @ x # r) e"
    then obtain q where q: "m @ x # r = e @ q" by (auto simp: HasPrefix_iff)
    then obtain us where "m = e @ us \<or> (\<exists>vs. e = m @ x # vs)"
      by (auto simp: append_eq_append_conv2 Cons_eq_append_conv)
    then have "HasPrefix m e" using assms(2) that(1) by auto
    then show False using assms(1) that by (auto simp: drop_enc_def find_None_iff split: option.splits)
  qed
  then show ?thesis by (auto simp: drop_enc_def find_None_iff split: option.splits)
qed

lemma trim_left_fixed: "trim_left encs s = s \<longleftrightarrow> drop_enc encs s = None"
proof
  assume fixed: "trim_left encs s = s"
  show "drop_enc encs s = None"
  proof (rule ccontr)
    assume "drop_enc encs s \<noteq> None"
    then obtain r where r: "drop_enc encs s = Some r" by blast
    then have "trim_left encs s = trim_left encs r" by (subst trim_left.simps) simp
    with fixed have "length s \<le> length r" using trim_left_length [of encs r] by simp
    with drop_enc_shorter [OF r] show False by simp
  qed
next
  assume "drop_enc encs s = None"
  then show "trim_left encs s = s" by (subst trim_left.simps) simp
qed

lemma TrimSpace_fixed_end: "TrimSpace m = m \<Longrightarrow> drop_enc (map rev ws_encs) (rev m) = None"
proof -
  assume m: "TrimSpace m = m"
  have "length m \<le> length (trim_left ws_encs m)" using trim_right_length [of ws_encs "trim_left ws_encs m"] m by (simp add: TrimSpace_def)
  moreover obtain p where "m = p @ trim_left ws_encs m" using trim_left_suffix by blast
  moreover from this have "length m = length p + length (trim_left ws_encs m)" by (metis length_append)
  ultimately have "trim_left ws_encs m = m" by simp
  with m have "trim_left (map rev ws_encs) (rev m) = rev m" by (simp add: TrimSpace_def trim_right_def rev_swap)
  then show ?thesis by (simp add: trim_left_fixed)
qed

lemma drop_enc_head:
  assumes "\<forall>e \<in> set encs. hd e \<noteq> c"
  shows "drop_enc encs (c # s) = None"
proof -
  have "\<not> (e \<noteq> [] \<and> HasPrefix (c # s) e)" if "e \<in> set encs" for e using assms that by (cases e) auto
  then show ?thesis by (simp add: drop_enc_def find_None_iff split: option.splits)
qed

lemma drop_newline: "drop_enc (map rev ws_encs) (CHR 0x0A # s) = Some s"
  by (simp add: drop_enc_def ws_encs_def)

lemma TrimSpace_command:
  assumes "TrimSpace m = m" "c \<in> {CHR ''t'', CHR ''g''}"
  shows "TrimSpace (c # x @ CHR ''|'' # m) = c # x @ CHR ''|'' # m"
    "TrimSpace (c # x @ CHR ''|'' # m @ [CHR 0x0A]) = c # x @ CHR ''|'' # m"
proof -
  have "\<forall>e \<in> set ws_encs. hd e \<noteq> CHR ''t'' \<and> hd e \<noteq> CHR ''g''" by (simp add: ws_encs_def)
  then have "drop_enc ws_encs (c # y) = None" for y
    using assms(2) by (intro drop_enc_head) auto
  then have l: "trim_left ws_encs (c # y) = c # y" for y by (simp add: trim_left_fixed)
  have "\<forall>e \<in> set (map rev ws_encs). CHR ''|'' \<notin> set e" by (simp add: ws_encs_def)
  from drop_enc_sep [OF TrimSpace_fixed_end [OF assms(1)] this]
  have r: "trim_left (map rev ws_encs) (rev m @ CHR ''|'' # rev x @ [c]) = rev m @ CHR ''|'' # rev x @ [c]"
    by (simp add: trim_left_fixed)
  have nl: "trim_left (map rev ws_encs) (CHR 0x0A # y) = trim_left (map rev ws_encs) y" for y
    by (subst trim_left.simps) (simp add: drop_newline)
  show "TrimSpace (c # x @ CHR ''|'' # m) = c # x @ CHR ''|'' # m"
    "TrimSpace (c # x @ CHR ''|'' # m @ [CHR 0x0A]) = c # x @ CHR ''|'' # m"
    using r by (simp_all add: TrimSpace_def l trim_right_def nl)
qed

text \<open>A word that the client can send as part of a command.\<close>

definition token :: "string \<Rightarrow> bool" where
  "token n = (TrimSpace n = n \<and> n \<noteq> [] \<and> CHR ''|'' \<notin> set n)"

lemma ToLower_command: "ToLower (''to|'' @ x) = ''to|'' @ ToLower x" "ToLower (''group|'' @ x) = ''group|'' @ ToLower x"
  by (simp_all add: ToLower_def ascii_lower_def)

lemma DoMessage_to:
  assumes "us_auth (userHeap s a)" "token n" "TrimSpace m = m" "m \<noteq> []"
  shows "DoMessage ev a (''to|'' @ n @ ''|'' @ m) s =
    (case sendPrivate ev (us_Name (userHeap s a)) n m (us_Avatar (userHeap s a)) s of
       None \<Rightarrow> None
     | Some (Inl e, s1) \<Rightarrow> Some (SendMsg a (e @ [CHR 0x0A]) s1)
     | Some (Inr _, s1) \<Rightarrow> Some (SendMsg a (txt_sent @ m @ [CHR 0x0A]) s1))"
proof -
  let ?l = "''to|'' @ n @ ''|'' @ m"
  have t: "TrimSpace ?l = ?l" using TrimSpace_command(1) [OF assms(3), of "CHR ''t''" "''o|'' @ n"] by simp
  have "SplitN (CHR ''|'') ?l 3 = [''to'', n, m]"
    using SplitN_sep [of "CHR ''|''" "''to''" "n @ ''|'' @ m" 1] SplitN_sep [of "CHR ''|''" n m 0] assms(2)
    by (simp add: token_def numeral_3_eq_3)
  then have "do_to ev a ?l s =
    (case sendPrivate ev (us_Name (userHeap s a)) n m (us_Avatar (userHeap s a)) s of
       None \<Rightarrow> None
     | Some (Inl e, s1) \<Rightarrow> Some (SendMsg a (e @ [CHR 0x0A]) s1)
     | Some (Inr _, s1) \<Rightarrow> Some (SendMsg a (txt_sent @ m @ [CHR 0x0A]) s1))"
    using assms(2-4) unfolding do_to_def by (simp add: token_def)
  moreover have "DoMessage ev a ?l s = do_to ev a ?l s"
    using assms(1) unfolding DoMessage_def Let_def t ToLower_command by simp
  ultimately show ?thesis by simp
qed

lemma DoMessage_group_send:
  assumes "us_auth (userHeap s a)" "token g" "TrimSpace m = m"
  shows "DoMessage ev a (''group|send|'' @ g @ ''|'' @ m) s =
    (case broadcastToGroup ev g (us_Name (userHeap s a)) m (us_Avatar (userHeap s a)) s of
       None \<Rightarrow> None
     | Some (Inl e, s1) \<Rightarrow> Some (SendMsg a (e @ [CHR 0x0A]) s1)
     | Some (Inr _, s1) \<Rightarrow> Some s1)"
proof -
  let ?l = "''group|send|'' @ g @ ''|'' @ m"
  have t: "TrimSpace ?l = ?l" using TrimSpace_command(1) [OF assms(3), of "CHR ''g''" "''roup|send|'' @ g"] by simp
  have "SplitN (CHR ''|'') ?l 4 = [''group'', ''send'', g, m]"
    using SplitN_sep [of "CHR ''|''" "''group''" "''send|'' @ g @ ''|'' @ m" 2]
      SplitN_sep [of "CHR ''|''" "''send''" "g @ ''|'' @ m" 1] SplitN_sep [of "CHR ''|''" g m 0] assms(2)
    by (simp add: token_def eval_nat_numeral)
  moreover have "TrimSpace ''send'' = ''send''" by code_simp
  ultimately have "do_group ev a ?l s =
    (case broadcastToGroup ev g (us_Name (userHeap s a)) m (us_Avatar (userHeap s a)) s of
       None \<Rightarrow> None
     | Some (Inl e, s1) \<Rightarrow> Some (SendMsg a (e @ [CHR 0x0A]) s1)
     | Some (Inr _, s1) \<Rightarrow> Some s1)"
    using assms(2,3) unfolding do_group_def by (simp add: token_def)
  moreover have "DoMessage ev a ?l s = do_group ev a ?l s"
  proof -
    have "ToLower ?l = ''group|'' @ ToLower (''send|'' @ g @ ''|'' @ m)" using ToLower_command(2) [of "''send|'' @ g @ ''|'' @ m"] by simp
    then show ?thesis using assms(1) unfolding DoMessage_def Let_def t by simp
  qed
  ultimately show ?thesis by simp
qed

lemma private_inner_one:
  assumes "m \<noteq> ''exit''" "m \<noteq> []" "cl_wok c = []" "cl_strs c = Some ''exit'' # r"
  shows "private_inner n m c =
    Some (''exit'', c\<lparr>cl_strs := r, cl_sent := cl_sent c @ [''to|'' @ n @ ''|'' @ m @ [CHR 0x0A]]\<rparr>)"
proof -
  have "private_inner n ''exit'' d = Some (''exit'', d)" for d by (subst private_inner.simps) simp
  then show ?thesis
    using assms by (subst private_inner.simps) (simp add: send_text_def write_line_def scan_str_def)
qed

lemma Privatechat_one:
  assumes "cl_wok c = []" "cl_strs c = [Some n, Some m, Some ''exit'', Some ''exit'']" "n \<noteq> ''exit''" "m \<noteq> ''exit''" "m \<noteq> []"
  shows "Privatechat c = Some (c\<lparr>cl_strs := [],
    cl_sent := cl_sent c @ [''who'' @ [CHR 0x0A], ''to|'' @ n @ ''|'' @ m @ [CHR 0x0A], ''who'' @ [CHR 0x0A]]\<rparr>)"
proof -
  have "private_outer ''exit'' x d = Some d" for x d by (subst private_outer.simps) simp
  then show ?thesis
    using assms unfolding Privatechat_def SearchUsers_def
    by (simp add: write_line_def scan_str_def, subst private_outer.simps)
      (simp add: scan_str_def private_inner_one SearchUsers_def write_line_def)
qed

text \<open>
  C25. What the client sends is what the server does.  A private chat in which the user names a
  receiver, types one text and leaves returns after sending three lines, and the second one makes
  the server send that text from the user to that receiver; a group message sent by the client
  makes the server broadcast that text to that group.
\<close>

theorem client_commands_understood:
  assumes "cl_wok c = []" "us_auth (userHeap (ts_server t) a)" "token n" "n \<noteq> ''exit''"
    and "TrimSpace m = m" "m \<noteq> []" "m \<noteq> ''exit''"
  shows "(\<exists>line. Privatechat (c\<lparr>cl_strs := [Some n, Some m, Some ''exit'', Some ''exit'']\<rparr>) =
      Some (c\<lparr>cl_strs := [], cl_sent := cl_sent c @ [''who'' @ [CHR 0x0A], line, ''who'' @ [CHR 0x0A]]\<rparr>)
    \<and> Handler ev (Line a line) t = map_option (\<lambda>s. t\<lparr>ts_server := s\<rparr>)
       (case sendPrivate ev (us_Name (userHeap (ts_server t) a)) n m (us_Avatar (userHeap (ts_server t) a)) (ts_server t) of
          None \<Rightarrow> None
        | Some (Inl e, s1) \<Rightarrow> Some (SendMsg a (e @ [CHR 0x0A]) s1)
        | Some (Inr _, s1) \<Rightarrow> Some (SendMsg a (txt_sent @ m @ [CHR 0x0A]) s1)))
    \<and> (\<exists>line. GroupChat (c\<lparr>cl_strs := [Some ''send'', Some n, Some m]\<rparr>) = c\<lparr>cl_strs := [], cl_sent := cl_sent c @ [line]\<rparr>
    \<and> Handler ev (Line a line) t = map_option (\<lambda>s. t\<lparr>ts_server := s\<rparr>)
       (case broadcastToGroup ev n (us_Name (userHeap (ts_server t) a)) m (us_Avatar (userHeap (ts_server t) a)) (ts_server t) of
          None \<Rightarrow> None
        | Some (Inl e, s1) \<Rightarrow> Some (SendMsg a (e @ [CHR 0x0A]) s1)
        | Some (Inr _, s1) \<Rightarrow> Some s1))"
proof -
  let ?to = "''to|'' @ n @ ''|'' @ m @ [CHR 0x0A]" and ?gr = "''group|send|'' @ n @ ''|'' @ m @ [CHR 0x0A]"
  have "TrimSpace ?to = ''to|'' @ n @ ''|'' @ m" "TrimSpace ?gr = ''group|send|'' @ n @ ''|'' @ m"
    using TrimSpace_command(2) [OF assms(5), of "CHR ''t''" "''o|'' @ n"]
      TrimSpace_command(2) [OF assms(5), of "CHR ''g''" "''roup|send|'' @ n"] by simp_all
  then have to: "Handler ev (Line a ?to) t = map_option (\<lambda>s. t\<lparr>ts_server := s\<rparr>) (DoMessage ev a (''to|'' @ n @ ''|'' @ m) (ts_server t))"
    and gr: "Handler ev (Line a ?gr) t = map_option (\<lambda>s. t\<lparr>ts_server := s\<rparr>) (DoMessage ev a (''group|send|'' @ n @ ''|'' @ m) (ts_server t))"
    by (simp_all only: Handler.simps Let_def) simp_all
  have "Privatechat (c\<lparr>cl_strs := [Some n, Some m, Some ''exit'', Some ''exit'']\<rparr>) =
      Some (c\<lparr>cl_strs := [], cl_sent := cl_sent c @ [''who'' @ [CHR 0x0A], ?to, ''who'' @ [CHR 0x0A]]\<rparr>)"
    using assms by (subst Privatechat_one [where n = n and m = m]) simp_all
  moreover have "GroupChat (c\<lparr>cl_strs := [Some ''send'', Some n, Some m]\<rparr>) = c\<lparr>cl_strs := [], cl_sent := cl_sent c @ [?gr]\<rparr>"
    using assms(1) by (simp add: GroupChat_def scan_str_def write_line_def)
  ultimately show ?thesis
    using to [unfolded DoMessage_to [OF assms(2,3,5,6)]] gr [unfolded DoMessage_group_send [OF assms(2,3,5)]] by blast
qed

theorem client_commands_understood_witness:
  "\<exists>line. Privatechat (typing_client [Some ''bob'', Some ''hello'', Some ''exit'', Some ''exit''] []) =
      Some (typing_client [] []\<lparr>cl_sent := [''who'' @ [CHR 0x0A], line, ''who'' @ [CHR 0x0A]]\<rparr>)
    \<and> Handler (plain_env 9) (Line 0 line) (fresh_system DefaultConfig demo_server) \<noteq> None"
proof -
  let ?t = "fresh_system DefaultConfig demo_server" and ?s = demo_server
  have "token ''bob''" "TrimSpace ''hello'' = ''hello''" by (simp_all add: token_def) code_simp+
  moreover have "us_auth (userHeap (ts_server ?t) 0)" by (simp add: demo_server_def demo_user_def)
  moreover have "sendPrivate (plain_env 9) (us_Name (userHeap ?s 0)) ''bob'' ''hello'' (us_Avatar (userHeap ?s 0)) ?s \<noteq> None"
    using sendPrivate_ok [OF demo_server_ok] by (metis option.distinct(1))
  ultimately show ?thesis
    using client_commands_understood [of "typing_client [] []" ?t 0 "''bob''" "''hello''" "plain_env 9"]
    by (auto simp: typing_client_def split: option.splits sum.splits)
qed

end
