(* ===== verification/Gateway.thy ===== *)
theory Gateway
  imports Go_Prelude "HOL-Library.Sublist"
begin

text \<open>
  The stand-alone web gateway, \<^verbatim>\<open>cmd/web/main.go\<close>: it opens a TCP connection to the chat server for
  every browser session, forwards each message of the browser as one line and hands the lines of
  the server out to polling requests.  A session is an address; a step of the gateway is one
  request, one turn of the goroutine that reads the TCP connection, or one \<^verbatim>\<open>select\<close> of a poll.  A
  turn names the case of the \<^verbatim>\<open>select\<close> that is taken and has no result if that case is not ready.
  The fields \<^verbatim>\<open>gs_written\<close>, \<^verbatim>\<open>gs_read\<close> and \<^verbatim>\<open>gs_taken\<close> record what was written to the connection, read
  from it (without empty lines) and taken out of the channel.
\<close>

section \<open>Sessions\<close>

datatype reader = Reading | Offering string | Stopped

record gw_session =
  gs_id :: string
  gs_conn :: bool
  gs_messages :: "string chan"
  gs_closed :: bool
  gs_once :: bool
  gs_reader :: reader
  gs_written :: "string list"
  gs_read :: "string list"
  gs_taken :: "string list"

datatype poll_at = Collect | Wait | Replied

record poll =
  po_sess :: nat
  po_msgs :: "string list"
  po_at :: poll_at

record gateway =
  gw_heap :: "nat \<Rightarrow> gw_session"
  gw_next :: nat
  gw_sessions :: "nat gomap"
  gw_polls :: "poll list"

text \<open>
  The routes of \<^verbatim>\<open>main\<close>: the four requests of the API, and files from \<^verbatim>\<open>web\<close> (or from \<^verbatim>\<open>../../web\<close> if that
  cannot be read), which \<^verbatim>\<open>noCache\<close> marks as not to be kept.
\<close>

datatype gw_route = RouteConnect | RouteSend | RoutePoll | RouteClose | RouteStatic string "(string \<times> string) list"

definition noCache_headers :: "(string \<times> string) list" where
  "noCache_headers =
     [(''Cache-Control'', ''no-store, no-cache, must-revalidate, max-age=0''), (''Pragma'', ''no-cache''), (''Expires'', ''0'')]"

definition staticHandler :: "bool \<Rightarrow> gw_route" where
  "staticHandler web_exists = RouteStatic (if web_exists then ''web'' else ''../../web'') noCache_headers"

definition gw_mux :: "bool \<Rightarrow> string \<Rightarrow> gw_route" where
  "gw_mux web_exists path =
     (case map_of [(''/api/connect'', RouteConnect), (''/api/send'', RouteSend), (''/api/poll'', RoutePoll),
         (''/api/close'', RouteClose)] path of
        Some r \<Rightarrow> r
      | None \<Rightarrow> staticHandler web_exists)"

definition gw_close :: "gw_session \<Rightarrow> gw_session" where
  "gw_close s = (if gs_once s then s else s\<lparr>gs_once := True, gs_closed := True, gs_conn := False\<rparr>)"

definition gw_upd :: "nat \<Rightarrow> (gw_session \<Rightarrow> gw_session) \<Rightarrow> gateway \<Rightarrow> gateway" where
  "gw_upd a f g = g\<lparr>gw_heap := (gw_heap g)(a := f (gw_heap g a))\<rparr>"

section \<open>Requests\<close>

datatype gw_reply = GwError int string | GwSession string | GwOk

definition gw_handleConnect :: "unit res \<Rightarrow> 8 word list \<Rightarrow> gateway \<Rightarrow> gw_reply \<times> gateway" where
  "gw_handleConnect dial b g =
     (case dial of
        Inl e \<Rightarrow> (GwError 502 (''connect tcp failed: '' @ e), g)
      | Inr _ \<Rightarrow>
          (let s = \<lparr>gs_id = EncodeToString b, gs_conn = True, gs_messages = make_chan 256, gs_closed = False,
                 gs_once = False, gs_reader = Reading, gs_written = [], gs_read = [], gs_taken = []\<rparr>
           in (GwSession (gs_id s),
               g\<lparr>gw_heap := (gw_heap g)(gw_next g := s), gw_next := gw_next g + 1,
                 gw_sessions := AList.update (gs_id s) (gw_next g) (gw_sessions g)\<rparr>)))"

definition getSession :: "string \<Rightarrow> gateway \<Rightarrow> nat option" where
  "getSession i g = map_of (gw_sessions g) i"

definition replace_char :: "char \<Rightarrow> char \<Rightarrow> string \<Rightarrow> string" where
  "replace_char x y s = map (\<lambda>c. if c = x then y else c) s"

text \<open>\<open>message\<close> is the decoded field of the body, \<open>wok\<close> whether a write on an open connection succeeds.\<close>

definition gw_handleSend :: "string \<Rightarrow> string option \<Rightarrow> bool \<Rightarrow> gateway \<Rightarrow> gw_reply \<times> gateway" where
  "gw_handleSend i message wok g =
     (case getSession i g of
        None \<Rightarrow> (GwError 401 ''invalid session'', g)
      | Some a \<Rightarrow>
     (case message of
        None \<Rightarrow> (GwError 400 ''bad payload'', g)
      | Some m \<Rightarrow>
          (let msg = replace_char (CHR 0x0D) (CHR '' '') (replace_char (CHR 0x0A) (CHR '' '') (TrimSpace m))
           in if msg = [] then (GwOk, g)
              else if gs_conn (gw_heap g a) \<and> wok
              then (GwOk, gw_upd a (\<lambda>s. s\<lparr>gs_written := gs_written s @ [msg @ [CHR 0x0A]]\<rparr>) g)
              else (GwError 502 ''send failed'', g))))"

definition gw_handleClose :: "string \<Rightarrow> gateway \<Rightarrow> gw_reply \<times> gateway" where
  "gw_handleClose i g =
     (case map_of (gw_sessions g) i of
        None \<Rightarrow> (GwOk, g)
      | Some a \<Rightarrow> (GwOk, gw_upd a gw_close (g\<lparr>gw_sessions := AList.delete i (gw_sessions g)\<rparr>)))"

text \<open>\<^verbatim>\<open>handlePoll\<close> starts with no messages; its loop is run by turns.  The reply is sent when it ends.\<close>

definition gw_handlePoll :: "string \<Rightarrow> gateway \<Rightarrow> gw_reply option \<times> gateway" where
  "gw_handlePoll i g =
     (case getSession i g of
        None \<Rightarrow> (Some (GwError 401 ''invalid session''), g)
      | Some a \<Rightarrow> (None, g\<lparr>gw_polls := gw_polls g @ [\<lparr>po_sess = a, po_msgs = [], po_at = Collect\<rparr>]\<rparr>))"

datatype poll_case = OnClosed | OnMessage | OnDefault | OnTimer

fun poll_turn :: "poll_case \<Rightarrow> gw_session \<Rightarrow> poll \<Rightarrow> (gw_session \<times> poll) option" where
  "poll_turn OnClosed s p =
     (if gs_closed s \<and> po_at p \<noteq> Replied then Some (s, p\<lparr>po_at := Replied\<rparr>) else None)"
| "poll_turn OnMessage s p =
     (case ch_buf (gs_messages s) of
        [] \<Rightarrow> None
      | m # rest \<Rightarrow>
          (let s1 = s\<lparr>gs_messages := (gs_messages s)\<lparr>ch_buf := rest\<rparr>, gs_taken := gs_taken s @ [m]\<rparr>;
               msgs = po_msgs p @ [m]
           in case po_at p of
                Collect \<Rightarrow> Some (s1, p\<lparr>po_msgs := msgs, po_at := (if length msgs \<ge> 20 then Replied else Collect)\<rparr>)
              | Wait \<Rightarrow> Some (s1, p\<lparr>po_msgs := msgs, po_at := Collect\<rparr>)
              | Replied \<Rightarrow> None))"
| "poll_turn OnDefault s p =
     (if po_at p = Collect \<and> \<not> gs_closed s \<and> ch_buf (gs_messages s) = []
      then Some (s, p\<lparr>po_at := (if po_msgs p \<noteq> [] then Replied else Wait)\<rparr>) else None)"
| "poll_turn OnTimer s p = (if po_at p = Wait then Some (s, p\<lparr>po_at := Replied\<rparr>) else None)"

section \<open>Reading the connection\<close>

definition TrimRightCRNL :: "string \<Rightarrow> string" where
  "TrimRightCRNL s = rev (dropWhile (\<lambda>c. c = CHR 0x0D \<or> c = CHR 0x0A) (rev s))"

datatype reader_case = GotLine string | GotError | MessageSent | SawClosed

fun reader_turn :: "reader_case \<Rightarrow> gw_session \<Rightarrow> gw_session option" where
  "reader_turn (GotLine l) s =
     (if gs_reader s = Reading
      then Some (let line = TrimRightCRNL l
                 in if line = [] then s else s\<lparr>gs_reader := Offering line, gs_read := gs_read s @ [line]\<rparr>)
      else None)"
| "reader_turn GotError s =
     (if gs_reader s = Reading then Some ((gw_close s)\<lparr>gs_reader := Stopped\<rparr>) else None)"
| "reader_turn MessageSent s =
     (case gs_reader s of
        Offering line \<Rightarrow>
          if length (ch_buf (gs_messages s)) < ch_cap (gs_messages s)
          then Some (s\<lparr>gs_messages := (gs_messages s)\<lparr>ch_buf := ch_buf (gs_messages s) @ [line]\<rparr>, gs_reader := Reading\<rparr>)
          else None
      | _ \<Rightarrow> None)"
| "reader_turn SawClosed s =
     (case gs_reader s of
        Offering line \<Rightarrow> if gs_closed s then Some (s\<lparr>gs_reader := Stopped\<rparr>) else None
      | _ \<Rightarrow> None)"

section \<open>The gateway as a whole\<close>

datatype gw_event =
    GConnect "unit res" "8 word list"
  | GSend string "string option" bool
  | GPoll string
  | GClose string
  | GPollTurn nat poll_case
  | GReaderTurn nat reader_case

fun gw_step :: "gw_event \<Rightarrow> gateway \<Rightarrow> gateway option" where
  "gw_step (GConnect dial b) g = Some (snd (gw_handleConnect dial b g))"
| "gw_step (GSend i m wok) g = Some (snd (gw_handleSend i m wok g))"
| "gw_step (GPoll i) g = Some (snd (gw_handlePoll i g))"
| "gw_step (GClose i) g = Some (snd (gw_handleClose i g))"
| "gw_step (GPollTurn n c) g =
     (if n < length (gw_polls g)
      then (let p = gw_polls g ! n; a = po_sess p
            in map_option (\<lambda>(s, q). (gw_upd a (\<lambda>_. s) g)\<lparr>gw_polls := (gw_polls g)[n := q]\<rparr>)
                 (poll_turn c (gw_heap g a) p))
      else None)"
| "gw_step (GReaderTurn a c) g =
     (if a < gw_next g then map_option (\<lambda>s. gw_upd a (\<lambda>_. s) g) (reader_turn c (gw_heap g a)) else None)"

fun gw_run :: "gw_event list \<Rightarrow> gateway \<Rightarrow> gateway option" where
  "gw_run [] g = Some g"
| "gw_run (e # es) g = (case gw_step e g of None \<Rightarrow> None | Some g1 \<Rightarrow> gw_run es g1)"

text \<open>\<^verbatim>\<open>var sessions\<close>: no session yet.  The heap holds nothing that is used before it is written.\<close>

definition gw_start :: "(nat \<Rightarrow> gw_session) \<Rightarrow> gateway" where
  "gw_start h = \<lparr>gw_heap = h, gw_next = 0, gw_sessions = [], gw_polls = []\<rparr>"

inductive gw_reachable :: "gateway \<Rightarrow> bool" where
  gw_init: "gw_reachable (gw_start h)"
| gw_next_step: "gw_reachable g \<Longrightarrow> gw_step e g = Some g' \<Longrightarrow> gw_reachable g'"

section \<open>The invariant\<close>

text \<open>
  Of a session: the channel holds at most 256 lines, the connection is open exactly until the
  session is closed, every write was one line, and what was read is what was taken, followed by
  what is queued and by the line the reader still holds.
\<close>

definition one_line :: "string \<Rightarrow> bool" where
  "one_line w = (\<exists>m. w = m @ [CHR 0x0A] \<and> m \<noteq> [] \<and> CHR 0x0A \<notin> set m \<and> CHR 0x0D \<notin> set m)"

definition held :: "reader \<Rightarrow> string list \<Rightarrow> bool" where
  "held rd r = (case rd of Reading \<Rightarrow> r = [] | Offering l \<Rightarrow> r = [l] | Stopped \<Rightarrow> length r \<le> 1)"

definition sess_ok :: "gw_session \<Rightarrow> bool" where
  "sess_ok s =
     (ch_cap (gs_messages s) = 256 \<and> chan_ok (gs_messages s)
      \<and> gs_once s = gs_closed s \<and> gs_conn s = (\<not> gs_closed s)
      \<and> (\<forall>w \<in> set (gs_written s). one_line w)
      \<and> (\<exists>r. gs_read s = gs_taken s @ ch_buf (gs_messages s) @ r \<and> held (gs_reader s) r))"

definition poll_ok :: "poll \<Rightarrow> bool" where
  "poll_ok p =
     (length (po_msgs p) \<le> 20 \<and> (po_at p \<noteq> Replied \<longrightarrow> length (po_msgs p) < 20) \<and> (po_at p = Wait \<longrightarrow> po_msgs p = []))"

text \<open>What the polls of a session were given, as a multiset.\<close>

definition part :: "nat \<Rightarrow> poll \<Rightarrow> string multiset" where
  "part a p = (if po_sess p = a then mset (po_msgs p) else {#})"

definition given :: "nat \<Rightarrow> poll list \<Rightarrow> string multiset" where
  "given a ps = (\<Sum>p\<leftarrow>ps. part a p)"

definition gw_ok :: "gateway \<Rightarrow> bool" where
  "gw_ok g =
     ((\<forall>a < gw_next g. sess_ok (gw_heap g a) \<and> mset (gs_taken (gw_heap g a)) = given a (gw_polls g))
      \<and> (\<forall>i a. map_of (gw_sessions g) i = Some a \<longrightarrow> a < gw_next g)
      \<and> (\<forall>p \<in> set (gw_polls g). po_sess p < gw_next g \<and> poll_ok p
           \<and> subseq (po_msgs p) (gs_taken (gw_heap g (po_sess p)))))"

lemma given_simps [simp]: "given a [] = {#}" "given a (ps @ [p]) = given a ps + part a p"
  by (simp_all add: given_def)

lemma given_update: "n < length ps \<Longrightarrow> given a (ps[n := q]) + part a (ps ! n) = given a ps + part a q"
proof (induction ps arbitrary: n)
  case (Cons p ps)
  then show ?case by (cases n) (simp_all add: given_def add.assoc add.left_commute)
qed simp

lemma given_other: "\<forall>p \<in> set ps. po_sess p \<noteq> a \<Longrightarrow> given a ps = {#}"
  by (induction ps) (auto simp: given_def part_def)

lemma replace_char_set: "x \<noteq> y \<Longrightarrow> x \<notin> set (replace_char x y s)" "z \<noteq> y \<Longrightarrow> z \<notin> set s \<Longrightarrow> z \<notin> set (replace_char x y s)"
  by (auto simp: replace_char_def)

lemma one_line_send:
  assumes "msg = replace_char (CHR 0x0D) (CHR '' '') (replace_char (CHR 0x0A) (CHR '' '') m)" "msg \<noteq> []"
  shows "one_line (msg @ [CHR 0x0A])"
  using assms replace_char_set(1) [of "CHR 0x0D" "CHR '' ''"] replace_char_set(2) [of "CHR 0x0A" "CHR '' ''"]
    replace_char_set(1) [of "CHR 0x0A" "CHR '' ''"] unfolding one_line_def by blast

lemma held_length: "held rd r \<Longrightarrow> length r \<le> 1"
  by (auto simp: held_def split: reader.splits)

subsection \<open>Every step keeps the invariant\<close>

lemma gw_close_fields [simp]:
  "gs_messages (gw_close s) = gs_messages s" "gs_written (gw_close s) = gs_written s" "gs_read (gw_close s) = gs_read s"
  "gs_taken (gw_close s) = gs_taken s" "gs_reader (gw_close s) = gs_reader s"
  by (simp_all add: gw_close_def)

lemma sess_ok_close: "sess_ok s \<Longrightarrow> sess_ok (gw_close s) \<and> gs_closed (gw_close s)"
  by (auto simp: gw_close_def sess_ok_def)

lemma gw_upd_ok:
  assumes "gw_ok g" "sess_ok (gw_heap g a) \<Longrightarrow> sess_ok (f (gw_heap g a))" "gs_taken (f (gw_heap g a)) = gs_taken (gw_heap g a)"
  shows "gw_ok (gw_upd a f g)"
  using assms unfolding gw_ok_def gw_upd_def by auto

lemma gw_connect_ok:
  assumes "gw_ok g"
  shows "gw_ok (snd (gw_handleConnect dial b g))"
proof (cases dial)
  case (Inr u)
  have "given (gw_next g) (gw_polls g) = {#}"
    using assms by (intro given_other) (auto simp: gw_ok_def)
  then show ?thesis
    using assms Inr
    by (auto simp: gw_ok_def gw_handleConnect_def Let_def gomap_simps less_Suc_eq sess_ok_def held_def make_chan_def chan_ok_def
        split: if_splits)
qed (use assms in \<open>simp add: gw_handleConnect_def\<close>)

lemma gw_send_ok:
  assumes "gw_ok g"
  shows "gw_ok (snd (gw_handleSend i m wok g))"
proof -
  have "gw_ok (gw_upd a (\<lambda>s. s\<lparr>gs_written := gs_written s @ [w]\<rparr>) g)" if "one_line w" for a w
    using that by (intro gw_upd_ok [OF assms]) (auto simp: sess_ok_def)
  then show ?thesis
    using assms by (auto simp: gw_handleSend_def Let_def one_line_send split: option.split)
qed

lemma gw_poll_ok:
  assumes "gw_ok g"
  shows "gw_ok (snd (gw_handlePoll i g))"
  using assms
  by (auto simp: gw_handlePoll_def gw_ok_def getSession_def poll_ok_def part_def split: option.split)

lemma gw_handleClose_ok:
  assumes "gw_ok g"
  shows "gw_ok (snd (gw_handleClose i g))"
proof -
  have "gw_ok (g\<lparr>gw_sessions := AList.delete i (gw_sessions g)\<rparr>)"
    using assms by (auto simp: gw_ok_def gomap_simps split: if_splits)
  then show ?thesis
    using assms by (auto simp: gw_handleClose_def intro!: gw_upd_ok sess_ok_close [THEN conjunct1] split: option.split)
qed

lemma reader_turn_ok:
  assumes "sess_ok s" "reader_turn c s = Some s'"
  shows "sess_ok s'" "gs_taken s' = gs_taken s" "gs_written s' = gs_written s" "gs_closed s \<Longrightarrow> gs_closed s'"
  using assms
  by (cases c; auto simp: sess_ok_def held_def chan_ok_def Let_def gw_close_def split: if_splits reader.splits)+

lemma poll_turn_ok:
  assumes "sess_ok s" "poll_ok p" "poll_turn c s p = Some (s', p')"
  shows "sess_ok s'" "poll_ok p'" "po_sess p' = po_sess p" "gs_written s' = gs_written s" "gs_closed s' = gs_closed s"
    "(gs_taken s' = gs_taken s \<and> po_msgs p' = po_msgs p)
       \<or> (\<exists>m. gs_taken s' = gs_taken s @ [m] \<and> po_msgs p' = po_msgs p @ [m])"
  using assms
  by (cases c; auto simp: sess_ok_def poll_ok_def chan_ok_def Let_def split: if_splits list.splits poll_at.splits)+

lemma gw_poll_turn_ok:
  assumes ok: "gw_ok g" and n: "n < length (gw_polls g)"
    and turn: "poll_turn c (gw_heap g (po_sess (gw_polls g ! n))) (gw_polls g ! n) = Some (s, q)"
  shows "gw_ok ((gw_upd (po_sess (gw_polls g ! n)) (\<lambda>_. s) g)\<lparr>gw_polls := (gw_polls g)[n := q]\<rparr>)"
proof -
  let ?p = "gw_polls g ! n" and ?a = "po_sess (gw_polls g ! n)"
  have p: "?p \<in> set (gw_polls g)" using n by simp
  then have a: "?a < gw_next g" "poll_ok ?p" "subseq (po_msgs ?p) (gs_taken (gw_heap g ?a))" "sess_ok (gw_heap g ?a)"
    and taken: "\<And>b. b < gw_next g \<Longrightarrow> mset (gs_taken (gw_heap g b)) = given b (gw_polls g)"
    using ok by (auto simp: gw_ok_def)
  note t = poll_turn_ok [OF a(4,2) turn]
  have up: "given b ((gw_polls g)[n := q]) + part b ?p = given b (gw_polls g) + part b q" for b
    by (rule given_update [OF n])
  have other: "given b ((gw_polls g)[n := q]) = given b (gw_polls g)" if "b \<noteq> ?a" for b
    using up [of b] that t(3) by (simp add: part_def)
  have mine: "mset (gs_taken s) = given ?a ((gw_polls g)[n := q])"
    using up [of ?a] t(3,6) taken [OF a(1)] by (auto simp: part_def)
  have grows: "subseq xs (gs_taken s)" if "subseq xs (gs_taken (gw_heap g ?a))" for xs
    using that t(6) by (auto intro: subseq_order.order_trans)
  have q: "subseq (po_msgs q) (gs_taken s)" using a(3) t(6) by (auto intro: list_emb_append_mono)
  have "po_sess r < gw_next g \<and> poll_ok r \<and> subseq (po_msgs r) (gs_taken (if po_sess r = ?a then s else gw_heap g (po_sess r)))"
    if "r \<in> set ((gw_polls g)[n := q])" for r
  proof (cases "r = q")
    case True
    then show ?thesis using t(2,3) a(1) q by simp
  next
    case False
    then have "r \<in> set (gw_polls g)" using that set_update_subset_insert [of "gw_polls g" n q] by auto
    then show ?thesis using ok grows by (auto simp: gw_ok_def)
  qed
  then show ?thesis
    using ok t(1) mine other taken unfolding gw_ok_def gw_upd_def by auto
qed

lemma gw_step_ok:
  assumes "gw_ok g" "gw_step e g = Some g'"
  shows "gw_ok g'"
proof (cases e)
  case (GReaderTurn a c)
  then obtain s where s: "reader_turn c (gw_heap g a) = Some s" "a < gw_next g" "g' = gw_upd a (\<lambda>_. s) g"
    using assms(2) by (auto split: if_splits)
  then have "sess_ok (gw_heap g a)" using assms(1) by (auto simp: gw_ok_def)
  then show ?thesis
    using reader_turn_ok [OF _ s(1)] unfolding s(3) by (intro gw_upd_ok [OF assms(1)]) auto
next
  case (GPollTurn n c)
  then show ?thesis
    using assms by (auto simp: Let_def split: if_splits intro: gw_poll_turn_ok)
qed (use assms in \<open>auto intro: gw_connect_ok gw_send_ok gw_poll_ok gw_handleClose_ok\<close>)

lemma gw_start_ok: "gw_ok (gw_start h)"
  by (simp add: gw_start_def gw_ok_def)

lemma gw_reachable_ok: "gw_reachable g \<Longrightarrow> gw_ok g"
  by (induction rule: gw_reachable.induct) (auto intro: gw_start_ok gw_step_ok)

lemma gw_run_reachable: "gw_run es g = Some g' \<Longrightarrow> gw_reachable g \<Longrightarrow> gw_reachable g'"
  by (induction es arbitrary: g) (auto split: option.splits intro: gw_reachable.intros)

section \<open>Polling ends\<close>

text \<open>An upper bound for the turns a poll still makes.\<close>

definition turns_left :: "poll \<Rightarrow> nat" where
  "turns_left p =
     (case po_at p of
        Replied \<Rightarrow> 0
      | Wait \<Rightarrow> 20
      | Collect \<Rightarrow> if po_msgs p = [] then 21 else 20 - length (po_msgs p))"

lemma poll_turn_decreases:
  assumes "poll_ok p" "poll_turn c s p = Some (s', p')"
  shows "turns_left p' < turns_left p"
  using assms
  by (cases c; cases "po_at p")
    (auto simp: turns_left_def poll_ok_def Let_def split: if_splits list.splits)

text \<open>A poll that has not replied is never stuck: while it waits, the timer can fire.\<close>

lemma poll_turn_ready: "po_at p \<noteq> Replied \<Longrightarrow> \<exists>c. poll_turn c s p \<noteq> None"
proof (cases "po_at p")
  case Collect
  consider "gs_closed s" | "\<not> gs_closed s" "ch_buf (gs_messages s) = []" | m r where "ch_buf (gs_messages s) = m # r"
    by (cases "ch_buf (gs_messages s)") auto
  then show ?thesis
  proof cases
    case 1
    then show ?thesis using Collect by (intro exI [of _ OnClosed]) simp
  next
    case 2
    then show ?thesis using Collect by (intro exI [of _ OnDefault]) simp
  next
    case 3
    then show ?thesis using Collect by (intro exI [of _ OnMessage]) (simp add: Let_def)
  qed
qed (auto intro: exI [of _ OnTimer])

definition turns_of :: "nat \<Rightarrow> gw_event list \<Rightarrow> nat" where
  "turns_of n es = length (filter (\<lambda>e. case e of GPollTurn k _ \<Rightarrow> k = n | _ \<Rightarrow> False) es)"

lemma gw_requests_polls:
  "gw_polls (snd (gw_handleConnect d b g)) = gw_polls g" "gw_polls (snd (gw_handleSend i m wok g)) = gw_polls g"
  "gw_polls (snd (gw_handleClose i g)) = gw_polls g"
  "\<exists>ps. gw_polls (snd (gw_handlePoll i g)) = gw_polls g @ ps"
  by (auto simp: gw_handleConnect_def gw_handleSend_def gw_handleClose_def gw_handlePoll_def gw_upd_def Let_def
      split: sum.split option.split)

lemma gw_step_polls:
  assumes "gw_ok g" "gw_step e g = Some g'" "n < length (gw_polls g)"
  shows "n < length (gw_polls g')" "turns_left (gw_polls g' ! n) + turns_of n [e] \<le> turns_left (gw_polls g ! n)"
proof -
  have "n < length (gw_polls g') \<and> turns_left (gw_polls g' ! n) + turns_of n [e] \<le> turns_left (gw_polls g ! n)"
  proof (cases e)
    case (GPollTurn k c)
    then obtain s q where k: "k < length (gw_polls g)" "gw_polls g' = (gw_polls g)[k := q]"
      and turn: "poll_turn c (gw_heap g (po_sess (gw_polls g ! k))) (gw_polls g ! k) = Some (s, q)"
      using assms(2) by (auto simp: Let_def split: if_splits)
    have "poll_ok (gw_polls g ! k)" using assms(1) nth_mem [OF k(1)] by (auto simp: gw_ok_def)
    from poll_turn_decreases [OF this turn] show ?thesis
      using k assms(3) GPollTurn by (auto simp: turns_of_def nth_list_update)
  next
    case (GPoll i)
    then show ?thesis
      using assms(2,3) gw_requests_polls(4) [of i g] by (auto simp: turns_of_def nth_append)
  qed (use assms in \<open>auto simp: gw_requests_polls turns_of_def gw_upd_def split: if_splits\<close>)
  then show "n < length (gw_polls g')" "turns_left (gw_polls g' ! n) + turns_of n [e] \<le> turns_left (gw_polls g ! n)"
    by simp_all
qed

lemma gw_run_polls:
  assumes "gw_run es g = Some g'" "gw_ok g" "n < length (gw_polls g)"
  shows "n < length (gw_polls g') \<and> turns_left (gw_polls g' ! n) + turns_of n es \<le> turns_left (gw_polls g ! n)"
  using assms
proof (induction es arbitrary: g)
  case Nil
  then show ?case by (simp add: turns_of_def)
next
  case (Cons e es)
  then obtain g1 where g1: "gw_step e g = Some g1" "gw_run es g1 = Some g'" by (auto split: option.splits)
  have "turns_of n (e # es) = turns_of n [e] + turns_of n es" by (simp add: turns_of_def)
  then show ?case
    using Cons.IH [OF g1(2) gw_step_ok [OF Cons.prems(2) g1(1)]] gw_step_polls [OF Cons.prems(2) g1(1) Cons.prems(3)]
    by fastforce
qed

lemma gw_run_ok: "gw_run es g = Some g' \<Longrightarrow> gw_ok g \<Longrightarrow> gw_ok g'"
  by (induction es arbitrary: g) (auto split: option.splits intro: gw_step_ok)

lemma turns_left_bound: "turns_left p \<le> 21"
  by (auto simp: turns_left_def split: poll_at.split)

section \<open>Closed sessions\<close>

definition shut :: "nat \<Rightarrow> string \<Rightarrow> string list \<Rightarrow> gateway \<Rightarrow> bool" where
  "shut a i ws g =
     (a < gw_next g \<and> gs_closed (gw_heap g a) \<and> gs_written (gw_heap g a) = ws \<and> map_of (gw_sessions g) i = None)"

definition reconnects :: "string \<Rightarrow> gw_event \<Rightarrow> bool" where
  "reconnects i e = (case e of GConnect d b \<Rightarrow> EncodeToString b = i | _ \<Rightarrow> False)"

lemma shut_upd:
  assumes "shut a i ws g" "b = a \<Longrightarrow> gs_closed (f (gw_heap g a)) \<and> gs_written (f (gw_heap g a)) = ws"
  shows "shut a i ws (gw_upd b f g)"
  using assms by (auto simp: shut_def gw_upd_def)

lemma shut_polls [simp]: "shut a i ws (g\<lparr>gw_polls := ps\<rparr>) = shut a i ws g"
  by (simp add: shut_def)

lemma shut_requests:
  assumes "shut a i ws g" "gw_ok g"
  shows "EncodeToString b \<noteq> i \<Longrightarrow> shut a i ws (snd (gw_handleConnect d b g))" "shut a i ws (snd (gw_handleSend j m wok g))"
    "shut a i ws (snd (gw_handlePoll j g))" "shut a i ws (snd (gw_handleClose j g))"
proof -
  have "\<not> gs_conn (gw_heap g a)" using assms by (auto simp: shut_def gw_ok_def sess_ok_def)
  then show "shut a i ws (snd (gw_handleSend j m wok g))"
    using assms(1) by (auto simp: gw_handleSend_def Let_def intro!: shut_upd split: option.split)
  show "shut a i ws (snd (gw_handleConnect d b g))" if "EncodeToString b \<noteq> i"
    using that assms(1) by (auto simp: gw_handleConnect_def shut_def Let_def gomap_simps split: sum.split)
  show "shut a i ws (snd (gw_handlePoll j g))"
    using assms(1) by (simp add: gw_handlePoll_def split: option.split)
  have "shut a i ws (g\<lparr>gw_sessions := AList.delete j (gw_sessions g)\<rparr>)"
    using assms(1) by (simp add: shut_def gomap_simps)
  moreover have "gs_closed (gw_close (gw_heap g a)) \<and> gs_written (gw_close (gw_heap g a)) = ws"
    using assms(1) by (auto simp: shut_def gw_close_def)
  ultimately show "shut a i ws (snd (gw_handleClose j g))"
    using assms(1) by (auto simp: gw_handleClose_def intro!: shut_upd split: option.split)
qed

lemma shut_step:
  assumes "shut a i ws g" "gw_ok g" "gw_step e g = Some g'" "\<not> reconnects i e"
  shows "shut a i ws g'"
proof (cases e)
  case (GReaderTurn b c)
  then obtain s where s: "reader_turn c (gw_heap g b) = Some s" "b < gw_next g" "g' = gw_upd b (\<lambda>_. s) g"
    using assms(3) by (auto split: if_splits)
  then have "sess_ok (gw_heap g b)" using assms(2) by (auto simp: gw_ok_def)
  from reader_turn_ok [OF this s(1)] show ?thesis
    unfolding s(3) using assms(1) by (intro shut_upd) (auto simp: shut_def)
next
  case (GPollTurn n c)
  then obtain s q where n: "n < length (gw_polls g)" "g' = (gw_upd (po_sess (gw_polls g ! n)) (\<lambda>_. s) g)\<lparr>gw_polls := (gw_polls g)[n := q]\<rparr>"
    and turn: "poll_turn c (gw_heap g (po_sess (gw_polls g ! n))) (gw_polls g ! n) = Some (s, q)"
    using assms(3) by (auto simp: Let_def split: if_splits)
  have "sess_ok (gw_heap g (po_sess (gw_polls g ! n)))" "poll_ok (gw_polls g ! n)"
    using assms(2) nth_mem [OF n(1)] by (auto simp: gw_ok_def)
  from poll_turn_ok [OF this turn] show ?thesis
    unfolding n(2) shut_polls using assms(1) by (intro shut_upd) (auto simp: shut_def)
qed (use assms in \<open>auto simp: reconnects_def intro: shut_requests\<close>)

lemma shut_run:
  assumes "gw_run es g = Some g'" "shut a i ws g" "gw_ok g" "list_all (\<lambda>e. \<not> reconnects i e) es"
  shows "shut a i ws g'"
  using assms
  by (induction es arbitrary: g) (auto split: option.splits intro: shut_step gw_step_ok)

section \<open>What is written\<close>

lemma one_lined:
  "replace_char (CHR 0x0D) (CHR '' '') (replace_char (CHR 0x0A) (CHR '' '') s) =
     map (\<lambda>c. if c = CHR 0x0A \<or> c = CHR 0x0D then CHR '' '' else c) s"
  by (simp add: replace_char_def)

lemma gw_step_next: "gw_step e g = Some g' \<Longrightarrow> gw_next g \<le> gw_next g'"
  by (cases e) (auto simp: gw_handleConnect_def gw_handleSend_def gw_handlePoll_def gw_handleClose_def gw_upd_def Let_def
      split: if_splits sum.splits option.splits)

lemma gw_step_fresh: "gw_step e g = Some g' \<Longrightarrow> gw_next g < gw_next g' \<Longrightarrow> gs_written (gw_heap g' (gw_next g)) = []"
  by (cases e) (auto simp: gw_handleConnect_def gw_handleSend_def gw_handlePoll_def gw_handleClose_def gw_upd_def Let_def
      split: if_splits sum.splits option.splits)

lemma step_writes_nothing:
  assumes "gw_reachable g" "gw_step e g = Some g'" "a < gw_next g" "\<And>i m wok. e \<noteq> GSend i m wok"
  shows "gs_written (gw_heap g' a) = gs_written (gw_heap g a)"
proof (cases e)
  case (GReaderTurn b c)
  then obtain s where s: "reader_turn c (gw_heap g b) = Some s" "b < gw_next g" "g' = gw_upd b (\<lambda>_. s) g"
    using assms(2) by (auto split: if_splits)
  then have "sess_ok (gw_heap g b)" using gw_reachable_ok [OF assms(1)] by (auto simp: gw_ok_def)
  from reader_turn_ok(3) [OF this s(1)] show ?thesis by (simp add: s(3) gw_upd_def)
next
  case (GPollTurn n c)
  then obtain s q where n: "n < length (gw_polls g)" "g' = (gw_upd (po_sess (gw_polls g ! n)) (\<lambda>_. s) g)\<lparr>gw_polls := (gw_polls g)[n := q]\<rparr>"
    and turn: "poll_turn c (gw_heap g (po_sess (gw_polls g ! n))) (gw_polls g ! n) = Some (s, q)"
    using assms(2) by (auto simp: Let_def split: if_splits)
  have "sess_ok (gw_heap g (po_sess (gw_polls g ! n)))" "poll_ok (gw_polls g ! n)"
    using gw_reachable_ok [OF assms(1)] nth_mem [OF n(1)] by (auto simp: gw_ok_def)
  from poll_turn_ok(4) [OF this turn] show ?thesis by (simp add: n(2) gw_upd_def)
qed (use assms in \<open>auto simp: gw_handleConnect_def gw_handlePoll_def gw_handleClose_def gw_upd_def Let_def
      split: sum.splits option.splits\<close>)

section \<open>Properties\<close>

text \<open>
  The state of the examples: one session, two lines of the server, a poll that took the first one
  and a message with a line end in the middle.
\<close>

definition demo_heap :: "nat \<Rightarrow> gw_session" where
  "demo_heap = (\<lambda>_. \<lparr>gs_id = [], gs_conn = False, gs_messages = make_chan 0, gs_closed = True, gs_once = True,
     gs_reader = Stopped, gs_written = [], gs_read = [], gs_taken = []\<rparr>)"

definition demo_gateway :: gateway where
  "demo_gateway =
     \<lparr>gw_heap = demo_heap
        (0 := \<lparr>gs_id = ''0102'', gs_conn = True, gs_messages = make_chan 256, gs_closed = False, gs_once = False,
          gs_reader = Offering ''yo'', gs_written = [''a who'' @ [CHR 0x0A]], gs_read = [''hi'', ''yo''], gs_taken = [''hi'']\<rparr>),
      gw_next = 1, gw_sessions = [(''0102'', 0)],
      gw_polls = [\<lparr>po_sess = 0, po_msgs = [''hi''], po_at = Collect\<rparr>]\<rparr>"

lemma demo_id: "EncodeToString [1, 2] = ''0102''"
  by code_simp

lemma demo_msg: "TrimSpace (''a'' @ [CHR 0x0A] @ ''who'') = ''a'' @ [CHR 0x0A] @ ''who''"
  by code_simp

lemma demo_run:
  "gw_run [GConnect (Inr ()) [1, 2], GReaderTurn 0 (GotLine (''hi'' @ [CHR 0x0D, CHR 0x0A])), GReaderTurn 0 MessageSent,
       GPoll ''0102'', GPollTurn 0 OnMessage, GReaderTurn 0 (GotLine (''yo'' @ [CHR 0x0A])),
       GSend ''0102'' (Some (''a'' @ [CHR 0x0A] @ ''who'')) True] (gw_start demo_heap) = Some demo_gateway"
  unfolding gw_run.simps gw_step.simps gw_handleSend_def demo_msg option.case
  by (simp add: gw_start_def gw_handleConnect_def gw_handlePoll_def demo_id Let_def gw_upd_def make_chan_def
      TrimRightCRNL_def getSession_def replace_char_def demo_gateway_def)

lemma demo_reachable: "gw_reachable demo_gateway" "getSession ''0102'' demo_gateway = Some 0"
  "0 < gw_next demo_gateway" "length (gw_polls demo_gateway) = 1"
  using gw_run_reachable [OF demo_run gw_init] by (simp_all add: demo_gateway_def getSession_def)

text \<open>
  C22. Messages of the server reach the browser in order and once.  In every reachable state the
  lines read from the connection of a session are those handed out to polls, followed by those
  queued (at most 256) and by at most one line the reader still holds; every line handed out is in
  exactly one poll, and each poll holds at most 20 of them, in the order of the connection.
\<close>

theorem gateway_hands_out_in_order:
  assumes "gw_reachable g" "a < gw_next g"
  shows "(\<exists>r. length r \<le> 1 \<and> gs_read (gw_heap g a) = gs_taken (gw_heap g a) @ ch_buf (gs_messages (gw_heap g a)) @ r)
    \<and> length (ch_buf (gs_messages (gw_heap g a))) \<le> 256
    \<and> mset (gs_taken (gw_heap g a)) = (\<Sum>p\<leftarrow>filter (\<lambda>p. po_sess p = a) (gw_polls g). mset (po_msgs p))
    \<and> (\<forall>p \<in> set (gw_polls g). po_sess p = a \<longrightarrow>
          length (po_msgs p) \<le> 20 \<and> subseq (po_msgs p) (gs_taken (gw_heap g a)))"
proof -
  have "given a ps = (\<Sum>p\<leftarrow>filter (\<lambda>p. po_sess p = a) ps. mset (po_msgs p))" for ps
    by (induction ps) (auto simp: given_def part_def)
  moreover have "sess_ok (gw_heap g a)" using gw_reachable_ok [OF assms(1)] assms(2) by (simp add: gw_ok_def)
  moreover from this have "\<exists>r. length r \<le> 1 \<and> gs_read (gw_heap g a) = gs_taken (gw_heap g a) @ ch_buf (gs_messages (gw_heap g a)) @ r"
    using held_length by (auto simp: sess_ok_def)
  ultimately show ?thesis
    using gw_reachable_ok [OF assms(1)] assms(2) by (auto simp: gw_ok_def sess_ok_def chan_ok_def poll_ok_def)
qed

theorem gateway_hands_out_in_order_witness:
  "mset (gs_taken (gw_heap demo_gateway 0)) =
     (\<Sum>p\<leftarrow>filter (\<lambda>p. po_sess p = 0) (gw_polls demo_gateway). mset (po_msgs p))
   \<and> (\<exists>r. length r \<le> 1 \<and> gs_read (gw_heap demo_gateway 0) =
        gs_taken (gw_heap demo_gateway 0) @ ch_buf (gs_messages (gw_heap demo_gateway 0)) @ r)"
  using gateway_hands_out_in_order [OF demo_reachable(1,3)] by blast

text \<open>
  C8. Requests cannot smuggle commands.  A send request to an open session whose message is not blank writes
  exactly one line to its connection, the trimmed message with every carriage return and line feed
  replaced by a blank; no other request or goroutine writes anything, and a new session starts with nothing
  written.  The request is answered with success exactly if that line was written or the message was blank.
  Cut at line ends, as the chat server does it, the connection carries just these lines, none empty.
\<close>

theorem gateway_sends_whole_lines:
  assumes "gw_reachable g" "gw_step e g = Some g'" "a < gw_next g"
  shows "gs_written (gw_heap g' a) = gs_written (gw_heap g a) @
      (case e of
         GSend i (Some m) wok \<Rightarrow>
           if wok \<and> map_of (gw_sessions g) i = Some a \<and> \<not> gs_closed (gw_heap g a) \<and> TrimSpace m \<noteq> []
           then [map (\<lambda>c. if c = CHR 0x0A \<or> c = CHR 0x0D then CHR '' '' else c) (TrimSpace m) @ [CHR 0x0A]]
           else []
       | _ \<Rightarrow> [])
    \<and> (\<forall>i m wok. map_of (gw_sessions g) i = Some a \<longrightarrow>
          (fst (gw_handleSend i (Some m) wok g) = GwOk \<longleftrightarrow> TrimSpace m = [] \<or> wok \<and> \<not> gs_closed (gw_heap g a)))
    \<and> (gw_next g < gw_next g' \<longrightarrow> gs_written (gw_heap g' (gw_next g)) = [])
    \<and> Split (CHR 0x0A) (concat (gs_written (gw_heap g' a))) = map butlast (gs_written (gw_heap g' a)) @ [[]]
    \<and> (\<forall>w \<in> set (gs_written (gw_heap g' a)). butlast w \<noteq> [])"
proof -
  have conn: "gs_conn (gw_heap g a) = (\<not> gs_closed (gw_heap g a))"
    using gw_reachable_ok [OF assms(1)] assms(3) by (simp add: gw_ok_def sess_ok_def)
  have grows: "a < gw_next g'" using gw_step_next [OF assms(2)] assms(3) by simp
  have lines: "\<forall>w \<in> set (gs_written (gw_heap g' a)). one_line w"
    using gw_reachable_ok [OF gw_reachable.gw_next_step [OF assms(1,2)]] grows by (simp add: gw_ok_def sess_ok_def)
  have "Split (CHR 0x0A) (concat ws) = map butlast ws @ [[]]" if "\<forall>w \<in> set ws. one_line w" for ws
    using that by (induction ws) (auto simp: one_line_def Split_append)
  moreover have "gs_written (gw_heap g' a) = gs_written (gw_heap g a) @
      (case e of
         GSend i (Some m) wok \<Rightarrow>
           if wok \<and> map_of (gw_sessions g) i = Some a \<and> \<not> gs_closed (gw_heap g a) \<and> TrimSpace m \<noteq> []
           then [map (\<lambda>c. if c = CHR 0x0A \<or> c = CHR 0x0D then CHR '' '' else c) (TrimSpace m) @ [CHR 0x0A]]
           else []
       | _ \<Rightarrow> [])"
  proof (cases e)
    case (GSend i m wok)
    then show ?thesis
      using assms(2) conn by (cases m) (auto simp: gw_handleSend_def getSession_def gw_upd_def Let_def one_lined split: option.splits)
  qed (use step_writes_nothing [OF assms(1,2,3)] in auto)
  moreover have "fst (gw_handleSend i (Some m) wok g) = GwOk \<longleftrightarrow> TrimSpace m = [] \<or> wok \<and> \<not> gs_closed (gw_heap g a)"
    if "map_of (gw_sessions g) i = Some a" for i m wok
    using that conn by (simp add: gw_handleSend_def getSession_def Let_def one_lined)
  moreover have "\<forall>w \<in> set (gs_written (gw_heap g' a)). butlast w \<noteq> []" using lines by (auto simp: one_line_def)
  ultimately show ?thesis using lines gw_step_fresh [OF assms(2)] by blast
qed

theorem gateway_sends_whole_lines_witness:
  "\<exists>g. gw_step (GSend ''0102'' (Some (''a'' @ [CHR 0x0A] @ ''who'')) True) demo_gateway = Some g
     \<and> gs_written (gw_heap g 0) = [''a who'' @ [CHR 0x0A], ''a who'' @ [CHR 0x0A]]"
proof -
  obtain g where g: "gw_step (GSend ''0102'' (Some (''a'' @ [CHR 0x0A] @ ''who'')) True) demo_gateway = Some g" by simp
  from gateway_sends_whole_lines [OF demo_reachable(1) g demo_reachable(3)] show ?thesis
    using g by (simp add: demo_msg [simplified] demo_gateway_def del: gw_step.simps)
qed

text \<open>
  C23. Polling always ends.  However requests, reader and polls interleave, a poll makes at most 21
  turns, and as long as it has not replied a turn is possible.
\<close>

theorem gateway_poll_ends:
  assumes "gw_reachable g" "gw_run es g = Some g'" "n < length (gw_polls g)"
  shows "turns_of n es \<le> 21 \<and> (po_at (gw_polls g' ! n) \<noteq> Replied \<longrightarrow> (\<exists>c. gw_step (GPollTurn n c) g' \<noteq> None))"
proof -
  have r: "n < length (gw_polls g')" "turns_of n es \<le> turns_left (gw_polls g ! n)"
    using gw_run_polls [OF assms(2) gw_reachable_ok [OF assms(1)] assms(3)] by simp_all
  have "\<exists>c. gw_step (GPollTurn n c) g' \<noteq> None" if at: "po_at (gw_polls g' ! n) \<noteq> Replied"
    using poll_turn_ready [OF at] r(1) by (fastforce simp: Let_def)
  then show ?thesis using r turns_left_bound [of "gw_polls g ! n"] by simp
qed

theorem gateway_poll_ends_witness:
  "\<exists>g. gw_run [GReaderTurn 0 MessageSent, GPollTurn 0 OnMessage, GPollTurn 0 OnDefault] demo_gateway = Some g
     \<and> turns_of 0 [GReaderTurn 0 MessageSent, GPollTurn 0 OnMessage, GPollTurn 0 OnDefault] \<le> 21
     \<and> po_at (gw_polls g ! 0) = Replied"
proof -
  obtain g where g: "gw_run [GReaderTurn 0 MessageSent, GPollTurn 0 OnMessage, GPollTurn 0 OnDefault] demo_gateway = Some g"
    "po_at (gw_polls g ! 0) = Replied"
    by (auto simp: demo_gateway_def Let_def make_chan_def gw_upd_def)
  then show ?thesis using gateway_poll_ends [OF demo_reachable(1) g(1), of 0] demo_reachable(4) by simp
qed

text \<open>
  A closed session is gone.  After the close request its id is refused by the send and poll
  requests until a new connection draws the same id, and nothing is written to its connection.
\<close>

theorem gateway_close_final:
  assumes "gw_reachable g" "getSession i g = Some a" "gw_run es (snd (gw_handleClose i g)) = Some g'"
    and "list_all (\<lambda>e. \<not> reconnects i e) es"
  shows "gw_handleSend i m wok g' = (GwError 401 ''invalid session'', g')
    \<and> gw_handlePoll i g' = (Some (GwError 401 ''invalid session''), g')
    \<and> gs_written (gw_heap g' a) = gs_written (gw_heap g a)"
proof -
  note ok = gw_reachable_ok [OF assms(1)]
  have a: "a < gw_next g" "sess_ok (gw_heap g a)" using ok assms(2) by (auto simp: gw_ok_def getSession_def)
  have "shut a i (gs_written (gw_heap g a)) (snd (gw_handleClose i g))"
    using a assms(2) sess_ok_close by (simp add: getSession_def gw_handleClose_def shut_def gw_upd_def gomap_simps)
  from shut_run [OF assms(3) this gw_handleClose_ok [OF ok] assms(4)] show ?thesis
    by (simp add: shut_def getSession_def gw_handleSend_def gw_handlePoll_def)
qed

theorem gateway_close_final_witness:
  "\<exists>g. gw_run [GReaderTurn 0 SawClosed, GPollTurn 0 OnClosed] (snd (gw_handleClose ''0102'' demo_gateway)) = Some g
     \<and> gw_handlePoll ''0102'' g = (Some (GwError 401 ''invalid session''), g)
     \<and> gs_written (gw_heap g 0) = gs_written (gw_heap demo_gateway 0)"
proof -
  obtain g where g: "gw_run [GReaderTurn 0 SawClosed, GPollTurn 0 OnClosed] (snd (gw_handleClose ''0102'' demo_gateway)) = Some g"
    by (simp add: demo_gateway_def Let_def make_chan_def gw_upd_def gw_handleClose_def gw_close_def)
  have "list_all (\<lambda>e. \<not> reconnects ''0102'' e) [GReaderTurn 0 SawClosed, GPollTurn 0 OnClosed]"
    by (simp add: reconnects_def)
  from gateway_close_final [OF demo_reachable(1,2) g this] g show ?thesis by blast
qed

end
