(* ===== verification/Spec2Isabelle.thy ===== *)
theory Spec2Isabelle
  imports Chat_Order Cluster Lifecycle Config_File Redis_Session Tcp_Client Gateway
begin

text \<open>
  A verification development for Lchat, an instant-messaging system written in Go: a chat server
  with a line protocol over TCP, an HTTP and WebSocket interface and an SQLite database
  (\<^verbatim>\<open>main.go\<close>, \<^verbatim>\<open>internal/\<close>), a command line client (\<^verbatim>\<open>cmd/client\<close>) and a web gateway that carries
  browser sessions over the TCP protocol (\<^verbatim>\<open>cmd/web\<close>).

  \<^bold>\<open>How the parts fit together.\<close>  \<^verbatim>\<open>New\<close> reads the configuration and the database and makes the
  server state.  Every TCP connection is a \<^verbatim>\<open>User\<close> with a queue of 100 lines and a writer; every
  WebSocket connection a \<^verbatim>\<open>WSClient\<close> with a queue of its own.  A message passes the input checks, is
  saved, and is put into the queues of its receivers and, as JSON text, on the bus between servers.
  HTTP requests carry a session token that the session store resolves to a user; rate limiters guard login,
  registration and sending.

  \<^bold>\<open>Theories and sources.\<close>
  \<^item> \<open>Go_Prelude\<close>: Go strings (bytes), maps (association lists visited in any order), channels, and
    the locale \<open>keyed_store\<close> of a map, interpreted by association lists.
  \<^item> \<open>Lchat_Texts\<close>, \<open>Lchat_Model\<close>: the string literals, and the records of \<^verbatim>\<open>internal/model\<close>.
  \<^item> \<open>Rate_Limiter\<close>: \<^verbatim>\<open>ratelimit.go\<close>, refined to an independent fixed window per key.
  \<^item> \<open>Session_Store\<close>, \<open>Redis_Session\<close>: the two session stores (\<^verbatim>\<open>bus.go\<close>, \<^verbatim>\<open>redis_session.go\<close>).  The
    locale \<open>session_store\<close> is their interface; the store in memory interprets it, the store in Redis
    is proved to meet it for every Redis client that behaves as documented.
  \<^item> \<open>Db_Schema\<close>, \<open>Db_Users\<close>, \<open>Db_Groups\<close>, \<open>Db_Messages\<close>, \<open>Db_Friends\<close>: \<^verbatim>\<open>internal/db/db.go\<close>, every method
    with its statements (\<^verbatim>\<open>ORDER BY\<close> and \<^verbatim>\<open>LIMIT\<close> included), constraints, transactions and error branches, on
    tables as lists of rows.  Whether a statement runs where foreign keys are checked is up to the driver.
  \<^item> \<open>Sanitize\<close>, \<open>Avatar\<close>, \<open>Config\<close>, \<open>Config_File\<close>: input checks (\<^verbatim>\<open>server.go\<close>, \<^verbatim>\<open>user.go\<close>), \<^verbatim>\<open>avatar.go\<close>,
    \<^verbatim>\<open>config.go\<close> with the JSON of the file, and the flags of \<^verbatim>\<open>main.go\<close>.
  \<^item> \<open>Json\<close>: what the program uses of \<^verbatim>\<open>encoding/json\<close>: UTF-8, writing structs of strings, reading any
    JSON text and decoding it by field names.
  \<^item> \<open>Server_State\<close>, \<open>Delivery\<close>, \<open>Messaging\<close>: the \<^verbatim>\<open>Server\<close> struct and the message paths of \<^verbatim>\<open>server.go\<close>.
    The locale \<open>mailbox\<close> is what a fan-out needs of a queue; TCP users and WebSocket clients
    interpret it.  The invariant of the server is \<open>server_ok\<close>.
  \<^item> \<open>Tcp_User\<close>: \<^verbatim>\<open>user.go\<close>, \<^verbatim>\<open>New\<close> and \<^verbatim>\<open>Handler\<close>.  \<open>Web_Socket\<close>: \<^verbatim>\<open>wss.go\<close>.  \<open>Bus\<close>: the receiver of the bus.
  \<^item> \<open>Lchat_Assets\<close>, \<open>Listen\<close>, \<open>Web_Api\<close>, \<open>Web_Access\<close>: \<^verbatim>\<open>lchat_assets.go\<close> and \<^verbatim>\<open>web.go\<close>: the search for a
    free port, the certificate, the handlers, the middlewares and the routes, and what they let a caller do.
  \<^item> \<open>Wire\<close>: the JSON of \<^verbatim>\<open>wss.go\<close>, of the bodies of \<^verbatim>\<open>web.go\<close> and of the bus, with \<^verbatim>\<open>Receive\<close> and \<^verbatim>\<open>Close\<close> of
    \<^verbatim>\<open>redis_bus.go\<close>.
  \<^item> \<open>Chat_System\<close>, \<open>Chat_Order\<close>: all events of all interfaces on one state, in any order
    (\<open>system_step\<close>, \<open>reachable\<close>), and the order of what they write.
  \<^item> \<open>Cluster\<close>: several such servers on one Redis channel (\<open>cluster_step\<close>).  Redis is not modelled: a
    receiver may get any payload that was published, at any time, any number of times or never.
  \<^item> \<open>Lifecycle\<close>: \<^verbatim>\<open>main\<close>, \<^verbatim>\<open>Start\<close>, \<^verbatim>\<open>StartWeb\<close> and \<^verbatim>\<open>Shutdown\<close> as interleaved steps (\<open>life_step\<close>) with the
    wait group, the context and the listeners.
  \<^item> \<open>Tcp_Client\<close>: \<^verbatim>\<open>cmd/client/main.go\<close>, alone and against the server.  \<open>Gateway\<close>: \<^verbatim>\<open>cmd/web/main.go\<close>.

  \<^bold>\<open>State, errors and outside.\<close>  Operations pass the state explicitly.  A Go error is its text
  (\<open>Inl\<close>); a panic is the result \<^const>\<open>None\<close> of an operation of the server.  What comes from outside is
  an argument: the record \<open>driver\<close> for SQLite and bcrypt (its faults included), \<open>env\<close> for the time, the
  order of map loops and the choice of a \<^verbatim>\<open>select\<close>, random bytes, the Redis client, the file system,
  \<^verbatim>\<open>net.Listen\<close>, key generation, \<^verbatim>\<open>time.ParseDuration\<close>.  Hypotheses about them state documented behaviour (a comparison accepts
  the hashed password, a map loop visits every entry once, a key expires at its time).

  \<^bold>\<open>What is shown.\<close>
  \<^item> The server as a whole: from \<^verbatim>\<open>New\<close> on exactly two events make it panic, a login that goes on to
    \<^verbatim>\<open>Online\<close> after the idle timeout took its connection offline, and the start of the session clean-up with
    an interval that is not positive; the tables stay consistent, and the lines and events of a served
    connection are neither lost nor reordered and get written.
  \<^item> Text: JSON that was written is read as it was, for any text in valid UTF-8; frames are clean
    UTF-8; the parser needs no more fuel than it gets.
  \<^item> Several servers: what a receiver gets is never published again, its own messages are ignored, and
    those of others reach its WebSocket clients.
  \<^item> Start and stop: the wait group is balanced, and \<^verbatim>\<open>Shutdown\<close> ends after at most ten steps, when the three
    goroutines of the wait group have ended; those of the connections are not waited for.
  \<^item> Delivery: a public message reaches every connection once, a private message its receiver, a
    group message the members, and nobody else.
  \<^item> Access: before login a connection reaches nobody; without a session no request changes
    anything but the limiter for sending and expired entries; who may end a membership or read a private
    history.
  \<^item> Storage: keys, references and the friendship relation in every reachable database, with and
    without checked foreign keys; what each query returns; registration and authentication; histories
    and pages; what a private message adds to a history.
  \<^item> Components: rate limiter, session life times, sanitising, configuration, avatars, ports.
  \<^item> Client and gateway: what they send is what the server does, each request is one line, lines
    are handed out in order, polls and chat loops end when they should.
  \<^item> Defects as theorems: the race of idle timeout and login, the lost connection of a reconnect,
    the client that takes a presence message for the answer to its login, the start that an invalid
    variable crashes, the shutdown that a late listener blocks, and others that the theories state next to
    the code they are about.

  \<^bold>\<open>Termination and bounds.\<close>  Server functions are total and need no fuel; the tag-stripping loop ends
  because the text gets shorter, and one round is shown to be enough.  Loops of the client that may run for
  ever are partial functions, and the theorem says when they return.  A poll of the gateway makes at
  most 21 turns.  The JSON parser has twice the length of the text plus two as fuel, which \<open>json_fuel_enough\<close>
  shows to give the same result as any larger amount.

  \<^bold>\<open>Granularity.\<close>  An event is one piece of work of a goroutine, and events interleave freely.  On a TCP
  connection the reader, the writer and the idle watcher take turns: lines that are read or were buffered
  are handled also after the idle timeout took the connection offline, and a login that is accepted is two
  events, up to \<^verbatim>\<open>Online\<close> and from there, so that the idle timeout may come between them.  \<^verbatim>\<open>Online\<close>, \<^verbatim>\<open>Offline\<close>, any
  other command, an HTTP request and the connection of a WebSocket up to its entry in the map
  are one step each, as are the statements under one lock.

  \<^bold>\<open>Not modelled.\<close>  Locks and interleavings inside one event; two connects of one user over WebSocket at
  the same moment are therefore one after the other.  In Redis mode the server state keeps
  its sessions as the store in memory does; the Redis store is treated through the common interface.
  Outside the model: sockets and TLS itself, the JSON of HTTP responses and of the gateway, static
  files, profiling, logging, the result of \<^verbatim>\<open>Close\<close> on the stores, the interleaving of the nil check and the
  call of \<^verbatim>\<open>webListener.Close\<close> in \<^verbatim>\<open>Shutdown\<close>, the terminal output of the client and the browser front end.

  \<^bold>\<open>Plan.\<close>  Next: the JSON of the HTTP responses and of the gateway; the connection of a WebSocket in
  several steps; sessions of several servers in one Redis store.
\<close>

end
